(* ===== verification/Prelude.thy ===== *)
theory Prelude
  imports Main "HOL-Library.AList" "HOL-Library.Multiset" "HOL-Library.Word"
begin

text \<open>
  Shared vocabulary of the development.

  \<^item> Go's built-in types: maps (\<open>gomap\<close>), sets written as maps to the empty struct
    (\<open>goset\<close>), \<open>int64\<close> and \<open>uint64\<close> as 64-bit words, \<open>time.Time\<close> and
    \<open>time.Duration\<close> as nanosecond counts.
  \<^item> The lemmas on association lists and multisets that the components share, in the
    collection \<open>gomap_simps\<close>.
  \<^item> The locale \<open>stepper\<close>: an invariant kept by every step is kept by every run.

  A Go map is a list of entries with distinct keys. The order of the list stands for the
  iteration order, which Go leaves open: statements quantify over the whole state, hence over
  every order. Reading a key is \<open>map_of\<close>, writing is \<open>AList.update\<close>, \<open>delete\<close> is
  \<open>AList.delete\<close>, and \<open>len\<close> is the length of the list.
\<close>

named_theorems gomap_simps

section \<open>Integers and time\<close>

type_synonym int64 = "64 word"
type_synonym uint64 = "64 word"
type_synonym duration = int
type_synonym gotime = int

lemma unat_uint64_succ: "w + 1 \<noteq> 0 \<Longrightarrow> unat (w + 1 :: uint64) = Suc (unat w)"
  by (metis add.commute unatSuc)

lemma unat_uint64_less: "unat (w :: uint64) < 2 ^ 64"
  using unsigned_less [of w] by simp

definition maxInt64 :: int where
  "maxInt64 = 9223372036854775807"

definition minInt64 :: int where
  "minInt64 = -9223372036854775808"

lemma sint_add_nonneg:
  assumes "0 \<le> sint (b :: int64)" and "0 \<le> n" and "sint b + n \<le> maxInt64"
  shows "sint (b + word_of_int n) = sint b + n"
proof -
  have "sint (b + word_of_int n) = sint (word_of_int (sint b + n) :: int64)" by simp
  also have "\<dots> = signed_take_bit 63 (sint b + n)" by (subst sint_sbintrunc') simp
  also have "\<dots> = sint b + n" using assms by (intro signed_take_bit_int_eq_self) (auto simp: maxInt64_def)
  finally show ?thesis .
qed

definition fits_int :: "int \<Rightarrow> bool" where
  "fits_int i \<longleftrightarrow> minInt64 \<le> i \<and> i \<le> maxInt64"

text \<open>\<open>t.Sub(u)\<close> of package \<open>time\<close> saturates at the ends of \<open>Duration\<close>.\<close>

definition time_Sub :: "gotime \<Rightarrow> gotime \<Rightarrow> duration" where
  "time_Sub t u = max minInt64 (min maxInt64 (t - u))"

lemma time_Sub_ge_iff:
  assumes "minInt64 < d" and "d \<le> maxInt64"
  shows "d \<le> time_Sub t u \<longleftrightarrow> d \<le> t - u"
  using assms by (auto simp: time_Sub_def max_def min_def)

lemma time_Sub_gr_iff:
  assumes "minInt64 \<le> d" and "d < maxInt64"
  shows "d < time_Sub t u \<longleftrightarrow> d < t - u"
  using assms by (auto simp: time_Sub_def max_def min_def)

definition second_ns :: duration where
  "second_ns = 1000000000"

section \<open>Maps and sets\<close>

type_synonym ('k, 'v) gomap = "('k \<times> 'v) list"
type_synonym 'a goset = "'a list"

definition gomap_ok :: "('k, 'v) gomap \<Rightarrow> bool" where
  "gomap_ok m \<longleftrightarrow> distinct (map fst m)"

text \<open>\<open>m[k]\<close> with the zero value \<open>d\<close> for a missing key.\<close>

definition gget :: "'v \<Rightarrow> ('k, 'v) gomap \<Rightarrow> 'k \<Rightarrow> 'v" where
  "gget d m k = (case map_of m k of None \<Rightarrow> d | Some v \<Rightarrow> v)"

lemma gomap_ok_Nil [simp, intro]: "gomap_ok []"
  by (simp add: gomap_ok_def)

lemma gomap_ok_update [simp, intro]: "gomap_ok m \<Longrightarrow> gomap_ok (AList.update k v m)"
  unfolding gomap_ok_def by (rule distinct_update)

lemma gomap_ok_delete [simp, intro]: "gomap_ok m \<Longrightarrow> gomap_ok (AList.delete k m)"
  unfolding gomap_ok_def by (rule distinct_delete)

lemma gomap_ok_filter [simp, intro]: "gomap_ok m \<Longrightarrow> gomap_ok (filter P m)"
  unfolding gomap_ok_def by (rule distinct_map_filter)

lemma map_of_update [gomap_simps, simp]:
  "map_of (AList.update k v m) k' = (if k' = k then Some v else map_of m k')"
  by (simp add: update_conv')

lemma map_of_delete_if [gomap_simps, simp]:
  "map_of (AList.delete k m) k' = (if k' = k then None else map_of m k')"
  by (simp add: delete_conv')

lemma gget_Nil [gomap_simps, simp]: "gget d [] k = d"
  by (simp add: gget_def)

lemma gget_Cons [gomap_simps, simp]:
  "gget d ((k, v) # m) k' = (if k' = k then v else gget d m k')"
  by (simp add: gget_def)

lemma gget_update [gomap_simps, simp]:
  "gget d (AList.update k v m) k' = (if k' = k then v else gget d m k')"
  by (simp add: gget_def)

lemma gget_delete [gomap_simps, simp]:
  "gget d (AList.delete k m) k' = (if k' = k then d else gget d m k')"
  by (simp add: gget_def)

lemma gget_Some [gomap_simps]: "map_of m k = Some v \<Longrightarrow> gget d m k = v"
  by (simp add: gget_def)

lemma gget_None [gomap_simps]: "map_of m k = None \<Longrightarrow> gget d m k = d"
  by (simp add: gget_def)

lemma map_of_filter_key:
  assumes "gomap_ok m"
  shows "map_of (filter P m) k = (case map_of m k of None \<Rightarrow> None | Some v \<Rightarrow> if P (k, v) then Some v else None)"
  using assms
proof (induction m)
  case (Cons e m)
  then show ?case
    by (cases e) (auto simp: gomap_ok_def map_of_eq_None_iff split: option.splits
        dest: map_of_SomeD intro: rev_image_eqI)
qed simp

lemma mset_update_fresh:
  "k \<notin> fst ` set m \<Longrightarrow> mset (AList.update k v m) = add_mset (k, v) (mset m)"
  by (induction m) auto

lemma update_fresh: "k \<notin> fst ` set m \<Longrightarrow> AList.update k v m = m @ [(k, v)]"
  by (induction m) auto

lemma sum_entries_update:
  fixes f :: "'k \<times> 'v \<Rightarrow> 'a :: ab_group_add"
  assumes "map_of m k = Some v"
  shows "sum_list (map f (AList.update k v' m)) = sum_list (map f m) - f (k, v) + f (k, v')"
  using assms by (induction m) auto

lemma sum_entries_update_new:
  fixes f :: "'k \<times> 'v \<Rightarrow> 'a :: ab_group_add"
  assumes "map_of m k = None"
  shows "sum_list (map f (AList.update k v' m)) = sum_list (map f m) + f (k, v')"
  using assms by (induction m) (auto split: if_splits)

lemma sum_list_map_update:
  fixes f :: "'a \<Rightarrow> 'b :: ab_group_add"
  assumes "i < length xs"
  shows "sum_list (map f (xs[i := y])) = sum_list (map f xs) - f (xs ! i) + f y"
  using assms by (induction xs arbitrary: i) (auto split: nat.split)

lemma ball_list_update: "\<forall>c \<in> set xs. P c \<Longrightarrow> P y \<Longrightarrow> \<forall>c \<in> set (xs[i := y]). P c"
  using set_update_subset_insert [of xs i y] by auto

lemma filter_mset_update:
  assumes "i < length xs"
  shows "filter_mset P (mset (xs[i := y])) =
    (if P y then {#y#} else {#}) + (filter_mset P (mset xs) - (if P (xs ! i) then {#xs ! i#} else {#}))"
  using assms by (auto simp: mset_update)

lemma mset_delete: "mset (AList.delete k m) = filter_mset (\<lambda>e. fst e \<noteq> k) (mset m)"
  by (auto simp: AList.delete_eq case_prod_beta intro!: filter_mset_cong)

lemma map_of_in_keys: "map_of m k \<noteq> None \<longleftrightarrow> k \<in> fst ` set m"
  by (simp add: map_of_eq_None_iff)

lemma gomap_ok_mset_cong: "mset m = mset m' \<Longrightarrow> gomap_ok m = gomap_ok m'"
  unfolding gomap_ok_def by (rule mset_eq_imp_distinct_iff) (simp add: mset_map)

lemma map_of_mset_cong:
  assumes "mset m = mset m'" and "gomap_ok m"
  shows "map_of m = map_of m'"
proof
  fix k
  have ok': "gomap_ok m'" using assms gomap_ok_mset_cong by blast
  have "set m = set m'" using assms(1) by (rule mset_eq_setD)
  then have "map_of m k = Some v \<longleftrightarrow> map_of m' k = Some v" for v
    using assms(2) ok' by (simp add: gomap_ok_def map_of_eq_Some_iff)
  then show "map_of m k = map_of m' k"
    by (metis option.exhaust)
qed

text \<open>A map built from entries whose keys are distinct has exactly these entries, in any order.\<close>

lemma foldl_update_fresh:
  assumes "distinct (map k es)" and "\<And>e. e \<in> set es \<Longrightarrow> k e \<notin> fst ` set m"
  shows "foldl (\<lambda>m e. AList.update (k e) (v e) m) m es = m @ map (\<lambda>e. (k e, v e)) es"
  using assms
proof (induction es arbitrary: m)
  case (Cons e es)
  have "foldl (\<lambda>m e. AList.update (k e) (v e) m) (m @ [(k e, v e)]) es
      = (m @ [(k e, v e)]) @ map (\<lambda>e. (k e, v e)) es"
    using Cons.prems by (intro Cons.IH) (auto simp: image_iff)
  then show ?case using Cons.prems(2) [of e] by (simp add: update_fresh)
qed simp

lemma map_of_sort_key:
  assumes "gomap_ok m"
  shows "map_of (sort_key f m) = map_of m" and "gomap_ok (sort_key f m)"
proof -
  have eq: "mset m = mset (sort_key f m)" by simp
  show "map_of (sort_key f m) = map_of m" using map_of_mset_cong [OF eq assms] by simp
  show "gomap_ok (sort_key f m)" using gomap_ok_mset_cong [OF eq] assms by simp
qed

section \<open>Runs of a step function\<close>

text \<open>Every event of the list is allowed in the state that the earlier ones lead to.\<close>

primrec admissible :: "('s \<Rightarrow> 'e \<Rightarrow> 's) \<Rightarrow> ('s \<Rightarrow> 'e \<Rightarrow> bool) \<Rightarrow> 's \<Rightarrow> 'e list \<Rightarrow> bool" where
  "admissible step ok s [] = True"
| "admissible step ok s (e # es) = (ok s e \<and> admissible step ok (step s e) es)"

locale stepper =
  fixes step :: "'s \<Rightarrow> 'e \<Rightarrow> 's"
    and inv :: "'s \<Rightarrow> bool"
    and ok :: "'s \<Rightarrow> 'e \<Rightarrow> bool"
  assumes step_keeps: "inv s \<Longrightarrow> ok s e \<Longrightarrow> inv (step s e)"
begin

lemma run_keeps: "inv s \<Longrightarrow> admissible step ok s es \<Longrightarrow> inv (foldl step s es)"
  by (induction es arbitrary: s) (auto intro: step_keeps)

end

end
