(* ===== verification/GoStrings.thy ===== *)
theory GoStrings
  imports Prelude "HOL-Library.Sublist" "HOL-Library.Char_ord" "HOL-Library.List_Lexorder"
begin

text \<open>
  The parts of Go's packages \<open>strings\<close> and \<open>strconv\<close> that the program calls, on byte
  strings: \<open>TrimSpace\<close>, \<open>ToLower\<close> and \<open>EqualFold\<close> as far as a comparison with an
  ASCII literal can observe them, \<open>Split\<close>, \<open>Itoa\<close>, \<open>FormatUint\<close> and \<open>Atoi\<close>.

  A \<open>string\<close> is a list of bytes, so \<open>length\<close> counts bytes as Go's \<open>len\<close> does and the
  list order (\<open>List_Lexorder\<close> over \<open>Char_ord\<close>) is Go's string order. The main results are
  that trimming is idempotent, that decimal printing is injective and that \<open>atoi\<close> inverts
  \<open>itoa\<close> on every \<open>int\<close>.
\<close>

section \<open>Trimming\<close>

text \<open>
  \<open>unicode.IsSpace\<close> on UTF-8: the width in bytes of the white-space rune that starts
  the string, 0 when there is none, and the same read from the end of the string.
\<close>

definition ascii_space :: "char \<Rightarrow> bool" where
  "ascii_space c \<longleftrightarrow> c \<in> {CHR 0x09, CHR 0x0A, CHR 0x0B, CHR 0x0C, CHR 0x0D, CHR 0x20}"

definition space2 :: "char \<Rightarrow> char \<Rightarrow> bool" where
  "space2 a b \<longleftrightarrow> a = CHR 0xC2 \<and> b \<in> {CHR 0x85, CHR 0xA0}"

definition space3 :: "char \<Rightarrow> char \<Rightarrow> char \<Rightarrow> bool" where
  "space3 a b c \<longleftrightarrow>
     (a = CHR 0xE1 \<and> b = CHR 0x9A \<and> c = CHR 0x80) \<or>
     (a = CHR 0xE2 \<and> b = CHR 0x80 \<and>
        c \<in> {CHR 0x80, CHR 0x81, CHR 0x82, CHR 0x83, CHR 0x84, CHR 0x85, CHR 0x86, CHR 0x87,
             CHR 0x88, CHR 0x89, CHR 0x8A, CHR 0xA8, CHR 0xA9, CHR 0xAF}) \<or>
     (a = CHR 0xE2 \<and> b = CHR 0x81 \<and> c = CHR 0x9F) \<or>
     (a = CHR 0xE3 \<and> b = CHR 0x80 \<and> c = CHR 0x80)"

fun space_width :: "string \<Rightarrow> nat" where
  "space_width [] = 0"
| "space_width [a] = (if ascii_space a then 1 else 0)"
| "space_width [a, b] = (if ascii_space a then 1 else if space2 a b then 2 else 0)"
| "space_width (a # b # c # s) =
     (if ascii_space a then 1 else if space2 a b then 2 else if space3 a b c then 3 else 0)"

fun space_width_rev :: "string \<Rightarrow> nat" where
  "space_width_rev [] = 0"
| "space_width_rev [a] = (if ascii_space a then 1 else 0)"
| "space_width_rev [a, b] = (if ascii_space a then 1 else if space2 b a then 2 else 0)"
| "space_width_rev (a # b # c # s) =
     (if ascii_space a then 1 else if space2 b a then 2 else if space3 c b a then 3 else 0)"

function trim_by :: "(string \<Rightarrow> nat) \<Rightarrow> string \<Rightarrow> string" where
  "trim_by w s = (if s = [] \<or> w s = 0 then s else trim_by w (drop (w s) s))"
  by pat_completeness auto
termination
  by (relation "measure (length \<circ> snd)") auto

declare trim_by.simps [simp del]

definition TrimSpace :: "string \<Rightarrow> string" where
  "TrimSpace s = rev (trim_by space_width_rev (rev (trim_by space_width s)))"

lemma trim_by_stop: "w s = 0 \<Longrightarrow> trim_by w s = s"
  by (subst trim_by.simps) simp

lemma trim_by_stopped: "trim_by w s = [] \<or> w (trim_by w s) = 0"
proof (induction w s rule: trim_by.induct)
  case (1 w s)
  then show ?case by (auto simp: trim_by.simps [of w s])
qed

lemma trim_by_suffix: "\<exists>p. s = p @ trim_by w s"
proof (induction w s rule: trim_by.induct)
  case (1 w s)
  show ?case
  proof (cases "s = [] \<or> w s = 0")
    case True
    then show ?thesis by (simp add: trim_by.simps [of w s])
  next
    case False
    with 1 obtain p where "drop (w s) s = p @ trim_by w (drop (w s) s)" by auto
    with False have "s = (take (w s) s @ p) @ trim_by w s"
      by (metis append.assoc append_take_drop_id trim_by.simps)
    then show ?thesis by blast
  qed
qed

lemma trim_by_idem: "trim_by w (trim_by w s) = trim_by w s"
  using trim_by_stopped [of w s] by (auto simp: trim_by.simps [of w "trim_by w s"])

lemma space_width_append: "space_width s = 0 \<or> s = [] \<or> space_width (s @ t) \<noteq> 0"
  by (cases s rule: space_width.cases; cases t; cases "tl t") auto

text \<open>What is left of the string after trimming its end still starts with no space.\<close>

lemma TrimSpace_front: "TrimSpace s = [] \<or> space_width (TrimSpace s) = 0"
proof -
  let ?u = "trim_by space_width s"
  obtain p where "rev ?u = p @ trim_by space_width_rev (rev ?u)"
    using trim_by_suffix by blast
  then have "?u = TrimSpace s @ rev p"
    unfolding TrimSpace_def by (metis rev_append rev_rev_ident)
  then show ?thesis
    using trim_by_stopped [of space_width s] space_width_append [of "TrimSpace s" "rev p"] by auto
qed

lemma TrimSpace_back: "TrimSpace s = [] \<or> space_width_rev (rev (TrimSpace s)) = 0"
  using trim_by_stopped [of space_width_rev "rev (trim_by space_width s)"]
  by (auto simp: TrimSpace_def)

lemma TrimSpace_id:
  "space_width s = 0 \<Longrightarrow> space_width_rev (rev s) = 0 \<Longrightarrow> TrimSpace s = s"
  by (simp add: TrimSpace_def trim_by_stop)

lemma TrimSpace_Nil [simp]: "TrimSpace [] = []"
  by (simp add: TrimSpace_id)

lemma TrimSpace_idem [simp]: "TrimSpace (TrimSpace s) = TrimSpace s"
  using TrimSpace_front [of s] TrimSpace_back [of s] by (auto intro: TrimSpace_id)

section \<open>Case folding\<close>

text \<open>
  \<open>strings.ToLower\<close>, observed only through comparison with lower-case ASCII literals: the
  two runes outside ASCII whose lower case is an ASCII letter are U+0130 and U+212A. Every
  other byte above 127 belongs to a rune that stays outside ASCII and is left as it is.
  \<open>strings.EqualFold\<close> against an ASCII literal folds U+017F to \<open>s\<close> and U+212A to \<open>k\<close>.
\<close>

definition ascii_lower :: "char \<Rightarrow> char" where
  "ascii_lower c = (let n = (of_char c :: nat) in if 65 \<le> n \<and> n \<le> 90 then char_of (n + 32) else c)"

fun ToLower :: "string \<Rightarrow> string" where
  "ToLower (a # b # c # s) =
     (if a = CHR 0xC4 \<and> b = CHR 0xB0 then CHR ''i'' # ToLower (c # s)
      else if a = CHR 0xE2 \<and> b = CHR 0x84 \<and> c = CHR 0xAA then CHR ''k'' # ToLower s
      else ascii_lower a # ToLower (b # c # s))"
| "ToLower [a, b] = (if a = CHR 0xC4 \<and> b = CHR 0xB0 then ''i'' else [ascii_lower a, ascii_lower b])"
| "ToLower [a] = [ascii_lower a]"
| "ToLower [] = []"

fun fold_ascii :: "string \<Rightarrow> string" where
  "fold_ascii (a # b # c # s) =
     (if a = CHR 0xC5 \<and> b = CHR 0xBF then CHR ''s'' # fold_ascii (c # s)
      else if a = CHR 0xE2 \<and> b = CHR 0x84 \<and> c = CHR 0xAA then CHR ''k'' # fold_ascii s
      else ascii_lower a # fold_ascii (b # c # s))"
| "fold_ascii [a, b] = (if a = CHR 0xC5 \<and> b = CHR 0xBF then ''s'' else [ascii_lower a, ascii_lower b])"
| "fold_ascii [a] = [ascii_lower a]"
| "fold_ascii [] = []"

definition EqualFold :: "string \<Rightarrow> string \<Rightarrow> bool" where
  "EqualFold s t \<longleftrightarrow> fold_ascii s = fold_ascii t"

section \<open>Splitting\<close>

fun Split :: "string \<Rightarrow> char \<Rightarrow> string list" where
  "Split [] sep = [[]]"
| "Split (c # s) sep =
     (if c = sep then [] # Split s sep
      else (case Split s sep of [] \<Rightarrow> [[c]] | p # ps \<Rightarrow> (c # p) # ps))"

lemma Split_nonempty [simp]: "Split s sep \<noteq> []"
  by (cases s) (auto split: list.splits)

lemma Split_no_sep: "sep \<notin> set s \<Longrightarrow> Split s sep = [s]"
  by (induction s) auto

section \<open>Numbers\<close>

definition digit_char :: "nat \<Rightarrow> char" where
  "digit_char d = (if d < 10 then char_of (48 + d) else char_of (87 + d))"

definition char_digit :: "char \<Rightarrow> nat" where
  "char_digit c = (let n = of_char c in if n \<le> 57 then n - 48 else n - 87)"

fun nat_digits :: "nat \<Rightarrow> nat \<Rightarrow> string" where
  "nat_digits b n =
     (if b < 2 \<or> n < b then [digit_char n] else nat_digits b (n div b) @ [digit_char (n mod b)])"

declare nat_digits.simps [simp del]

definition digits_value :: "nat \<Rightarrow> string \<Rightarrow> nat" where
  "digits_value b s = foldl (\<lambda>v c. b * v + char_digit c) 0 s"

definition is_digit :: "char \<Rightarrow> bool" where
  "is_digit c \<longleftrightarrow> (let n = (of_char c :: nat) in 48 \<le> n \<and> n \<le> 57)"

definition Itoa :: "int \<Rightarrow> string" where
  "Itoa i = (if i < 0 then CHR ''-'' # nat_digits 10 (nat (- i)) else nat_digits 10 (nat i))"

definition FormatUint36 :: "uint64 \<Rightarrow> string" where
  "FormatUint36 w = nat_digits 36 (unat w)"

definition Atoi_digits :: "string \<Rightarrow> nat option" where
  "Atoi_digits s = (if s = [] \<or> \<not> list_all is_digit s then None else Some (digits_value 10 s))"

definition Atoi :: "string \<Rightarrow> int option" where
  "Atoi s =
     (let neg = (s \<noteq> [] \<and> hd s = CHR ''-'');
          body = (if s \<noteq> [] \<and> (hd s = CHR ''-'' \<or> hd s = CHR ''+'') then tl s else s)
      in case Atoi_digits body of
           None \<Rightarrow> None
         | Some n \<Rightarrow>
             (let v = (if neg then - int n else int n) in if fits_int v then Some v else None))"

text \<open>For the evaluation of closed decimals.\<close>

lemmas digits_eval = nat_digits.simps digit_char_def char_of_def bit_0

lemma of_char_char_of_nat: "n < 256 \<Longrightarrow> (of_char (char_of n :: char) :: nat) = n"
  by (simp add: of_char_of)

lemma char_digit_digit_char [simp]: "d < 36 \<Longrightarrow> char_digit (digit_char d) = d"
  by (simp add: char_digit_def digit_char_def of_char_char_of_nat)

lemma is_digit_digit_char [simp]: "d < 10 \<Longrightarrow> is_digit (digit_char d)"
  by (simp add: is_digit_def digit_char_def of_char_char_of_nat)

lemma nat_digits_nonempty [simp]: "nat_digits b n \<noteq> []"
  by (simp add: nat_digits.simps [of b n])

lemma digits_value_nat_digits:
  assumes "2 \<le> b" and "b \<le> 36"
  shows "digits_value b (nat_digits b n) = n"
  using assms
proof (induction b n rule: nat_digits.induct)
  case (1 b n)
  then show ?case
    by (cases "n < b") (auto simp: nat_digits.simps [of b n] digits_value_def
        mod_less_divisor [THEN less_le_trans])
qed

lemma nat_digits_inject:
  "2 \<le> b \<Longrightarrow> b \<le> 36 \<Longrightarrow> nat_digits b m = nat_digits b n \<longleftrightarrow> m = n"
  by (metis digits_value_nat_digits)

lemma nat_digits_10_digits: "list_all is_digit (nat_digits 10 n)"
proof (induction "10 :: nat" n rule: nat_digits.induct)
  case (1 n)
  then show ?case by (cases "n < 10") (auto simp: nat_digits.simps [of 10 n])
qed

lemma Atoi_digits_nat_digits [simp]: "Atoi_digits (nat_digits 10 n) = Some n"
  by (simp add: Atoi_digits_def nat_digits_10_digits digits_value_nat_digits)

lemma is_digit_sign [simp]: "\<not> is_digit CHR ''-''" "\<not> is_digit CHR ''+''"
  by (simp_all add: is_digit_def)

lemma hd_nat_digits [simp]: "is_digit (hd (nat_digits 10 n))"
  using nat_digits_10_digits [of n] nat_digits_nonempty [of 10 n]
  by (cases "nat_digits 10 n") auto

lemma hd_nat_digits_sign [simp]:
  "hd (nat_digits 10 n) \<noteq> CHR ''-''" "hd (nat_digits 10 n) \<noteq> CHR ''+''"
  using hd_nat_digits [of n] by (metis is_digit_sign)+

lemma Atoi_Itoa: "Atoi (Itoa i) = (if fits_int i then Some i else None)"
  by (simp add: Atoi_def Itoa_def Let_def)

lemma Itoa_inject: "Itoa i = Itoa j \<longleftrightarrow> i = j"
proof
  assume *: "Itoa i = Itoa j"
  then have "hd (Itoa i) = hd (Itoa j)" by simp
  then have "(i < 0) = (j < 0)" by (auto simp: Itoa_def split: if_splits dest: sym)
  with * show "i = j" by (auto simp: Itoa_def nat_digits_inject split: if_splits)
qed simp

lemma FormatUint36_inject: "FormatUint36 v = FormatUint36 w \<longleftrightarrow> v = w"
  by (simp add: FormatUint36_def nat_digits_inject word_unat_eq_iff)

lemma FormatUint36_nonempty [simp]: "FormatUint36 w \<noteq> []"
  by (simp add: FormatUint36_def)

lemma digit_not_space: "is_digit c \<Longrightarrow> \<not> ascii_space c"
  by (auto simp: is_digit_def ascii_space_def)

lemma digit_not_wide:
  "is_digit c \<Longrightarrow> \<not> space2 a c \<and> \<not> space3 a b c"
  by (auto simp: is_digit_def space2_def space3_def)

lemma space_width_rev_digit: "is_digit c \<Longrightarrow> space_width_rev (c # s) = 0"
  by (cases "c # s" rule: space_width_rev.cases) (auto simp: digit_not_space digit_not_wide)

lemma last_nat_digits: "is_digit (last (nat_digits 10 n))"
  using nat_digits_10_digits [of n] by (simp add: list_all_iff)

lemma last_Itoa: "is_digit (last (Itoa i))"
  by (simp add: Itoa_def last_nat_digits)

lemma Itoa_nonempty [simp]: "Itoa i \<noteq> []"
  by (simp add: Itoa_def)

lemma space_width_rev_Itoa: "space_width_rev (rev (s @ Itoa i)) = 0"
proof -
  obtain t c where t: "Itoa i = t @ [c]" by (cases "Itoa i" rule: rev_cases) auto
  then have "is_digit c" using last_Itoa [of i] by simp
  with t show ?thesis by (simp add: space_width_rev_digit)
qed

end
