(* ===== verification/Netip.thy ===== *)
theory Netip
  imports GoStrings
begin

text \<open>
  Addresses of Go's package \<open>net/netip\<close>: the zero \<open>Addr\<close>, IPv4 addresses, and IPv6
  addresses with a zone. \<open>addr_String\<close> is \<open>Addr.String\<close>, the key under which the limiter
  files a source address: dotted decimal, lower-case hexadecimal groups with the first
  longest run of at least two zero groups elided, and the \<open>::ffff:\<close> form of mapped IPv4.
\<close>

datatype netip_addr = InvalidAddr | AddrV4 "32 word" | AddrV6 "128 word" string

fun addr_IsValid :: "netip_addr \<Rightarrow> bool" where
  "addr_IsValid InvalidAddr = False"
| "addr_IsValid (AddrV4 _) = True"
| "addr_IsValid (AddrV6 _ _) = True"

definition v4_byte :: "32 word \<Rightarrow> nat \<Rightarrow> nat" where
  "v4_byte w i = unat (take_bit 8 (drop_bit (24 - 8 * i) w))"

definition v4_string :: "32 word \<Rightarrow> string" where
  "v4_string w =
     nat_digits 10 (v4_byte w 0) @ ''.'' @ nat_digits 10 (v4_byte w 1) @ ''.'' @
     nat_digits 10 (v4_byte w 2) @ ''.'' @ nat_digits 10 (v4_byte w 3)"

definition v6u16 :: "128 word \<Rightarrow> nat \<Rightarrow> nat" where
  "v6u16 w i = unat (take_bit 16 (drop_bit (112 - 16 * i) w))"

definition zero_run_end :: "128 word \<Rightarrow> nat \<Rightarrow> nat" where
  "zero_run_end w i = i + length (takeWhile (\<lambda>j. v6u16 w j = 0) [i..<8])"

definition longest_zero_run :: "128 word \<Rightarrow> nat \<times> nat" where
  "longest_zero_run w =
     foldl (\<lambda>(zs, ze) i.
         let j = zero_run_end w i
         in if 2 \<le> j - i \<and> ze - zs < j - i then (i, j) else (zs, ze))
       (255, 255) [0..<8]"

text \<open>The printing loop of \<open>appendTo6\<close>. A run that starts at \<open>zs\<close> ends after it.\<close>

function v6_emit :: "128 word \<Rightarrow> nat \<Rightarrow> nat \<Rightarrow> nat \<Rightarrow> string" where
  "v6_emit w zs ze i =
     (if 8 \<le> i then []
      else if i = zs \<and> i < ze
        then ''::'' @ (if 8 \<le> ze then [] else nat_digits 16 (v6u16 w ze) @ v6_emit w zs ze (Suc ze))
      else (if 0 < i then '':'' else []) @ nat_digits 16 (v6u16 w i) @ v6_emit w zs ze (Suc i))"
  by pat_completeness auto
termination
  by (relation "measure (\<lambda>(w, zs, ze, i). 8 - i)") auto

declare v6_emit.simps [simp del]

definition v6_string :: "128 word \<Rightarrow> string" where
  "v6_string w = (case longest_zero_run w of (zs, ze) \<Rightarrow> v6_emit w zs ze 0)"

definition addr_Is4In6 :: "128 word \<Rightarrow> bool" where
  "addr_Is4In6 w \<longleftrightarrow> drop_bit 32 w = 65535"

fun addr_String :: "netip_addr \<Rightarrow> string" where
  "addr_String InvalidAddr = ''invalid IP''"
| "addr_String (AddrV4 w) = v4_string w"
| "addr_String (AddrV6 w zone) =
     (if addr_Is4In6 w then ''::ffff:'' @ v4_string (ucast w) else v6_string w) @
     (if zone = [] then [] else ''%'' @ zone)"

lemma v6_emit_nonempty: "i < 8 \<Longrightarrow> v6_emit w zs ze i \<noteq> []"
  by (subst v6_emit.simps) auto

lemma addr_String_nonempty [simp]: "addr_String a \<noteq> []"
  by (cases a) (auto simp: v4_string_def v6_string_def v6_emit_nonempty split: prod.splits)

lemma addr_String_examples:
  "addr_String (AddrV4 0x01010101) = ''1.1.1.1''"
  "addr_String (AddrV6 0x20010db8000000000000000000000001 []) = ''2001:db8::1''"
  by (simp_all add: v4_string_def v4_byte_def v6_string_def longest_zero_run_def
      zero_run_end_def upt_rec v6u16_def v6_emit.simps addr_Is4In6_def digits_eval)

end
