(* ===== verification/Types.thy ===== *)
theory Types
  imports Netip
begin

text \<open>
  The data that the components exchange: users, traffic records and the alive list of
  \<open>panel/client.go\<close>; the metadata of a connection and the limiter's decision of
  \<open>singbox/tracker.go\<close>; and the interface \<open>ConnectionLimiter\<close> of the same file, as a
  record of the three methods and a locale with the laws its caller relies on.

  Identifiers and limits are Go \<open>int\<close>s on which the program does no arithmetic: they are
  mathematical integers here. Byte counters, which are added up, keep their 64 bits.
\<close>

section \<open>Panel data\<close>

record panel_user =
  uID :: int
  uUUID :: string
  uSpeedLimit :: int
  uDeviceLimit :: int

record traffic_data =
  UID :: int
  Upload :: int64
  Download :: int64

record user_traffic =
  UserID :: int
  utUpload :: int64
  utDownload :: int64

text \<open>
  Both directions of traffic are treated alike; \<open>dir\<close> selects one of them. \<open>reported\<close> and
  \<open>billed\<close> are the bytes that a list of records states for a user.
\<close>

datatype dir = Up | Down

primrec td_amount :: "dir \<Rightarrow> traffic_data \<Rightarrow> int64" where
  "td_amount Up t = Upload t"
| "td_amount Down t = Download t"

primrec ut_amount :: "dir \<Rightarrow> user_traffic \<Rightarrow> int64" where
  "ut_amount Up t = utUpload t"
| "ut_amount Down t = utDownload t"

definition reported :: "dir \<Rightarrow> int \<Rightarrow> user_traffic list \<Rightarrow> int64" where
  "reported d uid ts = sum_list (map (ut_amount d) (filter (\<lambda>t. UserID t = uid) ts))"

definition billed :: "dir \<Rightarrow> int \<Rightarrow> traffic_data list \<Rightarrow> int64" where
  "billed d uid ts = sum_list (map (td_amount d) (filter (\<lambda>t. UID t = uid) ts))"

lemma reported_simps [simp]:
  "reported d uid [] = 0"
  "reported d uid (t # ts) = (if UserID t = uid then ut_amount d t else 0) + reported d uid ts"
  "reported d uid (ts @ us) = reported d uid ts + reported d uid us"
  by (simp_all add: reported_def)

lemma billed_simps [simp]:
  "billed d uid [] = 0"
  "billed d uid (t # ts) = (if UID t = uid then td_amount d t else 0) + billed d uid ts"
  "billed d uid (ts @ us) = billed d uid ts + billed d uid us"
  by (simp_all add: billed_def)

text \<open>\<open>type AliveList map[int][]string\<close>\<close>

type_synonym alive_list = "(int, string list) gomap"

section \<open>Connections\<close>

text \<open>
  A token bucket of the package \<open>juju/ratelimit\<close> is known to the program only as a
  pointer: it is the identity that \<open>UserSpeedBucket\<close> hands out, with the rate and the
  capacity it was created with.
\<close>

record bucket =
  bucketRef :: nat
  bucketRate :: int
  bucketCapacity :: int

record conn_meta =
  ConnID :: string
  connUser :: string
  SourceIP :: netip_addr
  StartedAt :: gotime

record limit_decision =
  Allow :: bool
  Reason :: string

definition time_IsZero :: "gotime \<Rightarrow> bool" where
  "time_IsZero t \<longleftrightarrow> t = 0"

text \<open>The keys under which a connection is filed.\<close>

definition user_key :: "conn_meta \<Rightarrow> string option" where
  "user_key m = (if TrimSpace (connUser m) = [] then None else Some (TrimSpace (connUser m)))"

definition ip_key :: "conn_meta \<Rightarrow> string option" where
  "ip_key m = (if addr_IsValid (SourceIP m) then Some (addr_String (SourceIP m)) else None)"

lemma user_key_Some [simp]: "user_key m = Some u \<longleftrightarrow> u \<noteq> [] \<and> TrimSpace (connUser m) = u"
  by (auto simp: user_key_def)

lemma ip_key_Some [simp]:
  "ip_key m = Some k \<longleftrightarrow> addr_IsValid (SourceIP m) \<and> addr_String (SourceIP m) = k"
  by (auto simp: ip_key_def)

section \<open>The interface ConnectionLimiter\<close>

record 'l limiter_iface =
  if_Check :: "'l \<Rightarrow> conn_meta \<Rightarrow> gotime \<Rightarrow> limit_decision \<times> 'l"
  if_Register :: "'l \<Rightarrow> conn_meta \<Rightarrow> 'l"
  if_Unregister :: "'l \<Rightarrow> conn_meta \<Rightarrow> 'l"

text \<open>
  The contract is stated over the list of live connections that a limiter state stands for:
  a check leaves it alone and only lets named users in, registering a fresh connection adds
  it, unregistering a live one removes it.
\<close>

definition fresh_conn :: "conn_meta list \<Rightarrow> conn_meta \<Rightarrow> bool" where
  "fresh_conn live m \<longleftrightarrow> user_key m \<noteq> None \<and> ConnID m \<notin> ConnID ` set live"

definition drop_conn :: "conn_meta \<Rightarrow> conn_meta list \<Rightarrow> conn_meta list" where
  "drop_conn m live = filter (\<lambda>x. ConnID x \<noteq> ConnID m) live"

locale connection_limiter =
  fixes L :: "'l limiter_iface"
    and rep :: "'l \<Rightarrow> conn_meta list \<Rightarrow> bool"
  assumes check_rep: "rep l live \<Longrightarrow> rep (snd (if_Check L l m now)) live"
    and check_named: "Allow (fst (if_Check L l m now)) \<Longrightarrow> user_key m \<noteq> None"
    and register_rep: "rep l live \<Longrightarrow> fresh_conn live m \<Longrightarrow> rep (if_Register L l m) (m # live)"
    and unregister_rep: "rep l live \<Longrightarrow> m \<in> set live \<Longrightarrow> rep (if_Unregister L l m) (drop_conn m live)"
    and rep_distinct: "rep l live \<Longrightarrow> distinct (map ConnID live)"
begin

lemma open_close_rep:
  assumes "rep l live" and "fresh_conn live m"
  shows "rep (if_Unregister L (if_Register L l m) m) live"
proof -
  have "rep (if_Unregister L (if_Register L l m) m) (drop_conn m (m # live))"
    using assms by (auto intro: unregister_rep register_rep)
  moreover have "drop_conn m (m # live) = live"
    using assms(2) by (auto simp: drop_conn_def fresh_conn_def filter_id_conv image_iff)
  ultimately show ?thesis by simp
qed

end

lemma mset_drop_conn:
  "distinct (map ConnID live) \<Longrightarrow> m \<in> set live \<Longrightarrow> mset (drop_conn m live) = mset live - {#m#}"
proof (induction live)
  case (Cons x live)
  show ?case
  proof (cases "x = m")
    case True
    then have "drop_conn m (x # live) = live"
      using Cons.prems by (auto simp: drop_conn_def filter_id_conv image_iff)
    then show ?thesis using True by simp
  next
    case False
    then have "m \<in> set live" using Cons.prems by simp
    moreover have "ConnID x \<noteq> ConnID m" using Cons.prems calculation by (auto simp: image_iff)
    ultimately show ?thesis using Cons by (auto simp: drop_conn_def)
  qed
qed simp

text \<open>
  A limiter that others use at the same time: \<open>env\<close> are the changes they make (a bucket is
  asked for, the users or the alive list are replaced, an alive report is built), none of
  which changes who is connected.
\<close>

locale shared_limiter = connection_limiter +
  fixes env :: "'a \<Rightarrow> 'a \<Rightarrow> bool"
  assumes env_rep: "env l l' \<Longrightarrow> rep l live \<Longrightarrow> rep l' live"

section \<open>The interface trafficCollector\<close>

text \<open>
  \<open>CollectTraffic\<close> hands over bytes: what the collector holds for a user before is what it
  holds afterwards plus what it reports. The result carries Go's error beside the list.
\<close>

locale traffic_collector =
  fixes collect :: "'c \<Rightarrow> (user_traffic list \<times> string option) \<times> 'c"
    and outstanding :: "'c \<Rightarrow> dir \<Rightarrow> int \<Rightarrow> int64"
  assumes collect_moves:
    "outstanding c d uid = outstanding (snd (collect c)) d uid + reported d uid (fst (fst (collect c)))"

end
