(* ===== verification/Stats.thy ===== *)
theory Stats
  imports Types
begin

text \<open>
  \<open>singbox/stats.go\<close>: traffic counters and the online count.

  The counters are read and written with atomic instructions and no lock, so the operations
  are built from the atomic ones: creating a record, adding to a counter, swapping it with
  zero. \<open>AddTraffic\<close> and \<open>CollectTraffic\<close> compose them as the code does; the conservation
  law is proved for every interleaving of the atomic operations as well. \<open>activeUsers\<close> is
  guarded by a mutex, so registering and unregistering are single steps.
\<close>

section \<open>State\<close>

record user_traffic_record =
  rUpload :: int64
  rDownload :: int64

record stats_tracker =
  userTraffic :: "(string, user_traffic_record) gomap"
  activeUsers :: "(string, string goset) gomap"

definition NewStatsTracker :: stats_tracker where
  "NewStatsTracker = \<lparr>userTraffic = [], activeUsers = []\<rparr>"

definition zero_record :: user_traffic_record where
  "zero_record = \<lparr>rUpload = 0, rDownload = 0\<rparr>"

primrec rec_amount :: "dir \<Rightarrow> user_traffic_record \<Rightarrow> int64" where
  "rec_amount Up r = rUpload r"
| "rec_amount Down r = rDownload r"

primrec rec_set :: "dir \<Rightarrow> int64 \<Rightarrow> user_traffic_record \<Rightarrow> user_traffic_record" where
  "rec_set Up n r = r\<lparr>rUpload := n\<rparr>"
| "rec_set Down n r = r\<lparr>rDownload := n\<rparr>"

section \<open>Names of users\<close>

datatype user_id_error = BadFormat string | BadNumber string | NotPositive int

definition parseUserID :: "string \<Rightarrow> user_id_error + int" where
  "parseUserID name =
     (if take 5 name \<noteq> ''user-'' then Inl (BadFormat name)
      else case Atoi (drop 5 name) of
             None \<Rightarrow> Inl (BadNumber name)
           | Some i \<Rightarrow> if i \<le> 0 then Inl (NotPositive i) else Inr i)"

section \<open>Atomic operations on the counters\<close>

text \<open>\<open>Load\<close> or \<open>LoadOrStore\<close> with a fresh record.\<close>

definition load_or_store :: "string \<Rightarrow> stats_tracker \<Rightarrow> stats_tracker" where
  "load_or_store name s =
     (case map_of (userTraffic s) name of
        Some r \<Rightarrow> s
      | None \<Rightarrow> s\<lparr>userTraffic := AList.update name zero_record (userTraffic s)\<rparr>)"

text \<open>\<open>atomic.AddInt64\<close> and \<open>atomic.SwapInt64\<close> on a counter of an existing record.\<close>

definition atomic_add :: "dir \<Rightarrow> string \<Rightarrow> int64 \<Rightarrow> stats_tracker \<Rightarrow> stats_tracker" where
  "atomic_add d name n s =
     (case map_of (userTraffic s) name of
        None \<Rightarrow> s
      | Some r \<Rightarrow> s\<lparr>userTraffic := AList.update name (rec_set d (rec_amount d r + n) r) (userTraffic s)\<rparr>)"

definition atomic_swap :: "dir \<Rightarrow> string \<Rightarrow> stats_tracker \<Rightarrow> int64 \<times> stats_tracker" where
  "atomic_swap d name s =
     (case map_of (userTraffic s) name of
        None \<Rightarrow> (0, s)
      | Some r \<Rightarrow> (rec_amount d r, s\<lparr>userTraffic := AList.update name (rec_set d 0 r) (userTraffic s)\<rparr>))"

section \<open>The operations\<close>

definition AddTraffic :: "string \<Rightarrow> int64 \<Rightarrow> int64 \<Rightarrow> stats_tracker \<Rightarrow> stats_tracker" where
  "AddTraffic userName upload download s =
     (if userName = [] then s
      else let s = load_or_store userName s;
               s = (if 0 < sint upload then atomic_add Up userName upload s else s)
           in if 0 < sint download then atomic_add Down userName download s else s)"

definition RegisterConn :: "string \<Rightarrow> string \<Rightarrow> stats_tracker \<Rightarrow> stats_tracker" where
  "RegisterConn userName connID s =
     (if userName = [] \<or> connID = [] then s
      else let conns = gget [] (activeUsers s) userName
           in s\<lparr>activeUsers := AList.update userName (List.insert connID conns) (activeUsers s)\<rparr>)"

definition UnregisterConn :: "string \<Rightarrow> string \<Rightarrow> stats_tracker \<Rightarrow> stats_tracker" where
  "UnregisterConn userName connID s =
     (if userName = [] \<or> connID = [] then s
      else case map_of (activeUsers s) userName of
             None \<Rightarrow> s
           | Some conns \<Rightarrow>
               let conns' = removeAll connID conns
               in if conns' = [] then s\<lparr>activeUsers := AList.delete userName (activeUsers s)\<rparr>
                  else s\<lparr>activeUsers := AList.update userName conns' (activeUsers s)\<rparr>)"

text \<open>One call of the function that \<open>CollectTraffic\<close> passes to \<open>Range\<close>.\<close>

definition collect_key :: "user_traffic list \<times> stats_tracker \<Rightarrow> string \<Rightarrow> user_traffic list \<times> stats_tracker" where
  "collect_key acc name =
     (case acc of (result, s) \<Rightarrow>
        case parseUserID name of
          Inl _ \<Rightarrow> (result, s)
        | Inr userID \<Rightarrow>
            (case atomic_swap Up name s of (upload, s) \<Rightarrow>
             case atomic_swap Down name s of (download, s) \<Rightarrow>
               if upload = 0 \<and> download = 0 then (result, s)
               else (result @ [\<lparr>UserID = userID, utUpload = upload, utDownload = download\<rparr>], s)))"

definition CollectTraffic :: "stats_tracker \<Rightarrow> (user_traffic list \<times> string option) \<times> stats_tracker" where
  "CollectTraffic s =
     (case foldl collect_key ([], s) (map fst (userTraffic s)) of
        (result, s') \<Rightarrow> ((result, None), s'))"

definition GetOnlineCount :: "stats_tracker \<Rightarrow> int" where
  "GetOnlineCount s = int (length (activeUsers s))"


section \<open>Conservation of bytes\<close>

lemma rec_amount_set [simp]:
  "rec_amount d (rec_set d' n r) = (if d' = d then n else rec_amount d r)"
  by (cases d; cases d') simp_all

lemma rec_amount_zero [simp]: "rec_amount d zero_record = 0"
  by (cases d) (simp_all add: zero_record_def)

text \<open>What the tracker holds for a user: the sum over all names that parse to the id.\<close>

definition entry_amount :: "dir \<Rightarrow> int \<Rightarrow> string \<times> user_traffic_record \<Rightarrow> int64" where
  "entry_amount d uid e = (if parseUserID (fst e) = Inr uid then rec_amount d (snd e) else 0)"

definition stats_outstanding :: "stats_tracker \<Rightarrow> dir \<Rightarrow> int \<Rightarrow> int64" where
  "stats_outstanding s d uid = sum_list (map (entry_amount d uid) (userTraffic s))"

lemma entry_amount_simps [simp]:
  "entry_amount d uid (name, rec_set d' n r) =
     (if d' = d then if parseUserID name = Inr uid then n else 0 else entry_amount d uid (name, r))"
  "entry_amount d uid (name, zero_record) = 0"
  by (simp_all add: entry_amount_def)

lemma load_or_store_outstanding [simp]:
  "stats_outstanding (load_or_store name s) d uid = stats_outstanding s d uid"
  by (simp add: stats_outstanding_def load_or_store_def sum_entries_update_new split: option.split)

lemma load_or_store_present [simp]: "map_of (userTraffic (load_or_store name s)) name \<noteq> None"
  by (simp add: load_or_store_def split: option.split)

lemma atomic_add_outstanding:
  assumes "map_of (userTraffic s) name \<noteq> None"
  shows "stats_outstanding (atomic_add d' name n s) d uid =
     stats_outstanding s d uid + (if d' = d \<and> parseUserID name = Inr uid then n else 0)"
  using assms
  by (auto simp: stats_outstanding_def atomic_add_def sum_entries_update entry_amount_def split: option.splits)

lemma atomic_add_present [simp]:
  "map_of (userTraffic (atomic_add d name n s)) k = None \<longleftrightarrow> map_of (userTraffic s) k = None"
  by (auto simp: atomic_add_def split: option.splits)

lemma atomic_swap_outstanding:
  assumes "atomic_swap d' name s = (n, s')"
  shows "stats_outstanding s d uid =
     stats_outstanding s' d uid + (if d' = d \<and> parseUserID name = Inr uid then n else 0)"
  using assms
  by (auto simp: stats_outstanding_def atomic_swap_def sum_entries_update entry_amount_def split: option.splits)

lemma AddTraffic_outstanding:
  "stats_outstanding (AddTraffic name up down s) d uid =
     stats_outstanding s d uid +
     (if parseUserID name = Inr uid \<and> 0 < sint (case d of Up \<Rightarrow> up | Down \<Rightarrow> down)
      then (case d of Up \<Rightarrow> up | Down \<Rightarrow> down) else 0)"
proof (cases "name = []")
  case True
  then have "parseUserID name \<noteq> Inr uid" by (simp add: parseUserID_def)
  then show ?thesis using True by (simp add: AddTraffic_def)
next
  case False
  have "map_of (userTraffic (load_or_store name s)) name \<noteq> None" by (rule load_or_store_present)
  then show ?thesis using False
    by (cases d) (auto simp: AddTraffic_def Let_def atomic_add_outstanding)
qed

lemma collect_key_outstanding:
  assumes "collect_key (res, s) name = (res', s')"
  shows "stats_outstanding s d uid + reported d uid res = stats_outstanding s' d uid + reported d uid res'"
proof (cases "parseUserID name")
  case (Inr i)
  obtain u s1 where up: "atomic_swap Up name s = (u, s1)" by (rule prod.exhaust)
  obtain v s2 where down: "atomic_swap Down name s1 = (v, s2)" by (rule prod.exhaust)
  show ?thesis
    using assms Inr up down atomic_swap_outstanding [OF up, of d uid] atomic_swap_outstanding [OF down, of d uid]
    by (cases d) (auto simp: collect_key_def split: if_splits)
qed (use assms in \<open>simp add: collect_key_def\<close>)

lemma collect_keys_outstanding:
  "stats_outstanding s d uid + reported d uid res =
     stats_outstanding (snd (foldl collect_key (res, s) ks)) d uid
       + reported d uid (fst (foldl collect_key (res, s) ks))"
proof (induction ks arbitrary: res s)
  case (Cons k ks)
  obtain res' s' where "collect_key (res, s) k = (res', s')" by (rule prod.exhaust)
  then show ?case using collect_key_outstanding Cons.IH [of s' res'] by simp
qed simp

interpretation stats: traffic_collector CollectTraffic stats_outstanding
proof
  fix c d uid
  show "stats_outstanding c d uid =
      stats_outstanding (snd (CollectTraffic c)) d uid + reported d uid (fst (fst (CollectTraffic c)))"
    using collect_keys_outstanding [of c d uid "[]" "map fst (userTraffic c)"]
    by (simp add: CollectTraffic_def split: prod.split)
qed

text \<open>A swap leaves nothing in the counter, and no other counter changes.\<close>

definition held :: "stats_tracker \<Rightarrow> dir \<Rightarrow> string \<Rightarrow> int64" where
  "held s d name = rec_amount d (gget zero_record (userTraffic s) name)"

lemma held_atomic:
  "atomic_swap d' n s = (v, s') \<Longrightarrow> v = held s d' n \<and> held s' d k = (if d' = d \<and> n = k then 0 else held s d k)"
  "map_of (userTraffic s) n \<noteq> None \<Longrightarrow>
     held (atomic_add d' n w s) d k = held s d k + (if d' = d \<and> n = k then w else 0)"
  "held (load_or_store n s) d k = held s d k"
  by (auto simp: held_def atomic_swap_def atomic_add_def load_or_store_def gget_Some gget_None
      split: option.splits)

lemma held_AddTraffic:
  "held (AddTraffic name up down s) d k = held s d k +
     (if k = name \<and> name \<noteq> [] \<and> 0 < sint (case d of Up \<Rightarrow> up | Down \<Rightarrow> down)
      then (case d of Up \<Rightarrow> up | Down \<Rightarrow> down) else 0)"
  by (cases d) (auto simp: AddTraffic_def Let_def held_atomic)

lemma held_activeUsers [simp]: "held (s\<lparr>activeUsers := x\<rparr>) d k = held s d k"
  by (simp add: held_def)

lemma held_conns [simp]:
  "held (RegisterConn u c s) d k = held s d k" "held (UnregisterConn u c s) d k = held s d k"
  by (auto simp: RegisterConn_def UnregisterConn_def Let_def split: option.split)

lemma atomic_swap_keys:
  "atomic_swap d name s = (v, s') \<Longrightarrow> map fst (userTraffic s') = map fst (userTraffic s)"
  by (force simp: atomic_swap_def update_keys dest: map_of_SomeD split: option.splits)

lemma collect_key_held:
  assumes "collect_key (res, s) name = (res', s')"
  shows "held s' d k = (if k = name \<and> (\<exists>i. parseUserID name = Inr i) then 0 else held s d k)"
    and "map fst (userTraffic s') = map fst (userTraffic s)"
proof -
  obtain u s1 where up: "atomic_swap Up name s = (u, s1)" by (rule prod.exhaust)
  obtain v s2 where down: "atomic_swap Down name s1 = (v, s2)" by (rule prod.exhaust)
  note held_atomic(1) [OF up] held_atomic(1) [OF down] atomic_swap_keys [OF up] atomic_swap_keys [OF down]
  then show "held s' d k = (if k = name \<and> (\<exists>i. parseUserID name = Inr i) then 0 else held s d k)"
    and "map fst (userTraffic s') = map fst (userTraffic s)"
    using assms up down
    by (cases d; auto simp: collect_key_def split: sum.splits if_splits)+
qed

lemma collect_keys_held:
  "held (snd (foldl collect_key (res, s) ks)) d k =
     (if k \<in> set ks \<and> (\<exists>i. parseUserID k = Inr i) then 0 else held s d k)
   \<and> map fst (userTraffic (snd (foldl collect_key (res, s) ks))) = map fst (userTraffic s)"
proof (induction ks arbitrary: res s)
  case (Cons x ks)
  obtain res' s' where x: "collect_key (res, s) x = (res', s')" by (rule prod.exhaust)
  note head = collect_key_held(1) [OF x, where d = d and k = k] collect_key_held(2) [OF x]
  note tail = Cons.IH [where res = res' and s = s']
  from head tail show ?case by (auto simp: x)
qed simp

lemma stats_outstanding_held:
  assumes "gomap_ok (userTraffic s)" and "\<And>k. parseUserID k = Inr uid \<Longrightarrow> held s d k = 0"
  shows "stats_outstanding s d uid = 0"
proof -
  have "entry_amount d uid e = 0" if "e \<in> set (userTraffic s)" for e
  proof (cases "parseUserID (fst e) = Inr uid")
    case True
    have "map_of (userTraffic s) (fst e) = Some (snd e)"
      using that assms(1) by (simp add: gomap_ok_def)
    then show ?thesis using assms(2) [OF True] True by (simp add: entry_amount_def held_def gget_Some)
  qed (simp add: entry_amount_def)
  then have "map (entry_amount d uid) (userTraffic s) = map (\<lambda>_. 0) (userTraffic s)" by simp
  then show ?thesis by (simp only: stats_outstanding_def) simp
qed


lemma CollectTraffic_held:
  assumes "gomap_ok (userTraffic s)"
  shows "parseUserID k = Inr i \<Longrightarrow> held (snd (CollectTraffic s)) d k = 0"
    and "gomap_ok (userTraffic (snd (CollectTraffic s)))"
proof -
  obtain res s' where fold: "foldl collect_key ([], s) (map fst (userTraffic s)) = (res, s')"
    by (rule prod.exhaust)
  have keys: "map fst (userTraffic s') = map fst (userTraffic s)"
    using collect_keys_held [of "[]" s "map fst (userTraffic s)"] fold by simp
  then show "gomap_ok (userTraffic (snd (CollectTraffic s)))"
    using assms by (simp add: CollectTraffic_def fold gomap_ok_def)
  show "held (snd (CollectTraffic s)) d k = 0" if "parseUserID k = Inr i"
  proof (cases "k \<in> set (map fst (userTraffic s))")
    case True
    then show ?thesis
      using collect_keys_held [of "[]" s "map fst (userTraffic s)" d k] fold that by (simp add: CollectTraffic_def)
  next
    case False
    then have "map_of (userTraffic s') k = None" using keys by (simp add: map_of_eq_None_iff flip: set_map)
    then show ?thesis by (simp add: CollectTraffic_def fold held_def gget_None)
  qed
qed

lemma parseUserID_limiterUserName:
  "parseUserID (''user-'' @ Itoa i) =
     (if fits_int i then if i \<le> 0 then Inl (NotPositive i) else Inr i else Inl (BadNumber (''user-'' @ Itoa i)))"
  by (simp add: parseUserID_def Atoi_Itoa)

text \<open>The operations on the counters, each as one step.\<close>

datatype stats_event = Traffic string int64 int64 | Collect

fun stats_step :: "stats_tracker \<Rightarrow> stats_event \<Rightarrow> stats_tracker" where
  "stats_step s (Traffic name up down) = AddTraffic name up down s"
| "stats_step s Collect = snd (CollectTraffic s)"

text \<open>The bytes that a list of events adds for a user after the last collection.\<close>

fun added_since :: "dir \<Rightarrow> int \<Rightarrow> stats_event list \<Rightarrow> int64 \<Rightarrow> int64" where
  "added_since d uid [] n = n"
| "added_since d uid (Collect # es) n = added_since d uid es 0"
| "added_since d uid (Traffic name up down # es) n =
     added_since d uid es
       (let b = (case d of Up \<Rightarrow> up | Down \<Rightarrow> down)
        in if parseUserID name = Inr uid \<and> 0 < sint b then n + b else n)"

lemma AddTraffic_ok: "gomap_ok (userTraffic s) \<Longrightarrow> gomap_ok (userTraffic (AddTraffic name up down s))"
  by (auto simp: AddTraffic_def load_or_store_def atomic_add_def Let_def split: option.splits)

lemma CollectTraffic_empties:
  assumes "gomap_ok (userTraffic s)"
  shows "stats_outstanding (snd (CollectTraffic s)) d uid = 0"
  using CollectTraffic_held [OF assms] by (intro stats_outstanding_held)

lemma stats_run_outstanding:
  "gomap_ok (userTraffic s) \<Longrightarrow>
   gomap_ok (userTraffic (foldl stats_step s es)) \<and>
   stats_outstanding (foldl stats_step s es) d uid = added_since d uid es (stats_outstanding s d uid)"
proof (induction es arbitrary: s)
  case (Cons e es)
  then show ?case
  proof (cases e)
    case (Traffic name up down)
    then show ?thesis using Cons by (simp add: AddTraffic_ok AddTraffic_outstanding Let_def)
  next
    case Collect
    then show ?thesis using Cons by (simp add: CollectTraffic_held CollectTraffic_empties)
  qed
qed simp

lemma collect_key_empty:
  assumes "\<And>d i. parseUserID k = Inr i \<Longrightarrow> held s d k = 0"
  shows "fst (collect_key (res, s) k) = res"
proof (cases "parseUserID k")
  case (Inr i)
  obtain u s1 where up: "atomic_swap Up k s = (u, s1)" by (rule prod.exhaust)
  obtain v s2 where down: "atomic_swap Down k s1 = (v, s2)" by (rule prod.exhaust)
  show ?thesis
    using assms [OF Inr] held_atomic(1) [OF up, of Down k] held_atomic(1) [OF up, of Up k]
      held_atomic(1) [OF down, of Up k] Inr up down
    by (simp add: collect_key_def)
qed (simp add: collect_key_def)

lemma collect_keys_empty:
  assumes "\<And>k d i. parseUserID k = Inr i \<Longrightarrow> held s d k = 0"
  shows "fst (foldl collect_key (res, s) ks) = res"
  using assms
proof (induction ks arbitrary: res s)
  case (Cons k ks)
  obtain res' s' where k: "collect_key (res, s) k = (res', s')" by (rule prod.exhaust)
  have "res' = res" using collect_key_empty [of k s res] Cons.prems k by simp
  moreover have "held s' d j = 0" if "parseUserID j = Inr i" for d j i
    using collect_key_held(1) [OF k, of d j] Cons.prems [OF that] by simp
  ultimately show ?case using Cons.IH [of s' res'] k by simp
qed simp

text \<open>
  C10: Collecting hands over everything once. After any sequence of \<open>AddTraffic\<close> calls and
  collections, a collection reports for each user id and direction exactly the positive
  amounts added since the collection before under the names of that id, and repeating it at
  once reports nothing.
\<close>

theorem collect_reports_once:
  assumes "s = foldl stats_step NewStatsTracker es"
  shows "reported d uid (fst (fst (CollectTraffic s))) = added_since d uid es 0
    \<and> fst (CollectTraffic (snd (CollectTraffic s))) = ([], None)"
proof -
  have ok: "gomap_ok (userTraffic s)" and out: "stats_outstanding s d uid = added_since d uid es 0"
    using stats_run_outstanding [of NewStatsTracker es d uid] assms
    by (simp_all add: NewStatsTracker_def stats_outstanding_def)
  let ?s' = "snd (CollectTraffic s)"
  have "fst (foldl collect_key ([], ?s') (map fst (userTraffic ?s'))) = []"
    using CollectTraffic_held(1) [OF ok] by (rule collect_keys_empty)
  then have "fst (CollectTraffic ?s') = ([], None)"
    by (auto simp: CollectTraffic_def [of ?s'] split: prod.splits)
  moreover have "reported d uid (fst (fst (CollectTraffic s))) = stats_outstanding s d uid"
    using stats.collect_moves [of s d uid] CollectTraffic_empties [OF ok] by simp
  ultimately show ?thesis by (simp add: out)
qed

theorem collect_reports_once_witness:
  "reported Up 7 (fst (fst (CollectTraffic (foldl stats_step NewStatsTracker
     [Traffic ''user-7'' 5 1, Collect, Traffic ''user-7'' 3 0, Traffic ''user-07'' 4 0, Traffic ''guest'' 9 0])))) = 7"
proof -
  have "added_since Up 7 [Traffic ''user-7'' 5 1, Collect, Traffic ''user-7'' 3 0,
      Traffic ''user-07'' 4 0, Traffic ''guest'' 9 0] 0 = 7"
    by code_simp
  then show ?thesis using collect_reports_once [OF refl, of Up 7] by metis
qed

section \<open>Any interleaving of the atomic operations\<close>

datatype stats_op = OpStore string | OpAdd dir string int64 | OpSwap dir string

text \<open>The state with a ledger of what was added to and swapped out of each counter.\<close>

record stats_ledger =
  lgStats :: stats_tracker
  lgAdded :: "dir \<Rightarrow> string \<Rightarrow> int64"
  lgTaken :: "dir \<Rightarrow> string \<Rightarrow> int64"

fun ledger_step :: "stats_ledger \<Rightarrow> stats_op \<Rightarrow> stats_ledger" where
  "ledger_step g (OpStore name) = g\<lparr>lgStats := load_or_store name (lgStats g)\<rparr>"
| "ledger_step g (OpAdd d name n) =
     g\<lparr>lgStats := atomic_add d name n (lgStats g),
       lgAdded := (lgAdded g)(d := (lgAdded g d)(name := lgAdded g d name + n))\<rparr>"
| "ledger_step g (OpSwap d name) =
     (case atomic_swap d name (lgStats g) of (n, s) \<Rightarrow>
        g\<lparr>lgStats := s, lgTaken := (lgTaken g)(d := (lgTaken g d)(name := lgTaken g d name + n))\<rparr>)"

text \<open>A counter is only added to once its record exists.\<close>

fun ledger_ok :: "stats_ledger \<Rightarrow> stats_op \<Rightarrow> bool" where
  "ledger_ok g (OpAdd d name n) = (map_of (userTraffic (lgStats g)) name \<noteq> None)"
| "ledger_ok g _ = True"

definition ledger_balances :: "stats_ledger \<Rightarrow> bool" where
  "ledger_balances g \<longleftrightarrow> (\<forall>d name. lgAdded g d name = lgTaken g d name + held (lgStats g) d name)"

definition new_ledger :: stats_ledger where
  "new_ledger = \<lparr>lgStats = NewStatsTracker, lgAdded = (\<lambda>_ _. 0), lgTaken = (\<lambda>_ _. 0)\<rparr>"

interpretation ledger: stepper ledger_step ledger_balances ledger_ok
proof
  fix g e
  assume bal: "ledger_balances g" and ok: "ledger_ok g e"
  show "ledger_balances (ledger_step g e)"
  proof (cases e)
    case (OpSwap d name)
    obtain n s where "atomic_swap d name (lgStats g) = (n, s)" by (rule prod.exhaust)
    then show ?thesis using bal OpSwap held_atomic(1) [of d name "lgStats g" n s]
      by (auto simp: ledger_balances_def)
  qed (use bal ok in \<open>auto simp: ledger_balances_def held_atomic\<close>)
qed

text \<open>The operations as programs of atomic ones.\<close>

definition add_program :: "string \<Rightarrow> int64 \<Rightarrow> int64 \<Rightarrow> stats_op list" where
  "add_program name up down =
     (if name = [] then []
      else OpStore name # (if 0 < sint up then [OpAdd Up name up] else [])
        @ (if 0 < sint down then [OpAdd Down name down] else []))"

lemma AddTraffic_program:
  "lgStats (foldl ledger_step g (add_program name up down)) = AddTraffic name up down (lgStats g)"
  by (simp add: add_program_def AddTraffic_def Let_def)

definition collect_program :: "string list \<Rightarrow> stats_op list" where
  "collect_program ks = concat (map (\<lambda>k. case parseUserID k of Inl _ \<Rightarrow> [] | Inr _ \<Rightarrow> [OpSwap Up k, OpSwap Down k]) ks)"

lemma collect_keys_program:
  "lgStats (foldl ledger_step g (collect_program ks)) = snd (foldl collect_key (res, lgStats g) ks)"
proof (induction ks arbitrary: g res)
  case (Cons k ks)
  show ?case
  proof (cases "parseUserID k")
    case (Inl a)
    then show ?thesis using Cons.IH [of g res] by (simp add: collect_program_def collect_key_def)
  next
    case (Inr i)
    let ?g = "ledger_step (ledger_step g (OpSwap Up k)) (OpSwap Down k)"
    obtain u s1 where up: "atomic_swap Up k (lgStats g) = (u, s1)" by (rule prod.exhaust)
    obtain v s2 where down: "atomic_swap Down k s1 = (v, s2)" by (rule prod.exhaust)
    have "lgStats ?g = s2" by (simp add: up down)
    then have "snd (collect_key (res, lgStats g) k) = lgStats ?g"
      by (simp add: collect_key_def Inr up down)
    then obtain res' where "collect_key (res, lgStats g) k = (res', lgStats ?g)" by (metis prod.collapse)
    then show ?thesis using Cons.IH [of ?g res'] Inr by (simp add: collect_program_def)
  qed
qed (simp add: collect_program_def)

text \<open>
  C17: No byte is lost or counted twice, however additions and collections interleave.
  \<open>AddTraffic\<close> and \<open>CollectTraffic\<close> run as the given programs of atomic operations; in any
  mix of such operations by any number of goroutines, what was added to a counter is what
  collections took from it plus what it holds.
\<close>

theorem traffic_ledger_balances:
  assumes "admissible ledger_step ledger_ok new_ledger ops"
    and "g = foldl ledger_step new_ledger ops"
  shows "lgAdded g d name = lgTaken g d name + held (lgStats g) d name
    \<and> lgStats (foldl ledger_step g (add_program u up down)) = AddTraffic u up down (lgStats g)
    \<and> lgStats (foldl ledger_step g (collect_program (map fst (userTraffic (lgStats g))))) = snd (CollectTraffic (lgStats g))"
proof -
  have "ledger_balances new_ledger"
    by (simp add: ledger_balances_def new_ledger_def held_def NewStatsTracker_def)
  then have "ledger_balances g" unfolding assms(2) using assms(1) by (rule ledger.run_keeps)
  then show ?thesis
    using collect_keys_program [of g _ "[]"]
    by (simp add: ledger_balances_def AddTraffic_program CollectTraffic_def split: prod.split)
qed

theorem traffic_ledger_balances_witness:
  "lgTaken (foldl ledger_step new_ledger
     [OpStore ''user-7'', OpAdd Up ''user-7'' 5, OpSwap Up ''user-7'', OpAdd Up ''user-7'' 3]) Up ''user-7'' = 5"
proof -
  let ?ops = "[OpStore ''user-7'', OpAdd Up ''user-7'' 5, OpSwap Up ''user-7'', OpAdd Up ''user-7'' 3]"
  have "admissible ledger_step ledger_ok new_ledger ?ops" by code_simp
  moreover have "lgAdded (foldl ledger_step new_ledger ?ops) Up ''user-7'' = 8" by code_simp
  moreover have "held (lgStats (foldl ledger_step new_ledger ?ops)) Up ''user-7'' = 3" by code_simp
  ultimately have "8 = lgTaken (foldl ledger_step new_ledger ?ops) Up ''user-7'' + 3"
    using traffic_ledger_balances [OF _ refl, of ?ops Up "''user-7''"] by simp
  then have "lgTaken (foldl ledger_step new_ledger ?ops) Up ''user-7'' = 8 - 3" by (simp only: eq_diff_eq)
  then show ?thesis by simp
qed

section \<open>The online count\<close>

text \<open>The open connections as a set of pairs of user and connection id.\<close>

datatype online_event = Opened string string | Closed string string

fun online_step :: "stats_tracker \<times> (string \<times> string) set \<Rightarrow> online_event \<Rightarrow> stats_tracker \<times> (string \<times> string) set" where
  "online_step (s, ps) (Opened u c) = (RegisterConn u c s, if u = [] \<or> c = [] then ps else insert (u, c) ps)"
| "online_step (s, ps) (Closed u c) = (UnregisterConn u c s, ps - {(u, c)})"

definition online_rep :: "stats_tracker \<times> (string \<times> string) set \<Rightarrow> bool" where
  "online_rep sp \<longleftrightarrow>
     gomap_ok (activeUsers (fst sp))
     \<and> (\<forall>u. map_of (activeUsers (fst sp)) u \<noteq> Some [])
     \<and> (\<forall>u c. c \<in> set (gget [] (activeUsers (fst sp)) u) \<longleftrightarrow> (u, c) \<in> snd sp)
     \<and> (\<forall>p \<in> snd sp. fst p \<noteq> [] \<and> snd p \<noteq> [])"

lemma insert_nonempty [simp]: "List.insert x xs \<noteq> []"
  by (auto simp: List.insert_def)

lemma online_rep_open: "online_rep (s, ps) \<Longrightarrow> online_rep (online_step (s, ps) (Opened u c))"
  by (auto simp: online_rep_def RegisterConn_def Let_def)

lemma online_rep_close:
  assumes "online_rep (s, ps)"
  shows "online_rep (online_step (s, ps) (Closed u c))"
proof (cases "u = [] \<or> c = [] \<or> map_of (activeUsers s) u = None")
  case True
  then have "(u, c) \<notin> ps"
    using assms unfolding online_rep_def fst_conv snd_conv
    by (metis empty_iff fst_conv gget_None list.set(1) snd_conv)
  moreover have "UnregisterConn u c s = s" using True by (auto simp: UnregisterConn_def)
  ultimately show ?thesis using assms by simp
next
  case False
  then obtain conns where conns: "map_of (activeUsers s) u = Some conns" "u \<noteq> []" "c \<noteq> []" by auto
  then have "gget [] (activeUsers s) u = conns" by (simp add: gget_Some)
  then have mem: "x \<in> set conns \<longleftrightarrow> (u, x) \<in> ps" for x using assms by (auto simp: online_rep_def)
  show ?thesis
  proof (cases "removeAll c conns = []")
    case True
    then have "\<forall>x. (u, x) \<in> ps \<longrightarrow> x = c" using mem by (auto simp: removeAll_filter_not_eq filter_empty_conv)
    then show ?thesis using assms conns True by (auto simp: online_rep_def UnregisterConn_def Let_def)
  next
    case False
    then show ?thesis using assms conns mem by (auto simp: online_rep_def UnregisterConn_def Let_def)
  qed
qed

interpretation online: stepper online_step online_rep "\<lambda>_ _. True"
proof
  fix sp e
  assume "online_rep sp"
  then show "online_rep (online_step sp e)"
    by (cases sp; cases e) (simp_all only: online_rep_open online_rep_close)
qed

lemma admissible_True [simp]: "admissible step (\<lambda>_ _. True) s es"
  by (induction es arbitrary: s) simp_all

text \<open>
  The online count is the number of users with an open connection. After any sequence
  of connections opened and closed (also twice, or never opened), \<open>GetOnlineCount\<close> is the
  number of distinct users among the connections that are open.
\<close>

theorem online_count_users:
  "GetOnlineCount (fst (foldl online_step (NewStatsTracker, {}) es)) =
     int (card (fst ` snd (foldl online_step (NewStatsTracker, {}) es)))"
proof -
  obtain s ps where run: "foldl online_step (NewStatsTracker, {}) es = (s, ps)" by (rule prod.exhaust)
  have "online_rep (NewStatsTracker, {})" by (simp add: online_rep_def NewStatsTracker_def)
  then have rep: "online_rep (s, ps)" using online.run_keeps [OF _ admissible_True] run by metis
  have "u \<in> fst ` set (activeUsers s) \<longleftrightarrow> u \<in> fst ` ps" for u
  proof
    assume "u \<in> fst ` set (activeUsers s)"
    then obtain conns where "map_of (activeUsers s) u = Some conns" by (metis map_of_in_keys not_None_eq)
    then have "gget [] (activeUsers s) u \<noteq> []" using rep by (auto simp: online_rep_def gget_Some)
    then obtain c where "c \<in> set (gget [] (activeUsers s) u)" by (cases "gget [] (activeUsers s) u") auto
    then have "(u, c) \<in> ps" using rep by (auto simp: online_rep_def)
    then show "u \<in> fst ` ps" by force
  next
    assume "u \<in> fst ` ps"
    then obtain c where "c \<in> set (gget [] (activeUsers s) u)" using rep by (auto simp: online_rep_def)
    then show "u \<in> fst ` set (activeUsers s)" by (metis empty_iff gget_None list.set(1) map_of_in_keys)
  qed
  then have "fst ` set (activeUsers s) = fst ` ps" by auto
  moreover have "length (activeUsers s) = card (fst ` set (activeUsers s))"
    using rep by (metis distinct_card fst_conv gomap_ok_def length_map list.set_map online_rep_def)
  ultimately show ?thesis by (simp add: GetOnlineCount_def run)
qed

end
