(* ===== verification/Tracker.thy ===== *)
theory Tracker
  imports Stats
begin

text \<open>
  \<open>singbox/tracker.go\<close>: the connection tracker that the router calls for every connection.

  The tracker is modelled over an arbitrary \<open>ConnectionLimiter\<close> (the record
  \<open>limiter_iface\<close>) and an arbitrary source of token buckets. First the functions of the
  file as they run when nothing interferes; then the atomic steps they consist of, as a step
  relation over any number of connections, goroutines and collections, with its reachable
  states; then the invariants of that relation: the limiter represents exactly the
  connections between registration and removal, and no byte is lost between the sockets
  and the statistics. The wrapped connection is known by what its \<open>Read\<close> and \<open>Write\<close>
  return, which are arguments.
\<close>

section \<open>State\<close>

text \<open>
  What the tracker works on: the limiter, the statistics (absent when the pointer is nil) and
  its own sequence number. \<open>inbound_context\<close> holds the part of sing-box's metadata that is
  read: the user and the source address with the answer of \<open>Source.IsValid()\<close>.
\<close>

record 'l tracker =
  tLimiter :: 'l
  tStats :: "stats_tracker option"
  connSequence :: uint64

record inbound_context =
  ctxUser :: string
  ctxSourceValid :: bool
  ctxSourceAddr :: netip_addr

type_synonym 'l rate_provider = "(string \<Rightarrow> 'l \<Rightarrow> bucket option \<times> 'l) option"

record tracked_conn =
  meta :: conn_meta
  speedBucket :: "bucket option"
  closeDone :: bool
  uploadBuf :: int64
  downloadBuf :: int64

definition newLimiterTracker :: "'l \<Rightarrow> stats_tracker option \<Rightarrow> 'l tracker" where
  "newLimiterTracker l s = \<lparr>tLimiter = l, tStats = s, connSequence = 0\<rparr>"

definition trafficBufferThreshold :: int where
  "trafficBufferThreshold = 1024 * 1024"

section \<open>Opening\<close>

definition buildConnMeta :: "inbound_context \<Rightarrow> gotime \<Rightarrow> 'l tracker \<Rightarrow> conn_meta \<times> 'l tracker" where
  "buildConnMeta ctx now t =
     (let seq = connSequence t + 1
      in (\<lparr>ConnID = FormatUint36 seq,
           connUser = ctxUser ctx,
           SourceIP = (if ctxSourceValid ctx \<and> addr_IsValid (ctxSourceAddr ctx)
                       then ctxSourceAddr ctx else InvalidAddr),
           StartedAt = now\<rparr>,
          t\<lparr>connSequence := seq\<rparr>))"

definition on_stats :: "(stats_tracker \<Rightarrow> stats_tracker) \<Rightarrow> 'l tracker \<Rightarrow> 'l tracker" where
  "on_stats f t = t\<lparr>tStats := map_option f (tStats t)\<rparr>"

definition wrapSpeedLimit :: "'l rate_provider \<Rightarrow> string \<Rightarrow> 'l tracker \<Rightarrow> bucket option \<times> 'l tracker" where
  "wrapSpeedLimit rates userName t =
     (case rates of
        None \<Rightarrow> (None, t)
      | Some ask \<Rightarrow> (case ask userName (tLimiter t) of (bucket, l) \<Rightarrow> (bucket, t\<lparr>tLimiter := l\<rparr>)))"

text \<open>The outcome: \<open>None\<close> when the connection is closed at once and returned unwrapped.\<close>

definition RoutedConnection ::
  "'l limiter_iface \<Rightarrow> 'l rate_provider \<Rightarrow> inbound_context \<Rightarrow> gotime \<Rightarrow> 'l tracker
     \<Rightarrow> tracked_conn option \<times> 'l tracker" where
  "RoutedConnection L rates ctx now t =
     (case buildConnMeta ctx now t of (m, t) \<Rightarrow>
      case if_Check L (tLimiter t) m (StartedAt m) of (decision, l) \<Rightarrow>
        if \<not> Allow decision then (None, t\<lparr>tLimiter := l\<rparr>)
        else let t = t\<lparr>tLimiter := if_Register L l m\<rparr>;
                 t = on_stats (RegisterConn (connUser m) (ConnID m)) t
             in case wrapSpeedLimit rates (connUser m) t of (bucket, t) \<Rightarrow>
                  (Some \<lparr>meta = m, speedBucket = bucket, closeDone = False,
                         uploadBuf = 0, downloadBuf = 0\<rparr>, t))"

definition RoutedPacketConnection ::
  "'l limiter_iface \<Rightarrow> inbound_context \<Rightarrow> gotime \<Rightarrow> 'l tracker \<Rightarrow> tracked_conn option \<times> 'l tracker" where
  "RoutedPacketConnection L ctx now t =
     (case buildConnMeta ctx now t of (m, t) \<Rightarrow>
      case if_Check L (tLimiter t) m (StartedAt m) of (decision, l) \<Rightarrow>
        if \<not> Allow decision then (None, t\<lparr>tLimiter := l\<rparr>)
        else let t = t\<lparr>tLimiter := if_Register L l m\<rparr>;
                 t = on_stats (RegisterConn (connUser m) (ConnID m)) t
             in (Some \<lparr>meta = m, speedBucket = None, closeDone = False,
                       uploadBuf = 0, downloadBuf = 0\<rparr>, t))"

section \<open>Counting\<close>

primrec buf :: "dir \<Rightarrow> tracked_conn \<Rightarrow> int64" where
  "buf Up c = uploadBuf c"
| "buf Down c = downloadBuf c"

primrec set_buf :: "dir \<Rightarrow> int64 \<Rightarrow> tracked_conn \<Rightarrow> tracked_conn" where
  "set_buf Up n c = c\<lparr>uploadBuf := n\<rparr>"
| "set_buf Down n c = c\<lparr>downloadBuf := n\<rparr>"

primrec add_traffic :: "dir \<Rightarrow> string \<Rightarrow> int64 \<Rightarrow> stats_tracker \<Rightarrow> stats_tracker" where
  "add_traffic Up user n s = AddTraffic user n 0 s"
| "add_traffic Down user n s = AddTraffic user 0 n s"

text \<open>Swap a buffer with zero and hand what was in it to the statistics.\<close>

definition flush_buf :: "dir \<Rightarrow> tracked_conn \<Rightarrow> stats_tracker \<Rightarrow> tracked_conn \<times> stats_tracker" where
  "flush_buf d c s =
     (set_buf d 0 c,
      if 0 < sint (buf d c) then add_traffic d (connUser (meta c)) (buf d c) s else s)"

definition count_bytes :: "dir \<Rightarrow> int64 \<Rightarrow> tracked_conn \<Rightarrow> stats_tracker \<Rightarrow> tracked_conn \<times> stats_tracker" where
  "count_bytes d n c s =
     (let val = buf d c + n; c = set_buf d val c
      in if trafficBufferThreshold \<le> sint val then flush_buf d c s else (c, s))"

definition count_if ::
  "bool \<Rightarrow> dir \<Rightarrow> int64 \<Rightarrow> tracked_conn \<Rightarrow> 'l tracker \<Rightarrow> tracked_conn \<times> 'l tracker" where
  "count_if cond d n c t =
     (case tStats t of
        None \<Rightarrow> (c, t)
      | Some s \<Rightarrow>
          if cond then (case count_bytes d n c s of (c, s) \<Rightarrow> (c, t\<lparr>tStats := Some s\<rparr>)) else (c, t))"

text \<open>
  The methods of the two wrappers; \<open>n\<close> is the count that the wrapped \<open>Read\<close> or \<open>Write\<close>
  returns, \<open>ok\<close> whether the wrapped packet call returned no error and \<open>len\<close> the length of
  the packet.
\<close>

definition conn_Read :: "int \<Rightarrow> tracked_conn \<Rightarrow> 'l tracker \<Rightarrow> tracked_conn \<times> 'l tracker" where
  "conn_Read n c t = count_if (n > 0) Up (word_of_int n) c t"

definition conn_Write :: "int \<Rightarrow> tracked_conn \<Rightarrow> 'l tracker \<Rightarrow> tracked_conn \<times> 'l tracker" where
  "conn_Write n c t = count_if (n > 0) Down (word_of_int n) c t"

definition conn_ReadPacket :: "bool \<Rightarrow> int \<Rightarrow> tracked_conn \<Rightarrow> 'l tracker \<Rightarrow> tracked_conn \<times> 'l tracker" where
  "conn_ReadPacket ok len c t = count_if ok Up (word_of_int len) c t"

definition conn_WritePacket :: "bool \<Rightarrow> int \<Rightarrow> tracked_conn \<Rightarrow> 'l tracker \<Rightarrow> tracked_conn \<times> 'l tracker" where
  "conn_WritePacket ok len c t = count_if ok Down (word_of_int len) c t"

section \<open>Closing\<close>

definition flush_both :: "tracked_conn \<Rightarrow> stats_tracker \<Rightarrow> tracked_conn \<times> stats_tracker" where
  "flush_both c s =
     (let up = uploadBuf c; down = downloadBuf c
      in (set_buf Down 0 (set_buf Up 0 c),
          if 0 < sint up \<or> 0 < sint down then AddTraffic (connUser (meta c)) up down s else s))"

definition conn_Close :: "'l limiter_iface \<Rightarrow> tracked_conn \<Rightarrow> 'l tracker \<Rightarrow> tracked_conn \<times> 'l tracker" where
  "conn_Close L c t =
     (if closeDone c then (c, t)
      else let c = c\<lparr>closeDone := True\<rparr>;
               t = t\<lparr>tLimiter := if_Unregister L (tLimiter t) (meta c)\<rparr>
           in case tStats t of
                None \<Rightarrow> (c, t)
              | Some s \<Rightarrow>
                  (case flush_both c (UnregisterConn (connUser (meta c)) (ConnID (meta c)) s) of
                     (c, s) \<Rightarrow> (c, t\<lparr>tStats := Some s\<rparr>)))"


section \<open>The steps, interleaved\<close>

text \<open>
  What a connection's goroutine has done so far: it has a number, it was allowed, it is in
  the limiter, it is in the statistics and running, it was taken out of the limiter, out of
  the statistics, its buffers were flushed by \<open>Close\<close>. \<open>due\<close> counts the goroutines that saw
  a buffer reach the threshold and are about to flush it.
\<close>

datatype phase = Numbered | Refused | Admitted | Registered | Open | Unlisted | Uncounted | Closed

record conn_state =
  csConn :: tracked_conn
  csPhase :: phase
  csDue :: "dir \<Rightarrow> nat"

text \<open>
  What the goroutines of one tracker share. The last two fields are a ledger: the bytes
  that the sockets have carried and those that collections have taken, per user name.
\<close>

record 'l world =
  wLimiter :: 'l
  wStats :: stats_tracker
  wSeq :: uint64
  wConns :: "conn_state list"
  wSeen :: "dir \<Rightarrow> string \<Rightarrow> int64"
  wTaken :: "dir \<Rightarrow> string \<Rightarrow> int64"

definition csMeta :: "conn_state \<Rightarrow> conn_meta" where
  "csMeta c = meta (csConn c)"

definition ledger_add :: "dir \<Rightarrow> string \<Rightarrow> int64 \<Rightarrow> (dir \<Rightarrow> string \<Rightarrow> int64) \<Rightarrow> dir \<Rightarrow> string \<Rightarrow> int64" where
  "ledger_add d u n g = g(d := (g d)(u := g d u + n))"

definition new_conn :: "conn_meta \<Rightarrow> conn_state" where
  "new_conn m = \<lparr>csConn = \<lparr>meta = m, speedBucket = None, closeDone = False, uploadBuf = 0, downloadBuf = 0\<rparr>,
     csPhase = Numbered, csDue = (\<lambda>_. 0)\<rparr>"

definition world_meta :: "inbound_context \<Rightarrow> gotime \<Rightarrow> 'l world \<Rightarrow> conn_meta" where
  "world_meta ctx now w = fst (buildConnMeta ctx now \<lparr>tLimiter = wLimiter w, tStats = Some (wStats w), connSequence = wSeq w\<rparr>)"

text \<open>
  The atomic steps; \<open>env\<close> are the steps that others take on the limiter. The sequence number does not wrap (a process would need \<open>2 ^ 64\<close>
  connections), and a buffer stays below \<open>2 ^ 63\<close> bytes between two flushes.
\<close>

inductive world_step ::
  "'l limiter_iface \<Rightarrow> ('l \<Rightarrow> 'l \<Rightarrow> bool) \<Rightarrow> 'l world \<Rightarrow> 'l world \<Rightarrow> bool"
  for L env where
  step_number: "wSeq w + 1 \<noteq> 0 \<Longrightarrow>
     world_step L env w (w\<lparr>wSeq := wSeq w + 1, wConns := wConns w @ [new_conn (world_meta ctx now w)]\<rparr>)"
| step_check: "i < length (wConns w) \<Longrightarrow> c = wConns w ! i \<Longrightarrow> csPhase c = Numbered \<Longrightarrow>
     if_Check L (wLimiter w) (csMeta c) (StartedAt (csMeta c)) = (decision, l) \<Longrightarrow>
     world_step L env w (w\<lparr>wLimiter := l,
       wConns := (wConns w)[i := c\<lparr>csPhase := if Allow decision then Admitted else Refused\<rparr>]\<rparr>)"
| step_register: "i < length (wConns w) \<Longrightarrow> c = wConns w ! i \<Longrightarrow> csPhase c = Admitted \<Longrightarrow>
     world_step L env w (w\<lparr>wLimiter := if_Register L (wLimiter w) (csMeta c),
       wConns := (wConns w)[i := c\<lparr>csPhase := Registered\<rparr>]\<rparr>)"
| step_list: "i < length (wConns w) \<Longrightarrow> c = wConns w ! i \<Longrightarrow> csPhase c = Registered \<Longrightarrow>
     world_step L env w (w\<lparr>wStats := RegisterConn (connUser (csMeta c)) (ConnID (csMeta c)) (wStats w),
       wConns := (wConns w)[i := c\<lparr>csPhase := Open\<rparr>]\<rparr>)"
| step_env: "env (wLimiter w) l \<Longrightarrow> world_step L env w (w\<lparr>wLimiter := l\<rparr>)"
| step_bytes: "i < length (wConns w) \<Longrightarrow> c = wConns w ! i \<Longrightarrow> csPhase c \<in> {Open, Unlisted, Uncounted, Closed} \<Longrightarrow>
     val = buf d (csConn c) + word_of_int n \<Longrightarrow> 0 \<le> n \<Longrightarrow> sint (buf d (csConn c)) + n \<le> maxInt64 \<Longrightarrow>
     world_step L env w (w\<lparr>wSeen := ledger_add d (connUser (csMeta c)) (word_of_int n) (wSeen w),
       wConns := (wConns w)[i := c\<lparr>csConn := set_buf d val (csConn c),
         csDue := (if trafficBufferThreshold \<le> sint val then (csDue c)(d := Suc (csDue c d)) else csDue c)\<rparr>]\<rparr>)"
| step_flush: "i < length (wConns w) \<Longrightarrow> c = wConns w ! i \<Longrightarrow> 0 < csDue c d \<Longrightarrow>
     flush_buf d (csConn c) (wStats w) = (k, s) \<Longrightarrow>
     world_step L env w (w\<lparr>wStats := s,
       wConns := (wConns w)[i := c\<lparr>csConn := k, csDue := (csDue c)(d := csDue c d - 1)\<rparr>]\<rparr>)"
| step_unlist: "i < length (wConns w) \<Longrightarrow> c = wConns w ! i \<Longrightarrow> csPhase c = Open \<Longrightarrow>
     world_step L env w (w\<lparr>wLimiter := if_Unregister L (wLimiter w) (csMeta c),
       wConns := (wConns w)[i := c\<lparr>csPhase := Unlisted, csConn := (csConn c)\<lparr>closeDone := True\<rparr>\<rparr>]\<rparr>)"
| step_uncount: "i < length (wConns w) \<Longrightarrow> c = wConns w ! i \<Longrightarrow> csPhase c = Unlisted \<Longrightarrow>
     world_step L env w (w\<lparr>wStats := UnregisterConn (connUser (csMeta c)) (ConnID (csMeta c)) (wStats w),
       wConns := (wConns w)[i := c\<lparr>csPhase := Uncounted\<rparr>]\<rparr>)"
| step_settle: "i < length (wConns w) \<Longrightarrow> c = wConns w ! i \<Longrightarrow> csPhase c = Uncounted \<Longrightarrow>
     flush_both (csConn c) (wStats w) = (k, s) \<Longrightarrow>
     world_step L env w (w\<lparr>wStats := s, wConns := (wConns w)[i := c\<lparr>csPhase := Closed, csConn := k\<rparr>]\<rparr>)"
| step_collect: "atomic_swap d name (wStats w) = (n, s) \<Longrightarrow>
     world_step L env w (w\<lparr>wStats := s, wTaken := ledger_add d name n (wTaken w)\<rparr>)"

definition start_world :: "'l \<Rightarrow> 'l world" where
  "start_world l = \<lparr>wLimiter = l, wStats = NewStatsTracker, wSeq = 0, wConns = [],
     wSeen = (\<lambda>_ _. 0), wTaken = (\<lambda>_ _. 0)\<rparr>"

definition world_reachable ::
  "'l limiter_iface \<Rightarrow> ('l \<Rightarrow> 'l \<Rightarrow> bool) \<Rightarrow> 'l \<Rightarrow> 'l world \<Rightarrow> bool" where
  "world_reachable L env l w \<longleftrightarrow> (world_step L env)\<^sup>*\<^sup>* (start_world l) w"


section \<open>Invariants\<close>

definition listed :: "conn_state \<Rightarrow> bool" where
  "listed c \<longleftrightarrow> csPhase c = Registered \<or> csPhase c = Open"

definition listed_metas :: "'l world \<Rightarrow> conn_meta multiset" where
  "listed_metas w = image_mset csMeta (filter_mset listed (mset (wConns w)))"

text \<open>Ids are the numbers given out so far, each once; whoever went on has a user name.\<close>

definition ids_ok :: "'l world \<Rightarrow> bool" where
  "ids_ok w \<longleftrightarrow> unat (wSeq w) = length (wConns w)
     \<and> (\<forall>i < length (wConns w). ConnID (csMeta (wConns w ! i)) = FormatUint36 (word_of_nat (Suc i)))"

definition names_ok :: "'l world \<Rightarrow> bool" where
  "names_ok w \<longleftrightarrow> (\<forall>c \<in> set (wConns w). csPhase c \<noteq> Numbered \<longrightarrow> csPhase c \<noteq> Refused \<longrightarrow> user_key (csMeta c) \<noteq> None)"

definition buffered :: "'l world \<Rightarrow> dir \<Rightarrow> string \<Rightarrow> int64" where
  "buffered w d u = sum_list (map (\<lambda>c. if connUser (csMeta c) = u then buf d (csConn c) else 0) (wConns w))"

definition early :: "phase \<Rightarrow> bool" where
  "early p \<longleftrightarrow> p \<in> {Numbered, Refused, Admitted, Registered}"

definition bufs_ok :: "conn_state \<Rightarrow> bool" where
  "bufs_ok c \<longleftrightarrow> 0 \<le> sint (uploadBuf (csConn c)) \<and> 0 \<le> sint (downloadBuf (csConn c))
     \<and> (early (csPhase c) \<longrightarrow> csDue c = (\<lambda>_. 0))"

definition bytes_ok :: "'l world \<Rightarrow> bool" where
  "bytes_ok w \<longleftrightarrow> (\<forall>c \<in> set (wConns w). bufs_ok c)
     \<and> (\<forall>d u. wSeen w d u = wTaken w d u + held (wStats w) d u + buffered w d u)"

lemma buf_set_buf [simp]: "buf d (set_buf d' n c) = (if d' = d then n else buf d c)"
  by (cases d; cases d') simp_all

lemma meta_set_buf [simp]: "meta (set_buf d n c) = meta c"
  by (cases d) simp_all

lemma buf_frame [simp]: "buf d (c\<lparr>closeDone := b\<rparr>) = buf d c"
  by (cases d) simp_all

lemma ledger_add_apply [simp]:
  "ledger_add d u n g d' u' = g d' u' + (if d' = d \<and> u' = u then n else 0)"
  by (simp add: ledger_add_def)

lemma held_add_traffic:
  "held (add_traffic d u n s) d' k = held s d' k + (if k = u \<and> u \<noteq> [] \<and> d' = d \<and> 0 < sint n then n else 0)"
  by (cases d; cases d') (simp_all add: held_AddTraffic)

lemma sint_nonneg_cases: "0 \<le> sint (n :: int64) \<Longrightarrow> 0 < sint n \<or> n = 0"
  by (metis less_le signed_eq_0_iff)

lemma flush_buf_held:
  assumes "flush_buf d c s = (k, s')" and "0 \<le> sint (buf d c)" and "connUser (meta c) \<noteq> []"
  shows "held s' d' u = held s d' u + (if d' = d \<and> u = connUser (meta c) then buf d c else 0)"
    and "k = set_buf d 0 c"
  using assms sint_nonneg_cases [OF assms(2)] by (auto simp: flush_buf_def held_add_traffic split: if_splits)

lemma flush_both_held:
  assumes "flush_both c s = (k, s')" and "0 \<le> sint (uploadBuf c)" "0 \<le> sint (downloadBuf c)"
    and "connUser (meta c) \<noteq> []"
  shows "held s' d u = held s d u + (if u = connUser (meta c) then buf d c else 0)"
    and "k = set_buf Down 0 (set_buf Up 0 c)"
  using assms sint_nonneg_cases [OF assms(2)] sint_nonneg_cases [OF assms(3)]
  by (cases d; auto simp: flush_both_def held_AddTraffic Let_def split: if_splits)+

lemma buffered_update:
  assumes "i < length (wConns w)"
  shows "buffered (w'\<lparr>wConns := (wConns w)[i := c']\<rparr>) d u = buffered w d u
     - (if connUser (csMeta (wConns w ! i)) = u then buf d (csConn (wConns w ! i)) else 0)
     + (if connUser (csMeta c') = u then buf d (csConn c') else 0)"
  using assms by (simp add: buffered_def sum_list_map_update)

lemma buffered_cong: "wConns w' = wConns w \<Longrightarrow> buffered w' d u = buffered w d u"
  by (simp add: buffered_def)

lemma user_key_nonempty: "user_key m \<noteq> None \<Longrightarrow> connUser m \<noteq> []"
  by (auto simp: user_key_def)

lemma csMeta_frame [simp]:
  "csMeta (c\<lparr>csPhase := p\<rparr>) = csMeta c" "csMeta (c\<lparr>csDue := f\<rparr>) = csMeta c"
  "csMeta (c\<lparr>csConn := k\<rparr>) = meta k"
  by (simp_all add: csMeta_def)

lemma word_of_nat_unat_id: "word_of_nat (unat (w :: uint64)) = w"
  by simp

lemma ids_ok_step:
  assumes "world_step L env w w'" and "ids_ok w"
  shows "ids_ok w'"
  using assms
proof (induction rule: world_step.induct)
  case (step_number w ctx now)
  have n: "unat (wSeq w + 1) = Suc (length (wConns w))"
    using step_number by (simp add: ids_ok_def unat_uint64_succ)
  moreover have "wSeq w + 1 = word_of_nat (Suc (length (wConns w)))"
    unfolding n [symmetric] by (simp only: word_of_nat_unat_id)
  ultimately show ?case
    using step_number.prems
    by (auto simp: ids_ok_def world_meta_def buildConnMeta_def Let_def new_conn_def csMeta_def nth_append less_Suc_eq
        add.commute)
next
  case step_flush
  then show ?case by (auto simp: ids_ok_def nth_list_update csMeta_def flush_buf_def split: if_splits)
next
  case step_settle
  then show ?case by (auto simp: ids_ok_def nth_list_update csMeta_def flush_both_def Let_def split: if_splits)
qed (auto simp: ids_ok_def nth_list_update csMeta_def)

lemma ids_distinct:
  assumes "ids_ok w" and "i < length (wConns w)" "j < length (wConns w)"
    and "ConnID (csMeta (wConns w ! i)) = ConnID (csMeta (wConns w ! j))"
  shows "i = j"
proof -
  have "FormatUint36 (word_of_nat (Suc i)) = FormatUint36 (word_of_nat (Suc j))"
    using assms by (simp add: ids_ok_def)
  then have "(word_of_nat (Suc i) :: uint64) = word_of_nat (Suc j)" by (simp only: FormatUint36_inject)
  moreover have "Suc i < 2 ^ 64" "Suc j < 2 ^ 64"
    using assms(1-3) unat_uint64_less [of "wSeq w"] by (auto simp: ids_ok_def)
  ultimately show ?thesis by (simp add: word_of_nat_eq_iff take_bit_nat_eq_self)
qed


lemma names_ok_update:
  assumes "names_ok w" and "i < length (wConns w)" and "csMeta c' = csMeta (wConns w ! i)"
    and "csPhase c' \<noteq> Numbered \<Longrightarrow> csPhase c' \<noteq> Refused \<Longrightarrow>
      csPhase (wConns w ! i) \<noteq> Numbered \<and> csPhase (wConns w ! i) \<noteq> Refused \<or> user_key (csMeta c') \<noteq> None"
  shows "names_ok (w'\<lparr>wConns := (wConns w)[i := c']\<rparr>)"
proof -
  have "\<forall>c \<in> set ((wConns w)[i := c']). csPhase c \<noteq> Numbered \<longrightarrow> csPhase c \<noteq> Refused \<longrightarrow> user_key (csMeta c) \<noteq> None"
  proof (rule ball_list_update)
    show "csPhase c' \<noteq> Numbered \<longrightarrow> csPhase c' \<noteq> Refused \<longrightarrow> user_key (csMeta c') \<noteq> None"
      using assms nth_mem [OF assms(2)] unfolding names_ok_def by metis
  qed (use assms(1) in \<open>simp only: names_ok_def\<close>)
  then show ?thesis by (simp only: names_ok_def world.select_convs world.update_convs world.surjective) simp
qed

lemma flush_meta:
  "flush_buf d c s = (k, s') \<Longrightarrow> meta k = meta c"
  "flush_both c s = (k, s') \<Longrightarrow> meta k = meta c"
  by (auto simp: flush_buf_def flush_both_def Let_def)

lemma bytes_ok_update:
  assumes ok: "bytes_ok w" and i: "i < length (wConns w)"
    and conns: "wConns w' = (wConns w)[i := c']"
    and c': "bufs_ok c'" and same: "csMeta c' = csMeta (wConns w ! i)"
    and ledger: "\<And>d u. wSeen w' d u - wSeen w d u = wTaken w' d u - wTaken w d u + (held (wStats w') d u - held (wStats w) d u)
      + (if connUser (csMeta c') = u then buf d (csConn c') - buf d (csConn (wConns w ! i)) else 0)"
  shows "bytes_ok w'"
proof -
  have all: "\<forall>c \<in> set (wConns w'). bufs_ok c"
    using ok c' unfolding conns bytes_ok_def by (intro ball_list_update) simp_all
  have bal: "wSeen w' d u = wTaken w' d u + held (wStats w') d u + buffered w' d u" for d u
  proof -
    have "buffered w' d u = buffered w d u
        + (if connUser (csMeta c') = u then buf d (csConn c') - buf d (csConn (wConns w ! i)) else 0)"
      using i same by (simp add: buffered_def conns sum_list_map_update)
    moreover have "wSeen w d u = wTaken w d u + held (wStats w) d u + buffered w d u"
      using ok by (simp add: bytes_ok_def)
    ultimately show ?thesis using ledger [of d u] by (simp add: algebra_simps)
  qed
  from all bal show ?thesis by (simp add: bytes_ok_def)
qed

lemma bytes_okD:
  assumes "bytes_ok w" and "i < length (wConns w)"
  shows "bufs_ok (wConns w ! i)"
  using assms by (simp add: bytes_ok_def)

lemma names_okD:
  assumes "names_ok w" and "i < length (wConns w)"
    and "csPhase (wConns w ! i) \<noteq> Numbered" "csPhase (wConns w ! i) \<noteq> Refused"
  shows "connUser (csMeta (wConns w ! i)) \<noteq> []"
  using assms nth_mem [OF assms(2)] user_key_nonempty unfolding names_ok_def by blast

lemma bufs_ok_buf: "bufs_ok c \<Longrightarrow> 0 \<le> sint (buf d (csConn c))"
  by (cases d) (simp_all add: bufs_ok_def)

lemma bufs_ok_set:
  "bufs_ok c \<Longrightarrow> 0 \<le> sint n \<Longrightarrow> early (csPhase c) \<Longrightarrow> f = (\<lambda>_. 0) \<Longrightarrow>
    bufs_ok (c\<lparr>csConn := set_buf d n (csConn c), csDue := f\<rparr>)"
  "bufs_ok c \<Longrightarrow> 0 \<le> sint n \<Longrightarrow> \<not> early (csPhase c) \<Longrightarrow>
    bufs_ok (c\<lparr>csConn := set_buf d n (csConn c), csDue := f\<rparr>)"
  by (cases d; simp add: bufs_ok_def)+

lemma bufs_ok_phase:
  "bufs_ok c \<Longrightarrow> (early p \<Longrightarrow> early (csPhase c)) \<Longrightarrow> bufs_ok (c\<lparr>csPhase := p\<rparr>)"
  by (auto simp: bufs_ok_def)

lemma bytes_ok_phase:
  assumes "bytes_ok w" and "i < length (wConns w)" and "c = wConns w ! i" and "early p \<Longrightarrow> early (csPhase c)"
    and "\<And>d u. held s d u = held (wStats w) d u"
  shows "bytes_ok (w\<lparr>wLimiter := l, wStats := s, wConns := (wConns w)[i := c\<lparr>csPhase := p\<rparr>]\<rparr>)"
  using assms bytes_okD [OF assms(1,2)]
  by (intro bytes_ok_update [OF assms(1,2), where c' = "c\<lparr>csPhase := p\<rparr>"] bufs_ok_phase) simp_all

lemma bytes_ok_bytes:
  assumes ok: "bytes_ok w" and i: "i < length (wConns w)" "c = wConns w ! i" and "\<not> early (csPhase c)"
    and n: "0 \<le> n" "sint (buf d (csConn c)) + n \<le> maxInt64"
  shows "bytes_ok (w\<lparr>wSeen := ledger_add d (connUser (csMeta c)) (word_of_int n) (wSeen w),
       wConns := (wConns w)[i := c\<lparr>csConn := set_buf d (buf d (csConn c) + word_of_int n) (csConn c), csDue := f\<rparr>]\<rparr>)"
proof -
  have c: "bufs_ok c" using bytes_okD [OF ok i(1)] i(2) by simp
  have "0 \<le> sint (buf d (csConn c) + word_of_int n)"
    using sint_add_nonneg [OF bufs_ok_buf [OF c, of d] n] bufs_ok_buf [OF c, of d] n(1) by simp
  from bufs_ok_set(2) [OF c this assms(4)]
  show ?thesis
    by (intro bytes_ok_update [OF ok i(1), where c' = "c\<lparr>csConn := set_buf d (buf d (csConn c) + word_of_int n) (csConn c), csDue := f\<rparr>"])
       (auto simp: csMeta_def i(2))
qed

lemma bytes_ok_flush:
  assumes ok: "bytes_ok w" and i: "i < length (wConns w)" "c = wConns w ! i" and "\<not> early (csPhase c)"
    and name: "connUser (csMeta c) \<noteq> []" and k: "flush_buf d (csConn c) (wStats w) = (k, s)"
  shows "bytes_ok (w\<lparr>wStats := s, wConns := (wConns w)[i := c\<lparr>csConn := k, csDue := f\<rparr>]\<rparr>)"
proof -
  have c: "bufs_ok c" using bytes_okD [OF ok i(1)] i(2) by simp
  note fl = flush_buf_held [OF k bufs_ok_buf [OF c] name [unfolded csMeta_def]]
  have "bufs_ok (c\<lparr>csConn := k, csDue := f\<rparr>)"
    unfolding fl(2) by (rule bufs_ok_set(2) [OF c _ assms(4)]) simp
  then show ?thesis
    by (intro bytes_ok_update [OF ok i(1), where c' = "c\<lparr>csConn := k, csDue := f\<rparr>"])
       (auto simp: csMeta_def i(2) fl)
qed

lemma bytes_ok_settle:
  assumes ok: "bytes_ok w" and i: "i < length (wConns w)" "c = wConns w ! i" and "csPhase c = Uncounted"
    and name: "connUser (csMeta c) \<noteq> []" and k: "flush_both (csConn c) (wStats w) = (k, s)"
  shows "bytes_ok (w\<lparr>wStats := s, wConns := (wConns w)[i := c\<lparr>csPhase := Closed, csConn := k\<rparr>]\<rparr>)"
proof -
  have c: "bufs_ok c" using bytes_okD [OF ok i(1)] i(2) by simp
  have "0 \<le> sint (uploadBuf (csConn c))" "0 \<le> sint (downloadBuf (csConn c))"
    using bufs_ok_buf [OF c, of Up] bufs_ok_buf [OF c, of Down] by simp_all
  note fl = flush_both_held [OF k this name [unfolded csMeta_def]]
  have bufs: "buf d k = 0" for d unfolding fl(2) by (cases d) simp_all
  have "meta k = meta (csConn c)" unfolding fl(2) by simp
  moreover have "bufs_ok (c\<lparr>csPhase := Closed, csConn := k\<rparr>)" by (simp add: bufs_ok_def early_def fl)
  ultimately show ?thesis
    by (intro bytes_ok_update [OF ok i(1), where c' = "c\<lparr>csPhase := Closed, csConn := k\<rparr>"])
       (auto simp: csMeta_def i(2) fl(1) bufs)
qed

lemma bytes_ok_number:
  assumes "bytes_ok w"
  shows "bytes_ok (w\<lparr>wSeq := n, wConns := wConns w @ [new_conn m]\<rparr>)"
proof -
  have "buf d (csConn (new_conn m)) = 0" for d by (cases d) (simp_all add: new_conn_def)
  moreover have "bufs_ok (new_conn m)" by (simp add: bufs_ok_def new_conn_def)
  ultimately show ?thesis using assms by (simp add: bytes_ok_def buffered_def)
qed

lemma bytes_ok_step:
  assumes "world_step L env w w'" and ok: "bytes_ok w" and names: "names_ok w"
  shows "bytes_ok w'"
  using assms(1)
proof cases
  case (step_number ctx now)
  then show ?thesis using bytes_ok_number [OF ok] by simp
next
  case (step_check i c decision l)
  then show ?thesis
    using bytes_ok_phase [OF ok step_check(2,3), of "if Allow decision then Admitted else Refused" "wStats w" l]
    by (simp add: early_def)
next
  case (step_register i c)
  then show ?thesis using bytes_ok_phase [OF ok step_register(2,3), of Registered "wStats w"]
    by (simp add: early_def)
next
  case (step_list i c)
  then show ?thesis
    using bytes_ok_phase [OF ok step_list(2,3), of Open "RegisterConn (connUser (csMeta c)) (ConnID (csMeta c)) (wStats w)" "wLimiter w"]
    by (simp add: early_def)
next
  case (step_env l)
  then show ?thesis using ok by (simp add: bytes_ok_def buffered_def)
next
  case (step_bytes i c val d n)
  then have "\<not> early (csPhase c)" by (auto simp: early_def)
  from bytes_ok_bytes [OF ok step_bytes(2,3) this step_bytes(6,7)] show ?thesis
    unfolding step_bytes(1,5) .
next
  case (step_flush i c d k s)
  then have late: "\<not> early (csPhase c)" using bytes_okD [OF ok, of i] by (auto simp: bufs_ok_def)
  then have "connUser (csMeta c) \<noteq> []"
    using names_okD [OF names, of i] step_flush by (auto simp: early_def)
  from bytes_ok_flush [OF ok step_flush(2,3) late this step_flush(5)] show ?thesis unfolding step_flush(1) .
next
  case (step_unlist i c)
  have "bufs_ok c" using bytes_okD [OF ok step_unlist(2)] step_unlist(3) by simp
  then have "bufs_ok (c\<lparr>csPhase := Unlisted, csConn := (csConn c)\<lparr>closeDone := True\<rparr>\<rparr>)"
    by (simp add: bufs_ok_def early_def)
  then show ?thesis unfolding step_unlist(1)
    by (intro bytes_ok_update [OF ok step_unlist(2),
          where c' = "c\<lparr>csPhase := Unlisted, csConn := (csConn c)\<lparr>closeDone := True\<rparr>\<rparr>"])
       (auto simp: csMeta_def step_unlist(3))
next
  case (step_uncount i c)
  then show ?thesis
    using bytes_ok_phase [OF ok step_uncount(2,3), of Uncounted "UnregisterConn (connUser (csMeta c)) (ConnID (csMeta c)) (wStats w)" "wLimiter w"]
    by (simp add: early_def)
next
  case (step_settle i c k s)
  then have "connUser (csMeta c) \<noteq> []"
    using names_okD [OF names, of i] by auto
  from bytes_ok_settle [OF ok step_settle(2,3,4) this step_settle(5)] show ?thesis unfolding step_settle(1) .
next
  case (step_collect d name n s)
  then show ?thesis
    using ok held_atomic(1) [OF step_collect(2)] by (auto simp: bytes_ok_def buffered_def)
qed

context connection_limiter
begin

lemma names_ok_step:
  assumes "world_step L env w w'" and ok: "names_ok w"
  shows "names_ok w'"
  using assms(1)
proof cases
  case (step_number ctx now)
  then show ?thesis using ok by (auto simp: names_ok_def new_conn_def)
next
  case (step_check i c decision l)
  have "Allow decision \<Longrightarrow> user_key (csMeta c) \<noteq> None"
    using check_named [of "wLimiter w" "csMeta c" "StartedAt (csMeta c)"] step_check(5) by simp
  then show ?thesis unfolding step_check(1)
    by (intro names_ok_update [OF ok step_check(2)])
       (use step_check(3) in \<open>auto split: if_splits\<close>)
next
  case (step_flush i c d k s)
  show ?thesis unfolding step_flush(1)
    by (rule names_ok_update [OF ok step_flush(2)])
       (use step_flush(3) flush_meta(1) [OF step_flush(5)] in \<open>auto simp: csMeta_def\<close>)
next
  case (step_settle i c k s)
  show ?thesis unfolding step_settle(1)
    by (rule names_ok_update [OF ok step_settle(2)])
       (use step_settle(3,4) flush_meta(2) [OF step_settle(5)] in \<open>auto simp: csMeta_def\<close>)
next
  case (step_bytes i c val d n)
  show ?thesis unfolding step_bytes(1)
    by (rule names_ok_update [OF ok step_bytes(2)]) (use step_bytes(3) in \<open>auto simp: csMeta_def\<close>)
next
  case (step_register i c)
  show ?thesis unfolding step_register(1)
    by (rule names_ok_update [OF ok step_register(2)]) (use step_register(3,4) in auto)
next
  case (step_list i c)
  show ?thesis unfolding step_list(1)
    by (rule names_ok_update [OF ok step_list(2)]) (use step_list(3,4) in auto)
next
  case (step_unlist i c)
  show ?thesis unfolding step_unlist(1)
    by (rule names_ok_update [OF ok step_unlist(2)]) (use step_unlist(3,4) in \<open>auto simp: csMeta_def\<close>)
next
  case (step_uncount i c)
  show ?thesis unfolding step_uncount(1)
    by (rule names_ok_update [OF ok step_uncount(2)]) (use step_uncount(3,4) in auto)
qed (use ok in \<open>simp_all add: names_ok_def\<close>)

end

definition represents :: "('l \<Rightarrow> conn_meta list \<Rightarrow> bool) \<Rightarrow> 'l world \<Rightarrow> bool" where
  "represents rep w \<longleftrightarrow> (\<exists>live. mset live = listed_metas w \<and> rep (wLimiter w) live)"

lemma listed_update:
  assumes "i < length (wConns w)" and "csMeta c' = csMeta (wConns w ! i)"
  shows "listed_metas (w'\<lparr>wConns := (wConns w)[i := c']\<rparr>) =
    (if listed c' then {#csMeta c'#} else {#})
    + (listed_metas w - (if listed (wConns w ! i) then {#csMeta c'#} else {#}))"
proof -
  have "wConns w ! i \<in># mset (wConns w)" using assms(1) by simp
  then show ?thesis
    using assms by (auto simp: listed_metas_def filter_mset_update image_mset_Diff)
qed

lemma listed_fresh:
  assumes ids: "ids_ok w" and i: "i < length (wConns w)" and "\<not> listed (wConns w ! i)"
    and "mset live = listed_metas w"
  shows "ConnID (csMeta (wConns w ! i)) \<notin> ConnID ` set live"
proof
  assume "ConnID (csMeta (wConns w ! i)) \<in> ConnID ` set live"
  then obtain m where "m \<in># listed_metas w" "ConnID m = ConnID (csMeta (wConns w ! i))"
    by (auto simp flip: assms(4))
  then obtain c where "c \<in> set (wConns w)" "listed c" "ConnID (csMeta c) = ConnID (csMeta (wConns w ! i))"
    by (auto simp: listed_metas_def)
  then obtain j where "j < length (wConns w)" "listed (wConns w ! j)"
      "ConnID (csMeta (wConns w ! j)) = ConnID (csMeta (wConns w ! i))"
    by (auto simp: in_set_conv_nth)
  then show False using ids_distinct [OF ids, of j i] i assms(3) by auto
qed

lemma represents_same:
  assumes "represents rep w" and "i < length (wConns w)" and "csMeta c' = csMeta (wConns w ! i)"
    and "listed c' = listed (wConns w ! i)" and "\<And>live. rep (wLimiter w) live \<Longrightarrow> rep (wLimiter w') live"
  shows "represents rep (w'\<lparr>wConns := (wConns w)[i := c']\<rparr>)"
proof -
  have "listed c' \<Longrightarrow> csMeta c' \<in># listed_metas w"
    using assms(2-4) nth_mem_mset [OF assms(2)] by (auto simp: listed_metas_def)
  then have "listed_metas (w'\<lparr>wConns := (wConns w)[i := c']\<rparr>) = listed_metas w"
    using listed_update [OF assms(2,3), of w'] assms(4) by auto
  then show ?thesis using assms(1,5) by (auto simp: represents_def)
qed

context shared_limiter
begin

lemma represents_step:
  assumes "world_step L env w w'" and rep: "represents rep w" and ids: "ids_ok w" and names: "names_ok w"
  shows "represents rep w'"
  using assms(1)
proof cases
  case (step_number ctx now)
  then show ?thesis using rep by (simp add: represents_def listed_metas_def new_conn_def listed_def)
next
  case (step_check i c decision l)
  have "rep (wLimiter w) live \<Longrightarrow> rep l live" for live
    using check_rep [of "wLimiter w" live "csMeta c" "StartedAt (csMeta c)"] step_check(5) by simp
  then show ?thesis unfolding step_check(1)
    by (intro represents_same [OF rep step_check(2)]) (use step_check(3,4) in \<open>auto simp: listed_def\<close>)
next
  case (step_register i c)
  obtain live where live: "mset live = listed_metas w" "rep (wLimiter w) live"
    using rep by (auto simp: represents_def)
  have not: "\<not> listed c" using step_register(4) by (simp add: listed_def)
  have "fresh_conn live (csMeta c)"
    using listed_fresh [OF ids step_register(2) _ live(1)] not step_register(3,4) names step_register(2)
    by (auto simp: fresh_conn_def names_ok_def simp del: user_key_Some)
  then have "rep (if_Register L (wLimiter w) (csMeta c)) (csMeta c # live)" by (rule register_rep [OF live(2)])
  moreover have "listed_metas w' = mset (csMeta c # live)"
    using listed_update [OF step_register(2), of "c\<lparr>csPhase := Registered\<rparr>"] not step_register(3) live(1)
    unfolding step_register(1) by (simp add: listed_def)
  ultimately show ?thesis unfolding represents_def
    by (intro exI [of _ "csMeta c # live"]) (simp add: step_register(1))
next
  case (step_list i c)
  show ?thesis unfolding step_list(1)
    by (rule represents_same [OF rep step_list(2)]) (use step_list(3,4) in \<open>auto simp: listed_def\<close>)
next
  case (step_env l)
  then show ?thesis using rep env_rep by (auto simp: represents_def listed_metas_def)
next
  case (step_bytes i c val d n)
  show ?thesis unfolding step_bytes(1)
    by (rule represents_same [OF rep step_bytes(2)]) (use step_bytes(3) in \<open>auto simp: listed_def csMeta_def\<close>)
next
  case (step_flush i c d k s)
  show ?thesis unfolding step_flush(1)
    by (rule represents_same [OF rep step_flush(2)])
       (use step_flush(3) flush_meta(1) [OF step_flush(5)] in \<open>auto simp: listed_def csMeta_def\<close>)
next
  case (step_unlist i c)
  let ?c' = "c\<lparr>csPhase := Unlisted, csConn := (csConn c)\<lparr>closeDone := True\<rparr>\<rparr>"
  obtain live where live: "mset live = listed_metas w" "rep (wLimiter w) live"
    using rep by (auto simp: represents_def)
  have "c \<in># filter_mset listed (mset (wConns w))"
    using step_unlist(2-4) by (simp add: listed_def)
  then have "csMeta c \<in># mset live" unfolding live(1) listed_metas_def by simp
  then have m: "csMeta c \<in> set live" by simp
  have "listed_metas w' = mset (drop_conn (csMeta c) live)"
    using listed_update [OF step_unlist(2), of ?c'] step_unlist(3,4) mset_drop_conn [OF rep_distinct [OF live(2)] m] live(1)
    unfolding step_unlist(1) by (simp add: listed_def csMeta_def)
  then show ?thesis
    using unregister_rep [OF live(2) m] unfolding represents_def
    by (intro exI [of _ "drop_conn (csMeta c) live"]) (simp add: step_unlist(1))
next
  case (step_uncount i c)
  show ?thesis unfolding step_uncount(1)
    by (rule represents_same [OF rep step_uncount(2)]) (use step_uncount(3,4) in \<open>auto simp: listed_def\<close>)
next
  case (step_settle i c k s)
  show ?thesis unfolding step_settle(1)
    by (rule represents_same [OF rep step_settle(2)])
       (use step_settle(3,4) flush_meta(2) [OF step_settle(5)] in \<open>auto simp: listed_def csMeta_def\<close>)
next
  case (step_collect d name n s)
  then show ?thesis using rep by (simp add: represents_def listed_metas_def)
qed

text \<open>All invariants hold in every reachable state.\<close>

lemma world_invariants:
  assumes "world_reachable L env l w" and "rep l []"
  shows "represents rep w \<and> ids_ok w \<and> names_ok w \<and> bytes_ok w"
  using assms(1) unfolding world_reachable_def
proof (induction rule: rtranclp_induct)
  case base
  show ?case using assms(2)
    by (auto simp: represents_def listed_metas_def ids_ok_def names_ok_def bytes_ok_def buffered_def
        start_world_def NewStatsTracker_def held_def)
next
  case (step w w')
  then show ?case using represents_step ids_ok_step names_ok_step bytes_ok_step by metis
qed

end

end
