(* ===== verification/Limiter.thy ===== *)
theory Limiter
  imports Types
begin

text \<open>
  \<open>core/limiter.go\<close>: the connection limiter. Its state is the record \<open>limiter\<close>, one field
  per field of the Go struct except the two mutexes. An operation holds \<open>stateMu\<close> (or both
  locks) while it reads and writes the state, so it is one step of the model; \<open>Check\<close> looks
  up the user under \<open>configMu\<close> just before, and that lookup is taken with the step.
  \<open>UserSpeedBucket\<close> has two critical sections and is split into them.

  The operations are in the order of the file. \<open>Limiter_Live\<close>, \<open>Limiter_Spec\<close> and
  \<open>Limiter_Rates\<close> hold what is proved of them.
\<close>

section \<open>State\<close>

record rate_limiter =
  lastReset :: gotime
  rlCount :: int

record limiter_config =
  MaxConnPerUser :: int
  MaxConnPerIP :: int
  MaxNewConnPerUserPerMin :: int
  MaxNewConnPerIPPerMin :: int

text \<open>\<open>nextBucket\<close> is the allocator of bucket identities.\<close>

record limiter =
  userByName :: "(string, panel_user) gomap"
  speedLimitByName :: "(string, int) gomap"
  speedBucketByName :: "(string, bucket) gomap"
  nextBucket :: nat
  oldUserOnline :: "(string, string goset) gomap"
  remoteUserOnline :: "(int, string goset) gomap"
  activeConnByUser :: "(string, (string, conn_meta) gomap) gomap"
  activeConnByIP :: "(string, (string, conn_meta) gomap) gomap"
  activeIPsCount :: "(string, (string, int) gomap) gomap"
  recentConnByUser :: "(string, rate_limiter) gomap"
  recentConnByIP :: "(string, rate_limiter) gomap"
  aliveList :: "(int, int) gomap"
  window :: duration
  maxConnPerUser :: int
  maxNewConnPerUser :: int
  maxConnPerIP :: int
  maxNewConnPerIP :: int

definition defaultLimiterWindow :: duration where
  "defaultLimiterWindow = 60 * second_ns"

definition NewLimiterWithConfig :: "limiter_config \<Rightarrow> limiter" where
  "NewLimiterWithConfig cfg = \<lparr>
     userByName = [], speedLimitByName = [], speedBucketByName = [], nextBucket = 0,
     oldUserOnline = [], remoteUserOnline = [],
     activeConnByUser = [], activeConnByIP = [], activeIPsCount = [],
     recentConnByUser = [], recentConnByIP = [], aliveList = [],
     window = defaultLimiterWindow,
     maxConnPerUser = MaxConnPerUser cfg,
     maxNewConnPerUser = MaxNewConnPerUserPerMin cfg,
     maxConnPerIP = MaxConnPerIP cfg,
     maxNewConnPerIP = MaxNewConnPerIPPerMin cfg\<rparr>"

definition NewLimiter :: limiter where
  "NewLimiter = NewLimiterWithConfig \<lparr>
     MaxConnPerUser = 32, MaxConnPerIP = 20,
     MaxNewConnPerUserPerMin = 120, MaxNewConnPerIPPerMin = 60\<rparr>"

section \<open>Users and buckets\<close>

definition limiterUserName :: "int \<Rightarrow> string" where
  "limiterUserName userID = ''user-'' @ Itoa userID"

definition sweep_rates :: "gotime \<Rightarrow> duration \<Rightarrow> (string, rate_limiter) gomap \<Rightarrow> (string, rate_limiter) gomap" where
  "sweep_rates now w idx = filter (\<lambda>e. \<not> time_Sub now (lastReset (snd e)) > w * 2) idx"

text \<open>The body of the loop over the users; the state is the three maps being built.\<close>

definition update_user_step ::
  "limiter \<Rightarrow> (string, panel_user) gomap \<times> (string, int) gomap \<times> (string, bucket) gomap
     \<Rightarrow> panel_user \<Rightarrow> (string, panel_user) gomap \<times> (string, int) gomap \<times> (string, bucket) gomap" where
  "update_user_step l maps user =
     (case maps of (users, speeds, buckets) \<Rightarrow>
       let name = limiterUserName (uID user)
       in (AList.update name user users,
           AList.update name (uSpeedLimit user) speeds,
           (case map_of (speedBucketByName l) name of
              None \<Rightarrow> buckets
            | Some b \<Rightarrow>
                if gget 0 (speedLimitByName l) name = uSpeedLimit user
                then AList.update name b buckets else buckets)))"

definition UpdateUsers :: "gotime \<Rightarrow> panel_user list \<Rightarrow> limiter \<Rightarrow> limiter" where
  "UpdateUsers now users l =
     (case foldl (update_user_step l) ([], [], []) users of (next, nextSpeedLimit, nextSpeedBuckets) \<Rightarrow>
        l\<lparr>recentConnByIP := sweep_rates now (window l) (recentConnByIP l),
          recentConnByUser := sweep_rates now (window l) (recentConnByUser l),
          userByName := next,
          speedLimitByName := nextSpeedLimit,
          speedBucketByName := nextSpeedBuckets\<rparr>)"

definition stringSet :: "string list \<Rightarrow> string goset" where
  "stringSet values =
     foldl (\<lambda>out v. let v' = TrimSpace v in if v' = [] then out else List.insert v' out) [] values"

definition UpdateAliveList :: "alive_list \<Rightarrow> limiter \<Rightarrow> limiter" where
  "UpdateAliveList alive l =
     (if alive = [] then l\<lparr>aliveList := [], remoteUserOnline := []\<rparr>
      else l\<lparr>aliveList := map (\<lambda>(uid, ips). (uid, int (length ips))) alive,
             remoteUserOnline := map (\<lambda>(uid, ips). (uid, stringSet ips)) alive\<rparr>)"

text \<open>
  Megabits to bytes. The Go code computes in \<open>float64\<close>; the product with powers of two is
  exact there, and so is the conversion of a limit below \<open>2 ^ 53\<close>.
\<close>

definition speedLimitBytesPerSecond :: "int \<Rightarrow> int" where
  "speedLimitBytesPerSecond mbps = (if mbps \<le> 0 then 0 else mbps * 1024 * 1024 div 8)"

text \<open>
  \<open>UserSpeedBucket\<close> reads under the read lock, releases it, and creates a missing bucket
  under the write lock after looking again: two atomic steps, between which another
  operation may run.
\<close>

definition speed_bucket_read :: "string \<Rightarrow> limiter \<Rightarrow> int \<times> bucket option" where
  "speed_bucket_read name l = (gget 0 (speedLimitByName l) name, map_of (speedBucketByName l) name)"

definition speed_bucket_create :: "string \<Rightarrow> int \<Rightarrow> limiter \<Rightarrow> bucket option \<times> limiter" where
  "speed_bucket_create name speedLimit l =
     (case map_of (speedBucketByName l) name of
        Some b \<Rightarrow> (Some b, l)
      | None \<Rightarrow>
          let bytesPerSecond = speedLimitBytesPerSecond speedLimit
          in if bytesPerSecond \<le> 0 then (None, l)
             else let b = \<lparr>bucketRef = nextBucket l, bucketRate = bytesPerSecond,
                           bucketCapacity = bytesPerSecond\<rparr>
                  in (Some b, l\<lparr>speedBucketByName := AList.update name b (speedBucketByName l),
                                nextBucket := Suc (nextBucket l)\<rparr>))"

definition UserSpeedBucket :: "string \<Rightarrow> limiter \<Rightarrow> bucket option \<times> limiter" where
  "UserSpeedBucket userName l =
     (let name = TrimSpace userName
      in case speed_bucket_read name l of (speedLimit, found) \<Rightarrow>
           if speedLimit \<le> 0 then (None, l)
           else case found of
                  Some b \<Rightarrow> (Some b, l)
                | None \<Rightarrow> speed_bucket_create name speedLimit l)"

section \<open>Checking a connection\<close>

definition checkCPS ::
  "duration \<Rightarrow> (string, rate_limiter) gomap \<Rightarrow> string \<Rightarrow> int \<Rightarrow> gotime
     \<Rightarrow> bool \<times> (string, rate_limiter) gomap" where
  "checkCPS w index key limit now =
     (case map_of index key of
        None \<Rightarrow> (True, AList.update key \<lparr>lastReset = now, rlCount = 1\<rparr> index)
      | Some rl \<Rightarrow>
          if time_Sub now (lastReset rl) \<ge> w
          then (True, AList.update key \<lparr>lastReset = now, rlCount = 1\<rparr> index)
          else if rlCount rl \<ge> limit then (False, index)
          else (True, AList.update key (rl\<lparr>rlCount := rlCount rl + 1\<rparr>) index))"

definition ensureConnMap ::
  "(string, (string, conn_meta) gomap) gomap \<Rightarrow> string
     \<Rightarrow> (string, conn_meta) gomap \<times> (string, (string, conn_meta) gomap) gomap" where
  "ensureConnMap index key =
     (case map_of index key of
        None \<Rightarrow> ([], AList.update key [] index)
      | Some conns \<Rightarrow> (conns, index))"

definition currentUserIPs :: "limiter \<Rightarrow> string \<Rightarrow> string goset" where
  "currentUserIPs l userName = map fst (gget [] (activeIPsCount l) userName)"

definition currentDeviceCount :: "limiter \<Rightarrow> string \<Rightarrow> int \<Rightarrow> bool \<Rightarrow> string goset \<Rightarrow> int" where
  "currentDeviceCount l userName userID userExists currentIPs =
     (let count = int (length currentIPs);
          remote = int (length (gget [] (remoteUserOnline l) userID));
          count = (if userExists \<and> remote > count then remote else count);
          alive = gget 0 (aliveList l) userID;
          count = (if userExists \<and> alive > count then alive else count);
          old = int (length (gget [] (oldUserOnline l) userName))
      in if old > count then old else count)"

definition containsIP :: "string goset \<Rightarrow> string \<Rightarrow> bool" where
  "containsIP ips ip \<longleftrightarrow> ip \<in> set ips"

definition deny :: "string \<Rightarrow> limit_decision" where
  "deny r = \<lparr>Allow = False, Reason = r\<rparr>"

definition allowed :: limit_decision where
  "allowed = \<lparr>Allow = True, Reason = []\<rparr>"

text \<open>
  The guards of \<open>Check\<close>, in the order of the code. A guard returns the reason of a refusal,
  if any, and the state it leaves: the counters and the maps it creates stay even when a
  later guard refuses.
\<close>

definition guard_new_per_user :: "string \<Rightarrow> gotime \<Rightarrow> limiter \<Rightarrow> string option \<times> limiter" where
  "guard_new_per_user userName now l =
     (if maxNewConnPerUser l > 0
      then case checkCPS (window l) (recentConnByUser l) userName (maxNewConnPerUser l) now of
             (ok, idx) \<Rightarrow>
               (if ok then None else Some ''new connections per user limit exceeded'',
                l\<lparr>recentConnByUser := idx\<rparr>)
      else (None, l))"

definition guard_new_per_ip :: "string \<Rightarrow> gotime \<Rightarrow> limiter \<Rightarrow> string option \<times> limiter" where
  "guard_new_per_ip ipKey now l =
     (if ipKey \<noteq> [] \<and> maxNewConnPerIP l > 0
      then case checkCPS (window l) (recentConnByIP l) ipKey (maxNewConnPerIP l) now of
             (ok, idx) \<Rightarrow>
               (if ok then None else Some ''new connections per ip limit exceeded'',
                l\<lparr>recentConnByIP := idx\<rparr>)
      else (None, l))"

definition guard_active_per_user :: "string \<Rightarrow> limiter \<Rightarrow> string option \<times> limiter" where
  "guard_active_per_user userName l =
     (if maxConnPerUser l > 0
      then case ensureConnMap (activeConnByUser l) userName of
             (conns, idx) \<Rightarrow>
               (if int (length conns) \<ge> maxConnPerUser l
                then Some ''active connections per user limit exceeded'' else None,
                l\<lparr>activeConnByUser := idx\<rparr>)
      else (None, l))"

definition guard_active_per_ip :: "string \<Rightarrow> limiter \<Rightarrow> string option \<times> limiter" where
  "guard_active_per_ip ipKey l =
     (if ipKey \<noteq> [] \<and> maxConnPerIP l > 0
      then case ensureConnMap (activeConnByIP l) ipKey of
             (conns, idx) \<Rightarrow>
               (if int (length conns) \<ge> maxConnPerIP l
                then Some ''active connections per ip limit exceeded'' else None,
                l\<lparr>activeConnByIP := idx\<rparr>)
      else (None, l))"

definition known_ip :: "limiter \<Rightarrow> string \<Rightarrow> int \<Rightarrow> string \<Rightarrow> bool" where
  "known_ip l userName userID ipKey \<longleftrightarrow>
     containsIP (currentUserIPs l userName) ipKey \<or>
     containsIP (gget [] (oldUserOnline l) userName) ipKey \<or>
     containsIP (gget [] (remoteUserOnline l) userID) ipKey"

definition guard_devices :: "string \<Rightarrow> panel_user \<Rightarrow> string \<Rightarrow> limiter \<Rightarrow> string option \<times> limiter" where
  "guard_devices userName user ipKey l =
     (if uDeviceLimit user > 0 \<and> ipKey \<noteq> []
         \<and> \<not> known_ip l userName (uID user) ipKey
         \<and> currentDeviceCount l userName (uID user) True (currentUserIPs l userName) \<ge> uDeviceLimit user
      then (Some ''device limit exceeded'', l)
      else (None, l))"

text \<open>Run a guard and go on to the next one when it passes.\<close>

definition and_then ::
  "string option \<times> limiter \<Rightarrow> (limiter \<Rightarrow> string option \<times> limiter) \<Rightarrow> string option \<times> limiter" where
  "and_then r g = (case r of (Some why, l) \<Rightarrow> (Some why, l) | (None, l) \<Rightarrow> g l)"

definition run_guards :: "string \<Rightarrow> panel_user \<Rightarrow> string \<Rightarrow> gotime \<Rightarrow> limiter \<Rightarrow> string option \<times> limiter" where
  "run_guards userName user ipKey now l =
     and_then (and_then (and_then (and_then
       (guard_new_per_user userName now l)
       (guard_new_per_ip ipKey now))
       (guard_active_per_user userName))
       (guard_active_per_ip ipKey))
       (guard_devices userName user ipKey)"

definition limiter_Check :: "limiter \<Rightarrow> conn_meta \<Rightarrow> gotime \<Rightarrow> limit_decision \<times> limiter" where
  "limiter_Check l meta now =
     (let userName = TrimSpace (connUser meta)
      in if userName = [] then (deny ''missing user'', l)
         else case map_of (userByName l) userName of
                None \<Rightarrow> (deny ''unknown user'', l)
              | Some user \<Rightarrow>
                  let ipKey = (if addr_IsValid (SourceIP meta) then addr_String (SourceIP meta) else [])
                  in case run_guards userName user ipKey now l of
                       (Some why, l') \<Rightarrow> (deny why, l')
                     | (None, l') \<Rightarrow> (allowed, l'))"

section \<open>Registering and unregistering\<close>

definition put_conn ::
  "(string, (string, conn_meta) gomap) gomap \<Rightarrow> string \<Rightarrow> conn_meta
     \<Rightarrow> (string, (string, conn_meta) gomap) gomap" where
  "put_conn index key meta =
     (case ensureConnMap index key of
        (conns, index') \<Rightarrow> AList.update key (AList.update (ConnID meta) meta conns) index')"

definition count_up ::
  "(string, (string, int) gomap) gomap \<Rightarrow> string \<Rightarrow> string \<Rightarrow> (string, (string, int) gomap) gomap" where
  "count_up counts userName ipKey =
     (let inner = gget [] counts userName
      in AList.update userName (AList.update ipKey (gget 0 inner ipKey + 1) inner) counts)"

definition limiter_Register :: "limiter \<Rightarrow> conn_meta \<Rightarrow> limiter" where
  "limiter_Register l meta =
     (let userName = TrimSpace (connUser meta)
      in if userName = [] then l
         else let l = l\<lparr>activeConnByUser := put_conn (activeConnByUser l) userName meta\<rparr>
              in if addr_IsValid (SourceIP meta)
                 then let ipKey = addr_String (SourceIP meta)
                      in l\<lparr>activeConnByIP := put_conn (activeConnByIP l) ipKey meta,
                           activeIPsCount := count_up (activeIPsCount l) userName ipKey\<rparr>
                 else l)"

definition del_conn ::
  "(string, (string, conn_meta) gomap) gomap \<Rightarrow> string \<Rightarrow> conn_meta
     \<Rightarrow> (string, (string, conn_meta) gomap) gomap" where
  "del_conn index key meta =
     (case map_of index key of
        None \<Rightarrow> index
      | Some conns \<Rightarrow>
          let conns' = AList.delete (ConnID meta) conns
          in if conns' = [] then AList.delete key index else AList.update key conns' index)"

definition count_down ::
  "(string, (string, int) gomap) gomap \<Rightarrow> string \<Rightarrow> string \<Rightarrow> (string, (string, int) gomap) gomap" where
  "count_down counts userName ipKey =
     (case map_of counts userName of
        None \<Rightarrow> counts
      | Some inner \<Rightarrow>
          let n = gget 0 inner ipKey - 1;
              inner' = (if n \<le> 0 then AList.delete ipKey inner else AList.update ipKey n inner)
          in if inner' = [] then AList.delete userName counts
             else AList.update userName inner' counts)"

definition limiter_Unregister :: "limiter \<Rightarrow> conn_meta \<Rightarrow> limiter" where
  "limiter_Unregister l meta =
     (let userName = TrimSpace (connUser meta);
          l = (if userName \<noteq> []
               then l\<lparr>activeConnByUser := del_conn (activeConnByUser l) userName meta\<rparr> else l)
      in if addr_IsValid (SourceIP meta)
         then let ipKey = addr_String (SourceIP meta);
                  l = l\<lparr>activeConnByIP := del_conn (activeConnByIP l) ipKey meta\<rparr>
              in if userName \<noteq> []
                 then l\<lparr>activeIPsCount := count_down (activeIPsCount l) userName ipKey\<rparr> else l
         else l)"

section \<open>Reports\<close>

definition currentOnlineDeviceSets :: "limiter \<Rightarrow> (string, string goset) gomap" where
  "currentOnlineDeviceSets l =
     foldl (\<lambda>current (userName, _).
         let ips = currentUserIPs l userName
         in if ips = [] then current else AList.update userName ips current)
       [] (activeConnByUser l)"

definition alive_step ::
  "limiter \<Rightarrow> (int, string list) gomap \<times> (string, string goset) gomap \<Rightarrow> string \<times> string goset
     \<Rightarrow> (int, string list) gomap \<times> (string, string goset) gomap" where
  "alive_step l acc entry =
     (case acc of (payload, nextOld) \<Rightarrow> case entry of (userName, ips) \<Rightarrow>
        case map_of (userByName l) userName of
          None \<Rightarrow> (payload, nextOld)
        | Some user \<Rightarrow>
            (AList.update (uID user) (sort ips) payload, AList.update userName ips nextOld))"

definition BuildAlivePayload :: "limiter \<Rightarrow> (int, string list) gomap \<times> limiter" where
  "BuildAlivePayload l =
     (case foldl (alive_step l) ([], []) (currentOnlineDeviceSets l) of
        (payload, nextOld) \<Rightarrow> (payload, l\<lparr>oldUserOnline := nextOld\<rparr>))"

record limiter_snapshot =
  snUsers :: nat
  snActiveUsers :: nat
  snActiveIPs :: nat
  snActiveConnections :: nat
  snMaxConnPerUser :: int
  snMaxConnPerIP :: int
  snMaxNewConnPerUser :: int
  snMaxNewConnPerIP :: int

definition limiter_Snapshot :: "limiter \<Rightarrow> limiter_snapshot" where
  "limiter_Snapshot l = \<lparr>
     snUsers = length (userByName l),
     snActiveUsers = length (activeConnByUser l),
     snActiveIPs = length (activeConnByIP l),
     snActiveConnections = foldl (\<lambda>n (_, conns). n + length conns) 0 (activeConnByUser l),
     snMaxConnPerUser = maxConnPerUser l,
     snMaxConnPerIP = maxConnPerIP l,
     snMaxNewConnPerUser = maxNewConnPerUser l,
     snMaxNewConnPerIP = maxNewConnPerIP l\<rparr>"

definition limiter_ops :: "limiter limiter_iface" where
  "limiter_ops = \<lparr>if_Check = limiter_Check, if_Register = limiter_Register,
     if_Unregister = limiter_Unregister\<rparr>"

end
