(* ===== verification/Limiter_Live.thy ===== *)
theory Limiter_Live
  imports Limiter
begin

text \<open>
  The abstract view of the limiter: which connections are live. \<open>limiter_rep l live\<close> says
  that the three indexes of the state \<open>l\<close> are the projections of the list \<open>live\<close>: by user
  name, by source address, and the number of connections per user and address. The
  operations are shown to follow the list, which interprets \<open>connection_limiter\<close>; the
  limits that \<open>Check\<close> enforces are then read off the list.
\<close>

section \<open>One index\<close>

definition conns_with :: "(conn_meta \<Rightarrow> string option) \<Rightarrow> string \<Rightarrow> conn_meta list \<Rightarrow> conn_meta list" where
  "conns_with key k live = filter (\<lambda>m. key m = Some k) live"

definition conn_entries :: "conn_meta list \<Rightarrow> (string, conn_meta) gomap" where
  "conn_entries ms = map (\<lambda>m. (ConnID m, m)) ms"

definition idx_rep ::
  "(conn_meta \<Rightarrow> string option) \<Rightarrow> conn_meta list \<Rightarrow> (string, (string, conn_meta) gomap) gomap \<Rightarrow> bool" where
  "idx_rep key live idx \<longleftrightarrow>
     gomap_ok idx \<and> (\<forall>k. mset (gget [] idx k) = mset (conn_entries (conns_with key k live)))"

lemma conn_entries_simps [simp]:
  "conn_entries [] = []"
  "conn_entries (m # ms) = (ConnID m, m) # conn_entries ms"
  "length (conn_entries ms) = length ms"
  "fst ` set (conn_entries ms) = ConnID ` set ms"
  "map fst (conn_entries ms) = map ConnID ms"
  by (auto simp: conn_entries_def image_image)

lemma conns_with_simps [simp]:
  "conns_with key k [] = []"
  "conns_with key k (m # live) = (if key m = Some k then m # conns_with key k live else conns_with key k live)"
  by (auto simp: conns_with_def)

lemma set_conns_with: "set (conns_with key k live) = {m \<in> set live. key m = Some k}"
  by (auto simp: conns_with_def)

lemma idx_rep_Nil [simp]: "idx_rep key [] []"
  by (simp add: idx_rep_def)

lemma idx_rep_length:
  "idx_rep key live idx \<Longrightarrow> length (gget [] idx k) = length (conns_with key k live)"
  unfolding idx_rep_def by (metis conn_entries_simps(3) size_mset)

lemma gget_ensureConnMap [simp]: "gget [] (snd (ensureConnMap idx k)) j = gget [] idx j"
  by (auto simp: ensureConnMap_def gget_def split: option.splits)

lemma fst_ensureConnMap [simp]: "fst (ensureConnMap idx k) = gget [] idx k"
  by (simp add: ensureConnMap_def gget_def split: option.splits)

lemma gomap_ok_ensureConnMap: "gomap_ok idx \<Longrightarrow> gomap_ok (snd (ensureConnMap idx k))"
  by (auto simp: ensureConnMap_def split: option.splits)

lemma idx_rep_ensure: "idx_rep key live idx \<Longrightarrow> idx_rep key live (snd (ensureConnMap idx k))"
  by (simp add: idx_rep_def gomap_ok_ensureConnMap)

lemma gget_put_conn:
  "gget [] (put_conn idx k m) j =
     (if j = k then AList.update (ConnID m) m (gget [] idx k) else gget [] idx j)"
  by (auto simp: put_conn_def ensureConnMap_def gget_def split: option.splits)

lemma gomap_ok_put_conn: "gomap_ok idx \<Longrightarrow> gomap_ok (put_conn idx k m)"
  by (auto simp: put_conn_def ensureConnMap_def split: option.splits)

lemma idx_rep_put:
  assumes "idx_rep key live idx" and "key m = Some k" and "ConnID m \<notin> ConnID ` set live"
  shows "idx_rep key (m # live) (put_conn idx k m)"
proof -
  have "set (gget [] idx k) = set (conn_entries (conns_with key k live))"
    using assms(1) unfolding idx_rep_def by (metis mset_eq_setD)
  then have "ConnID m \<notin> fst ` set (gget [] idx k)"
    using assms(3) by (auto simp: set_conns_with)
  with assms show ?thesis
    by (auto simp: idx_rep_def gget_put_conn gomap_ok_put_conn mset_update_fresh)
qed

lemma idx_rep_skip: "idx_rep key live idx \<Longrightarrow> key m = None \<Longrightarrow> idx_rep key (m # live) idx"
  by (simp add: idx_rep_def)

lemma gget_del_conn:
  "gget [] (del_conn idx k m) j =
     (if j = k then AList.delete (ConnID m) (gget [] idx k) else gget [] idx j)"
  by (auto simp: del_conn_def gget_def Let_def split: option.splits)

lemma gomap_ok_del_conn: "gomap_ok idx \<Longrightarrow> gomap_ok (del_conn idx k m)"
  by (auto simp: del_conn_def Let_def split: option.splits)

lemma mset_conns_drop:
  "mset (conn_entries (conns_with key k (drop_conn m live))) =
     filter_mset (\<lambda>e. fst e \<noteq> ConnID m) (mset (conn_entries (conns_with key k live)))"
  by (induction live) (auto simp: drop_conn_def)

lemma conns_with_drop_other:
  assumes "distinct (map ConnID live)" and "m \<in> set live" and "key m \<noteq> Some k"
  shows "conns_with key k (drop_conn m live) = conns_with key k live"
proof -
  have "x = m" if "x \<in> set live" and "ConnID x = ConnID m" for x
    using assms(1,2) that by (auto simp: distinct_map dest: inj_onD)
  then show ?thesis
    using assms(3) by (auto simp: conns_with_def drop_conn_def intro!: filter_cong)
qed

lemma idx_rep_del:
  assumes "idx_rep key live idx" and "key m = Some k"
    and "distinct (map ConnID live)" and "m \<in> set live"
  shows "idx_rep key (drop_conn m live) (del_conn idx k m)"
proof -
  have "mset (gget [] (del_conn idx k m) j) = mset (conn_entries (conns_with key j (drop_conn m live)))" for j
    using assms conns_with_drop_other [OF assms(3,4), of key j]
    by (cases "j = k") (auto simp: idx_rep_def gget_del_conn mset_delete mset_conns_drop [of key k])
  with assms(1) show ?thesis by (simp add: idx_rep_def gomap_ok_del_conn)
qed

lemma idx_rep_del_skip:
  assumes "idx_rep key live idx" and "key m = None"
    and "distinct (map ConnID live)" and "m \<in> set live"
  shows "idx_rep key (drop_conn m live) idx"
  using assms by (auto simp: idx_rep_def conns_with_drop_other)

section \<open>The reference counts\<close>

definition pairs_with :: "string \<Rightarrow> string \<Rightarrow> conn_meta list \<Rightarrow> conn_meta list" where
  "pairs_with u k live = filter (\<lambda>m. user_key m = Some u \<and> ip_key m = Some k) live"

definition counts_clean :: "(string, (string, int) gomap) gomap \<Rightarrow> bool" where
  "counts_clean cnt \<longleftrightarrow>
     (\<forall>u inner. map_of cnt u = Some inner \<longrightarrow>
        inner \<noteq> [] \<and> gomap_ok inner \<and> (\<forall>k n. map_of inner k = Some n \<longrightarrow> 0 < n))"

definition counts_rep :: "conn_meta list \<Rightarrow> (string, (string, int) gomap) gomap \<Rightarrow> bool" where
  "counts_rep live cnt \<longleftrightarrow>
     gomap_ok cnt \<and> counts_clean cnt \<and>
     (\<forall>u k. gget 0 (gget [] cnt u) k = int (length (pairs_with u k live)))"

lemma counts_rep_Nil [simp]: "counts_rep [] []"
  by (simp add: counts_rep_def counts_clean_def pairs_with_def)

lemma counts_cleanD:
  "counts_clean cnt \<Longrightarrow> gomap_ok (gget [] cnt u)"
  "counts_clean cnt \<Longrightarrow> map_of (gget [] cnt u) k = Some n \<Longrightarrow> 0 < n"
  by (auto simp: counts_clean_def gget_def split: option.splits)

lemma count_up_gget:
  "gget 0 (gget [] (count_up cnt u k) u') k' =
     gget 0 (gget [] cnt u') k' + (if u' = u \<and> k' = k then 1 else 0)"
  by (simp add: count_up_def Let_def)

lemma count_up_clean: "counts_clean cnt \<Longrightarrow> counts_clean (count_up cnt u k)"
proof -
  assume clean: "counts_clean cnt"
  have "0 \<le> gget 0 (gget [] cnt u) k"
    using counts_cleanD(2) [OF clean, of u k] by (auto simp: gget_def [of 0] split: option.splits)
  with clean show ?thesis
    using counts_cleanD [OF clean, of u] by (auto simp: counts_clean_def count_up_def Let_def)
qed

lemma counts_rep_up:
  assumes "counts_rep live cnt" and "user_key m = Some u" and "ip_key m = Some k"
  shows "counts_rep (m # live) (count_up cnt u k)"
  using assms
  by (auto simp: counts_rep_def count_up_gget count_up_clean pairs_with_def)
     (auto simp: count_up_def Let_def)

lemma counts_rep_skip: "counts_rep live cnt \<Longrightarrow> ip_key m = None \<Longrightarrow> counts_rep (m # live) cnt"
  by (simp add: counts_rep_def pairs_with_def del: ip_key_Some)

lemma count_down_gget:
  assumes "0 < gget 0 (gget [] cnt u) k"
  shows "gget 0 (gget [] (count_down cnt u k) u') k' =
     gget 0 (gget [] cnt u') k' - (if u' = u \<and> k' = k then 1 else 0)"
proof -
  obtain inner where "map_of cnt u = Some inner"
    using assms by (cases "map_of cnt u") (auto simp: gget_def)
  moreover have "gget [] cnt u = inner" using calculation by (simp add: gget_def)
  moreover have "gget 0 [] k' = gget 0 inner k' - (if k' = k then 1 else 0)"
    if "(if gget 0 inner k - 1 \<le> 0 then AList.delete k inner
         else AList.update k (gget 0 inner k - 1) inner) = []"
  proof -
    have "AList.delete k inner = []" and "gget 0 inner k = 1"
      using that assms calculation(2) by (auto split: if_splits)
    then have "gget 0 inner k' = (if k' = k then 1 else 0)"
      by (metis gget_Nil gget_delete)
    then show ?thesis by simp
  qed
  ultimately show ?thesis
    using assms by (auto simp: count_down_def Let_def split: if_splits)
qed

lemma count_down_clean: "counts_clean cnt \<Longrightarrow> counts_clean (count_down cnt u k)"
  by (auto simp: counts_clean_def count_down_def Let_def split: option.splits if_splits)

lemma gomap_ok_count_down: "gomap_ok cnt \<Longrightarrow> gomap_ok (count_down cnt u k)"
  by (auto simp: count_down_def Let_def split: option.splits)

lemma pairs_with_drop:
  assumes "distinct (map ConnID live)" and "m \<in> set live"
  shows "length (pairs_with u k live) =
     length (pairs_with u k (drop_conn m live)) + (if user_key m = Some u \<and> ip_key m = Some k then 1 else 0)"
  using assms
proof (induction live)
  case (Cons x live)
  show ?case
  proof (cases "x = m")
    case True
    with Cons.prems have "drop_conn m (x # live) = live"
      by (auto simp: drop_conn_def filter_id_conv image_iff)
    with True show ?thesis by (simp add: pairs_with_def del: user_key_Some ip_key_Some)
  next
    case False
    with Cons.prems have "m \<in> set live" and "ConnID x \<noteq> ConnID m" by auto
    with Cons show ?thesis
      by (simp add: pairs_with_def drop_conn_def del: user_key_Some ip_key_Some)
  qed
qed simp

lemma counts_rep_down:
  assumes "counts_rep live cnt" and "user_key m = Some u" and "ip_key m = Some k"
    and "distinct (map ConnID live)" and "m \<in> set live"
  shows "counts_rep (drop_conn m live) (count_down cnt u k)"
proof -
  have "0 < gget 0 (gget [] cnt u) k"
    using assms pairs_with_drop [OF assms(4,5), of u k] by (simp add: counts_rep_def)
  with assms show ?thesis
    using pairs_with_drop [OF assms(4,5)]
    by (auto simp: counts_rep_def count_down_gget count_down_clean gomap_ok_count_down)
qed

lemma counts_rep_del_skip:
  assumes "counts_rep live cnt" and "user_key m = None \<or> ip_key m = None"
    and "distinct (map ConnID live)" and "m \<in> set live"
  shows "counts_rep (drop_conn m live) cnt"
  using assms pairs_with_drop [OF assms(3,4)]
  by (auto simp: counts_rep_def simp del: user_key_Some ip_key_Some)

section \<open>The whole state\<close>

definition limiter_rep :: "limiter \<Rightarrow> conn_meta list \<Rightarrow> bool" where
  "limiter_rep l live \<longleftrightarrow>
     distinct (map ConnID live) \<and> list_all (\<lambda>m. user_key m \<noteq> None) live \<and>
     idx_rep user_key live (activeConnByUser l) \<and>
     idx_rep ip_key live (activeConnByIP l) \<and>
     counts_rep live (activeIPsCount l)"

lemma limiter_rep_New [simp]: "limiter_rep (NewLimiterWithConfig cfg) []"
  by (simp add: limiter_rep_def NewLimiterWithConfig_def)

lemma user_key_name: "TrimSpace (connUser m) = u \<Longrightarrow> u \<noteq> [] \<Longrightarrow> user_key m = Some u"
  by simp

lemma limiter_Register_rep:
  assumes "limiter_rep l live" and "fresh_conn live m"
  shows "limiter_rep (limiter_Register l m) (m # live)"
proof -
  obtain u where u: "user_key m = Some u" and fresh: "ConnID m \<notin> ConnID ` set live"
    using assms(2) by (auto simp: fresh_conn_def simp del: user_key_Some)
  have named: "TrimSpace (connUser m) = u" "u \<noteq> []" using u by auto
  have user: "idx_rep user_key (m # live) (put_conn (activeConnByUser l) u m)"
    using assms(1) u fresh unfolding limiter_rep_def by (blast intro: idx_rep_put)
  show ?thesis
  proof (cases "ip_key m")
    case None
    then have "\<not> addr_IsValid (SourceIP m)" by (simp add: ip_key_def split: if_splits)
    with None assms u user named fresh show ?thesis
      by (auto simp: limiter_rep_def limiter_Register_def Let_def fresh_conn_def
          intro: idx_rep_skip counts_rep_skip simp del: user_key_Some)
  next
    case (Some k)
    then have ip: "idx_rep ip_key (m # live) (put_conn (activeConnByIP l) k m)"
      and cnt: "counts_rep (m # live) (count_up (activeIPsCount l) u k)"
      using assms(1) u fresh unfolding limiter_rep_def by (blast intro: idx_rep_put counts_rep_up)+
    have "addr_IsValid (SourceIP m)" "addr_String (SourceIP m) = k" using Some by auto
    with assms u user named fresh ip cnt show ?thesis
      by (auto simp: limiter_rep_def limiter_Register_def Let_def simp del: user_key_Some)
  qed
qed

lemma drop_conn_distinct: "distinct (map ConnID live) \<Longrightarrow> distinct (map ConnID (drop_conn m live))"
  unfolding drop_conn_def by (rule distinct_map_filter)

lemma limiter_Unregister_rep:
  assumes "limiter_rep l live" and "m \<in> set live"
  shows "limiter_rep (limiter_Unregister l m) (drop_conn m live)"
proof -
  have dist: "distinct (map ConnID live)" using assms(1) by (simp add: limiter_rep_def)
  obtain u where u: "user_key m = Some u"
    using assms by (auto simp: limiter_rep_def list_all_iff simp del: user_key_Some)
  have named: "TrimSpace (connUser m) = u" "u \<noteq> []" using u by auto
  have user: "idx_rep user_key (drop_conn m live) (del_conn (activeConnByUser l) u m)"
    using assms u dist unfolding limiter_rep_def by (blast intro: idx_rep_del)
  have rest: "distinct (map ConnID (drop_conn m live))"
    "list_all (\<lambda>m. user_key m \<noteq> None) (drop_conn m live)"
    using drop_conn_distinct [OF dist] assms(1)
    by (simp_all add: limiter_rep_def list_all_iff drop_conn_def)
  show ?thesis
  proof (cases "ip_key m")
    case None
    then have "\<not> addr_IsValid (SourceIP m)" by (simp add: ip_key_def split: if_splits)
    with None assms dist user named rest show ?thesis
      by (auto simp: limiter_rep_def limiter_Unregister_def Let_def
          intro: idx_rep_del_skip counts_rep_del_skip simp del: user_key_Some)
  next
    case (Some k)
    then have ip: "idx_rep ip_key (drop_conn m live) (del_conn (activeConnByIP l) k m)"
      and cnt: "counts_rep (drop_conn m live) (count_down (activeIPsCount l) u k)"
      using assms u dist unfolding limiter_rep_def by (blast intro: idx_rep_del counts_rep_down)+
    have "addr_IsValid (SourceIP m)" "addr_String (SourceIP m) = k" using Some by auto
    with assms user named ip cnt rest show ?thesis
      by (auto simp: limiter_rep_def limiter_Unregister_def Let_def simp del: user_key_Some)
  qed
qed

section \<open>The guards leave the live connections alone\<close>

lemma snd_and_then:
  assumes "P (snd r)" and "\<And>l. P l \<Longrightarrow> P (snd (g l))"
  shows "P (snd (and_then r g))"
  using assms by (auto simp: and_then_def split: prod.splits option.splits)

lemma guard_new_per_user_rep: "limiter_rep l live \<Longrightarrow> limiter_rep (snd (guard_new_per_user u now l)) live"
  by (auto simp: guard_new_per_user_def limiter_rep_def split: prod.splits)

lemma guard_new_per_ip_rep: "limiter_rep l live \<Longrightarrow> limiter_rep (snd (guard_new_per_ip k now l)) live"
  by (auto simp: guard_new_per_ip_def limiter_rep_def split: prod.splits)

lemma guard_active_per_user_rep: "limiter_rep l live \<Longrightarrow> limiter_rep (snd (guard_active_per_user u l)) live"
  using idx_rep_ensure [of user_key live "activeConnByUser l" u]
  by (auto simp: guard_active_per_user_def limiter_rep_def split: prod.splits)

lemma guard_active_per_ip_rep: "limiter_rep l live \<Longrightarrow> limiter_rep (snd (guard_active_per_ip k l)) live"
  using idx_rep_ensure [of ip_key live "activeConnByIP l" k]
  by (auto simp: guard_active_per_ip_def limiter_rep_def split: prod.splits)

lemma guard_devices_snd [simp]: "snd (guard_devices u user k l) = l"
  by (simp add: guard_devices_def)

lemma run_guards_rep: "limiter_rep l live \<Longrightarrow> limiter_rep (snd (run_guards u user k now l)) live"
  unfolding run_guards_def
  by (intro snd_and_then [where P = "\<lambda>l. limiter_rep l live"] guard_new_per_user_rep
      guard_new_per_ip_rep guard_active_per_user_rep guard_active_per_ip_rep) simp_all

lemma limiter_Check_rep: "limiter_rep l live \<Longrightarrow> limiter_rep (snd (limiter_Check l m now)) live"
  by (auto simp: limiter_Check_def Let_def dest: run_guards_rep
      split: option.splits prod.splits) (metis run_guards_rep snd_conv)+

lemma limiter_Check_named: "Allow (fst (limiter_Check l m now)) \<Longrightarrow> user_key m \<noteq> None"
  by (auto simp: limiter_Check_def Let_def deny_def user_key_def split: if_splits)

lemma limiter_rep_distinct: "limiter_rep l live \<Longrightarrow> distinct (map ConnID live)"
  by (simp add: limiter_rep_def)

interpretation lim: connection_limiter limiter_ops limiter_rep
  by unfold_locales
    (auto simp: limiter_ops_def limiter_Check_rep limiter_Register_rep limiter_Unregister_rep
      limiter_rep_distinct dest: limiter_Check_named simp del: user_key_Some)

end
