(* ===== verification/Limiter_Spec.thy ===== *)
theory Limiter_Spec
  imports Limiter_Live
begin

text \<open>
  What the limiter decides, over the live connections. \<open>spec_Check\<close> states the decision
  directly: numbers of live connections and of distinct live addresses, no index. \<open>Check\<close>
  is shown to compute it. Then whole histories: connections admitted one at a time never
  exceed the configured limits, two checks that both run before either registration do,
  and a refused check leaves an empty entry behind that the statistics count.
\<close>

section \<open>The decision, over the live connections\<close>

definition live_ips :: "string \<Rightarrow> conn_meta list \<Rightarrow> string list" where
  "live_ips u live = remdups (List.map_filter ip_key (conns_with user_key u live))"

definition cps_admits :: "duration \<Rightarrow> (string, rate_limiter) gomap \<Rightarrow> string \<Rightarrow> int \<Rightarrow> gotime \<Rightarrow> bool" where
  "cps_admits w idx key limit now =
     (case map_of idx key of
        None \<Rightarrow> True
      | Some rl \<Rightarrow> time_Sub now (lastReset rl) \<ge> w \<or> rlCount rl < limit)"

definition devices_seen :: "limiter \<Rightarrow> string \<Rightarrow> int \<Rightarrow> conn_meta list \<Rightarrow> int" where
  "devices_seen l u uid live =
     Max {int (length (live_ips u live)), int (length (gget [] (remoteUserOnline l) uid)),
          gget 0 (aliveList l) uid, int (length (gget [] (oldUserOnline l) u))}"

definition device_known :: "limiter \<Rightarrow> string \<Rightarrow> int \<Rightarrow> conn_meta list \<Rightarrow> string \<Rightarrow> bool" where
  "device_known l u uid live k \<longleftrightarrow>
     k \<in> set (live_ips u live) \<union> set (gget [] (oldUserOnline l) u) \<union> set (gget [] (remoteUserOnline l) uid)"

definition spec_reason :: "limiter \<Rightarrow> conn_meta list \<Rightarrow> string \<Rightarrow> panel_user \<Rightarrow> string option \<Rightarrow> gotime \<Rightarrow> string option" where
  "spec_reason l live u user ip now =
     (if 0 < maxNewConnPerUser l \<and> \<not> cps_admits (window l) (recentConnByUser l) u (maxNewConnPerUser l) now
      then Some ''new connections per user limit exceeded''
      else if ip \<noteq> None \<and> 0 < maxNewConnPerIP l
              \<and> \<not> cps_admits (window l) (recentConnByIP l) (the ip) (maxNewConnPerIP l) now
      then Some ''new connections per ip limit exceeded''
      else if 0 < maxConnPerUser l \<and> maxConnPerUser l \<le> int (length (conns_with user_key u live))
      then Some ''active connections per user limit exceeded''
      else if ip \<noteq> None \<and> 0 < maxConnPerIP l \<and> maxConnPerIP l \<le> int (length (conns_with ip_key (the ip) live))
      then Some ''active connections per ip limit exceeded''
      else if ip \<noteq> None \<and> 0 < uDeviceLimit user \<and> \<not> device_known l u (uID user) live (the ip)
              \<and> uDeviceLimit user \<le> devices_seen l u (uID user) live
      then Some ''device limit exceeded''
      else None)"

definition spec_Check :: "limiter \<Rightarrow> conn_meta list \<Rightarrow> conn_meta \<Rightarrow> gotime \<Rightarrow> limit_decision" where
  "spec_Check l live m now =
     (case user_key m of
        None \<Rightarrow> deny ''missing user''
      | Some u \<Rightarrow>
          (case map_of (userByName l) u of
             None \<Rightarrow> deny ''unknown user''
           | Some user \<Rightarrow>
               (case spec_reason l live u user (ip_key m) now of
                  Some why \<Rightarrow> deny why
                | None \<Rightarrow> allowed)))"

lemma set_live_ips: "set (live_ips u live) = {k. pairs_with u k live \<noteq> []}"
  by (force simp: live_ips_def set_conns_with pairs_with_def filter_empty_conv
      List.map_filter_def image_iff simp del: user_key_Some ip_key_Some)

lemma counts_clean_keys:
  assumes "counts_clean cnt"
  shows "k \<in> fst ` set (gget [] cnt u) \<longleftrightarrow> 0 < gget 0 (gget [] cnt u) k"
  using counts_cleanD(2) [OF assms, of u k] map_of_in_keys [of "gget [] cnt u" k]
  by (auto simp: gget_def [of 0] split: option.splits)

lemma currentUserIPs_live:
  assumes "limiter_rep l live"
  shows "set (currentUserIPs l u) = set (live_ips u live)" and "distinct (currentUserIPs l u)"
    and "length (currentUserIPs l u) = length (live_ips u live)"
proof -
  let ?inner = "gget [] (activeIPsCount l) u"
  have rep: "counts_rep live (activeIPsCount l)" using assms by (simp add: limiter_rep_def)
  then have clean: "counts_clean (activeIPsCount l)" by (simp add: counts_rep_def)
  show d: "distinct (currentUserIPs l u)"
    using counts_cleanD(1) [OF clean, of u] by (simp add: currentUserIPs_def gomap_ok_def)
  have "k \<in> fst ` set ?inner \<longleftrightarrow> pairs_with u k live \<noteq> []" for k
    using rep counts_clean_keys [OF clean, of k u] by (simp add: counts_rep_def)
  then show s: "set (currentUserIPs l u) = set (live_ips u live)"
    by (auto simp: currentUserIPs_def set_live_ips)
  show "length (currentUserIPs l u) = length (live_ips u live)"
    using d s by (metis distinct_card distinct_remdups live_ips_def)
qed

lemma fst_checkCPS: "fst (checkCPS w idx key limit now) = cps_admits w idx key limit now"
  by (auto simp: checkCPS_def cps_admits_def split: option.splits)

lemma fst_and_then:
  "fst (and_then r g) = (case fst r of Some why \<Rightarrow> Some why | None \<Rightarrow> fst (g (snd r)))"
  by (auto simp: and_then_def split: prod.splits option.splits)

lemma snd_and_then_None: "fst r = None \<Longrightarrow> snd (and_then r g) = snd (g (snd r))"
  by (auto simp: and_then_def split: prod.splits)

lemma guard_new_per_user_fst:
  "fst (guard_new_per_user u now l) =
     (if 0 < maxNewConnPerUser l \<and> \<not> cps_admits (window l) (recentConnByUser l) u (maxNewConnPerUser l) now
      then Some ''new connections per user limit exceeded'' else None)"
  using fst_checkCPS [of "window l" "recentConnByUser l" u "maxNewConnPerUser l" now]
  by (auto simp: guard_new_per_user_def split: prod.splits)

lemma guard_new_per_user_snd: "\<exists>x. snd (guard_new_per_user u now l) = l\<lparr>recentConnByUser := x\<rparr>"
  by (auto simp: guard_new_per_user_def split: prod.splits intro: exI [of _ "recentConnByUser l"])

lemma guard_new_per_ip_fst:
  "fst (guard_new_per_ip k now l) =
     (if k \<noteq> [] \<and> 0 < maxNewConnPerIP l \<and> \<not> cps_admits (window l) (recentConnByIP l) k (maxNewConnPerIP l) now
      then Some ''new connections per ip limit exceeded'' else None)"
  using fst_checkCPS [of "window l" "recentConnByIP l" k "maxNewConnPerIP l" now]
  by (auto simp: guard_new_per_ip_def split: prod.splits)

lemma guard_new_per_ip_snd: "\<exists>x. snd (guard_new_per_ip k now l) = l\<lparr>recentConnByIP := x\<rparr>"
  by (auto simp: guard_new_per_ip_def split: prod.splits intro: exI [of _ "recentConnByIP l"])

lemma guard_active_per_user_fst:
  assumes "limiter_rep l live"
  shows "fst (guard_active_per_user u l) =
     (if 0 < maxConnPerUser l \<and> maxConnPerUser l \<le> int (length (conns_with user_key u live))
      then Some ''active connections per user limit exceeded'' else None)"
  using assms idx_rep_length [of user_key live "activeConnByUser l" u]
    fst_ensureConnMap [of "activeConnByUser l" u]
  by (auto simp: guard_active_per_user_def limiter_rep_def simp del: fst_ensureConnMap split: prod.splits)

lemma guard_active_per_user_snd: "\<exists>x. snd (guard_active_per_user u l) = l\<lparr>activeConnByUser := x\<rparr>"
  by (auto simp: guard_active_per_user_def split: prod.splits intro: exI [of _ "activeConnByUser l"])

lemma guard_active_per_ip_fst:
  assumes "limiter_rep l live"
  shows "fst (guard_active_per_ip k l) =
     (if k \<noteq> [] \<and> 0 < maxConnPerIP l \<and> maxConnPerIP l \<le> int (length (conns_with ip_key k live))
      then Some ''active connections per ip limit exceeded'' else None)"
  using assms idx_rep_length [of ip_key live "activeConnByIP l" k]
    fst_ensureConnMap [of "activeConnByIP l" k]
  by (auto simp: guard_active_per_ip_def limiter_rep_def simp del: fst_ensureConnMap split: prod.splits)

lemma guard_active_per_ip_snd: "\<exists>x. snd (guard_active_per_ip k l) = l\<lparr>activeConnByIP := x\<rparr>"
  by (auto simp: guard_active_per_ip_def split: prod.splits intro: exI [of _ "activeConnByIP l"])

lemma currentDeviceCount_seen:
  assumes "limiter_rep l live"
  shows "currentDeviceCount l u uid True (currentUserIPs l u) = devices_seen l u uid live"
  using currentUserIPs_live(3) [OF assms, of u]
  by (simp add: currentDeviceCount_def devices_seen_def Let_def)

lemma known_ip_device_known:
  "limiter_rep l live \<Longrightarrow> known_ip l u uid k = device_known l u uid live k"
  using currentUserIPs_live(1) [of l live u] by (auto simp: known_ip_def device_known_def containsIP_def)

lemma guard_devices_fst:
  assumes "limiter_rep l live"
  shows "fst (guard_devices u user k l) =
     (if k \<noteq> [] \<and> 0 < uDeviceLimit user \<and> \<not> device_known l u (uID user) live k
         \<and> uDeviceLimit user \<le> devices_seen l u (uID user) live
      then Some ''device limit exceeded'' else None)"
  using assms
  by (auto simp: guard_devices_def known_ip_device_known currentDeviceCount_seen)

lemma run_guards_chain:
  fixes u user k now l
  defines "l1 \<equiv> snd (guard_new_per_user u now l)"
  defines "l2 \<equiv> snd (guard_new_per_ip k now l1)"
  defines "l3 \<equiv> snd (guard_active_per_user u l2)"
  defines "l4 \<equiv> snd (guard_active_per_ip k l3)"
  shows "fst (run_guards u user k now l) =
     (case fst (guard_new_per_user u now l) of Some w \<Rightarrow> Some w | None \<Rightarrow>
      case fst (guard_new_per_ip k now l1) of Some w \<Rightarrow> Some w | None \<Rightarrow>
      case fst (guard_active_per_user u l2) of Some w \<Rightarrow> Some w | None \<Rightarrow>
      case fst (guard_active_per_ip k l3) of Some w \<Rightarrow> Some w | None \<Rightarrow>
      fst (guard_devices u user k l4))"
    and "fst (guard_new_per_user u now l) = None \<Longrightarrow> fst (guard_new_per_ip k now l1) = None \<Longrightarrow>
      fst (guard_active_per_user u l2) = None \<Longrightarrow> fst (guard_active_per_ip k l3) = None \<Longrightarrow>
      snd (run_guards u user k now l) = l4"
  unfolding run_guards_def l1_def l2_def l3_def l4_def
  by (simp_all add: fst_and_then snd_and_then_None split: option.split)

lemma run_guards_fst:
  assumes rep: "limiter_rep l live" and ne: "ip \<noteq> Some []"
  shows "fst (run_guards u user (case ip of None \<Rightarrow> [] | Some k \<Rightarrow> k) now l) =
     spec_reason l live u user ip now"
proof -
  let ?k = "case ip of None \<Rightarrow> [] | Some k \<Rightarrow> k"
  define l1 where "l1 = snd (guard_new_per_user u now l)"
  define l2 where "l2 = snd (guard_new_per_ip ?k now l1)"
  define l3 where "l3 = snd (guard_active_per_user u l2)"
  define l4 where "l4 = snd (guard_active_per_ip ?k l3)"
  obtain x1 where 1: "l1 = l\<lparr>recentConnByUser := x1\<rparr>"
    using guard_new_per_user_snd unfolding l1_def by blast
  obtain x2 where 2: "l2 = l1\<lparr>recentConnByIP := x2\<rparr>"
    using guard_new_per_ip_snd unfolding l2_def by blast
  obtain x3 where 3: "l3 = l2\<lparr>activeConnByUser := x3\<rparr>"
    using guard_active_per_user_snd unfolding l3_def by blast
  obtain x4 where 4: "l4 = l3\<lparr>activeConnByIP := x4\<rparr>"
    using guard_active_per_ip_snd unfolding l4_def by blast
  have rep1: "limiter_rep l1 live" using rep unfolding l1_def by (rule guard_new_per_user_rep)
  have rep2: "limiter_rep l2 live" using rep1 unfolding l2_def by (rule guard_new_per_ip_rep)
  have rep3: "limiter_rep l3 live" using rep2 unfolding l3_def by (rule guard_active_per_user_rep)
  have rep4: "limiter_rep l4 live" using rep3 unfolding l4_def by (rule guard_active_per_ip_rep)
  have same: "maxNewConnPerIP l1 = maxNewConnPerIP l" "window l1 = window l"
    "recentConnByIP l1 = recentConnByIP l" "maxConnPerUser l2 = maxConnPerUser l"
    "maxConnPerIP l3 = maxConnPerIP l"
    "device_known l4 = device_known l" "devices_seen l4 = devices_seen l"
    by (auto simp: fun_eq_iff device_known_def devices_seen_def 1 2 3 4)
  note chain = run_guards_chain(1) [where u = u and user = user and k = ?k and now = now and l = l,
      folded l1_def, folded l2_def, folded l3_def, folded l4_def]
  show ?thesis
    unfolding chain
    guard_new_per_user_fst guard_new_per_ip_fst guard_active_per_user_fst [OF rep2]
      guard_active_per_ip_fst [OF rep3] guard_devices_fst [OF rep4] same spec_reason_def
    using ne by (cases ip) simp_all
qed

lemma limiter_Check_fst:
  "fst (limiter_Check l m now) =
     (case user_key m of
        None \<Rightarrow> deny ''missing user''
      | Some u \<Rightarrow>
          (case map_of (userByName l) u of
             None \<Rightarrow> deny ''unknown user''
           | Some user \<Rightarrow>
               (case fst (run_guards u user (case ip_key m of None \<Rightarrow> [] | Some k \<Rightarrow> k) now l) of
                  Some why \<Rightarrow> deny why
                | None \<Rightarrow> allowed)))"
  by (simp add: limiter_Check_def user_key_def ip_key_def Let_def split: option.split prod.split)

text \<open>
  C1: \<open>Check\<close> decides as the specification says. In every state that represents a list of
  live connections, the verdict and the reason are those computed from the list: the
  per-minute limits, the numbers of live connections of the user and of the address, and
  the device limit over the distinct live addresses, in this order.
\<close>

theorem limiter_Check_refines:
  assumes "limiter_rep l live"
  shows "fst (limiter_Check l m now) = spec_Check l live m now"
proof -
  have "ip_key m \<noteq> Some []" by simp
  note reason = run_guards_fst [OF assms this]
  show ?thesis by (simp only: limiter_Check_fst spec_Check_def reason)
qed

section \<open>Histories of admissions\<close>

text \<open>
  The events that reach a limiter: a connection that arrives (checked, and registered when
  allowed), one that ends, a new user list, a new alive list, an alive report. The list
  that accompanies the state is the record of who is connected.
\<close>

datatype admission =
    Admit conn_meta gotime
  | Leave conn_meta
  | SetUsers gotime "panel_user list"
  | SetAlive alive_list
  | ReportAlive

fun admission_step :: "limiter \<times> conn_meta list \<Rightarrow> admission \<Rightarrow> limiter \<times> conn_meta list" where
  "admission_step (l, live) (Admit m now) =
     (case limiter_Check l m now of
        (d, l') \<Rightarrow> if Allow d then (limiter_Register l' m, m # live) else (l', live))"
| "admission_step (l, live) (Leave m) = (limiter_Unregister l m, drop_conn m live)"
| "admission_step (l, live) (SetUsers now users) = (UpdateUsers now users l, live)"
| "admission_step (l, live) (SetAlive alive) = (UpdateAliveList alive l, live)"
| "admission_step (l, live) ReportAlive = (snd (BuildAlivePayload l), live)"

text \<open>Connection ids are not reused while in use, and only live connections leave.\<close>

fun admission_ok :: "limiter \<times> conn_meta list \<Rightarrow> admission \<Rightarrow> bool" where
  "admission_ok (l, live) (Admit m now) = (ConnID m \<notin> ConnID ` set live)"
| "admission_ok (l, live) (Leave m) = (m \<in> set live)"
| "admission_ok (l, live) _ = True"

definition within_limits :: "limiter_config \<Rightarrow> limiter \<times> conn_meta list \<Rightarrow> bool" where
  "within_limits cfg s \<longleftrightarrow>
     limiter_rep (fst s) (snd s) \<and>
     maxConnPerUser (fst s) = MaxConnPerUser cfg \<and> maxConnPerIP (fst s) = MaxConnPerIP cfg \<and>
     (0 < MaxConnPerUser cfg \<longrightarrow>
        (\<forall>u. int (length (conns_with user_key u (snd s))) \<le> MaxConnPerUser cfg)) \<and>
     (0 < MaxConnPerIP cfg \<longrightarrow>
        (\<forall>k. int (length (conns_with ip_key k (snd s))) \<le> MaxConnPerIP cfg))"

lemma limiter_rep_cong:
  "activeConnByUser l' = activeConnByUser l \<Longrightarrow> activeConnByIP l' = activeConnByIP l \<Longrightarrow>
   activeIPsCount l' = activeIPsCount l \<Longrightarrow> limiter_rep l' live = limiter_rep l live"
  by (simp add: limiter_rep_def)

lemma UpdateUsers_frame [simp]:
  "activeConnByUser (UpdateUsers now users l) = activeConnByUser l"
  "activeConnByIP (UpdateUsers now users l) = activeConnByIP l"
  "activeIPsCount (UpdateUsers now users l) = activeIPsCount l"
  "maxConnPerUser (UpdateUsers now users l) = maxConnPerUser l"
  "maxConnPerIP (UpdateUsers now users l) = maxConnPerIP l"
  by (simp_all add: UpdateUsers_def split: prod.splits)

lemma UpdateAliveList_frame [simp]:
  "activeConnByUser (UpdateAliveList alive l) = activeConnByUser l"
  "activeConnByIP (UpdateAliveList alive l) = activeConnByIP l"
  "activeIPsCount (UpdateAliveList alive l) = activeIPsCount l"
  "maxConnPerUser (UpdateAliveList alive l) = maxConnPerUser l"
  "maxConnPerIP (UpdateAliveList alive l) = maxConnPerIP l"
  by (simp_all add: UpdateAliveList_def)

lemma BuildAlivePayload_frame [simp]:
  "activeConnByUser (snd (BuildAlivePayload l)) = activeConnByUser l"
  "activeConnByIP (snd (BuildAlivePayload l)) = activeConnByIP l"
  "activeIPsCount (snd (BuildAlivePayload l)) = activeIPsCount l"
  "maxConnPerUser (snd (BuildAlivePayload l)) = maxConnPerUser l"
  "maxConnPerIP (snd (BuildAlivePayload l)) = maxConnPerIP l"
  by (simp_all add: BuildAlivePayload_def split: prod.splits)

lemma limits_Register [simp]:
  "maxConnPerUser (limiter_Register l m) = maxConnPerUser l"
  "maxConnPerIP (limiter_Register l m) = maxConnPerIP l"
  by (simp_all add: limiter_Register_def Let_def)

lemma limits_Unregister [simp]:
  "maxConnPerUser (limiter_Unregister l m) = maxConnPerUser l"
  "maxConnPerIP (limiter_Unregister l m) = maxConnPerIP l"
  by (simp_all add: limiter_Unregister_def Let_def)

definition same_limits :: "limiter \<Rightarrow> limiter \<Rightarrow> bool" where
  "same_limits l0 l \<longleftrightarrow> maxConnPerUser l = maxConnPerUser l0 \<and> maxConnPerIP l = maxConnPerIP l0
     \<and> maxNewConnPerUser l = maxNewConnPerUser l0 \<and> maxNewConnPerIP l = maxNewConnPerIP l0
     \<and> window l = window l0 \<and> userByName l = userByName l0"

lemma run_guards_limits: "same_limits l (snd (run_guards u user k now l))"
  unfolding run_guards_def
  by (intro snd_and_then [where P = "same_limits l"])
    (auto simp: same_limits_def guard_new_per_user_def guard_new_per_ip_def
      guard_active_per_user_def guard_active_per_ip_def split: prod.splits)

lemma limiter_Check_limits: "same_limits l (snd (limiter_Check l m now))"
  using run_guards_limits [of l]
  by (auto simp: limiter_Check_def Let_def same_limits_def split: option.splits prod.splits)
    (metis snd_conv)+

lemma spec_Check_allowed:
  assumes "Allow (spec_Check l live m now)"
  shows "user_key m = Some u \<Longrightarrow> 0 < maxConnPerUser l \<Longrightarrow>
       int (length (conns_with user_key u live)) < maxConnPerUser l"
    and "ip_key m = Some k \<Longrightarrow> 0 < maxConnPerIP l \<Longrightarrow>
       int (length (conns_with ip_key k live)) < maxConnPerIP l"
  using assms
  by (auto simp: spec_Check_def spec_reason_def deny_def not_le
      simp del: user_key_Some ip_key_Some split: option.splits if_splits)

lemma conns_with_drop_le: "length (conns_with key k (drop_conn m live)) \<le> length (conns_with key k live)"
  by (induction live) (auto simp: drop_conn_def)

lemma conns_with_drop_bound:
  "int (length (conns_with key k live)) \<le> n \<Longrightarrow> int (length (conns_with key k (drop_conn m live))) \<le> n"
  using conns_with_drop_le [of key k m live] by linarith

lemma admit_within:
  assumes inv: "within_limits cfg (l, live)" and fresh: "ConnID m \<notin> ConnID ` set live"
  shows "within_limits cfg (admission_step (l, live) (Admit m now))"
proof -
  obtain d l' where check: "limiter_Check l m now = (d, l')" by (cases "limiter_Check l m now")
  have rep: "limiter_rep l live" using inv by (simp add: within_limits_def)
  have rep': "limiter_rep l' live" using limiter_Check_rep [OF rep, of m now] check by simp
  have lim: "same_limits l l'" using limiter_Check_limits [of l m now] check by simp
  show ?thesis
  proof (cases "Allow d")
    case False
    with inv rep' lim check show ?thesis by (simp add: within_limits_def same_limits_def)
  next
    case True
    then have spec: "Allow (spec_Check l live m now)"
      using limiter_Check_refines [OF rep, of m now] check by simp
    have "fresh_conn live m"
      using True fresh check limiter_Check_named [of l m now] by (simp add: fresh_conn_def)
    with rep' have "limiter_rep (limiter_Register l' m) (m # live)" by (rule limiter_Register_rep)
    moreover have "0 < MaxConnPerUser cfg \<Longrightarrow> int (length (conns_with user_key u (m # live))) \<le> MaxConnPerUser cfg" for u
      using inv spec_Check_allowed(1) [OF spec, of u]
      by (auto simp: within_limits_def simp del: user_key_Some)
    moreover have "0 < MaxConnPerIP cfg \<Longrightarrow> int (length (conns_with ip_key k (m # live))) \<le> MaxConnPerIP cfg" for k
      using inv spec_Check_allowed(2) [OF spec, of k]
      by (auto simp: within_limits_def simp del: ip_key_Some)
    ultimately show ?thesis
      using True check inv lim by (simp add: within_limits_def same_limits_def)
  qed
qed

lemma leave_within:
  assumes "within_limits cfg (l, live)" and "m \<in> set live"
  shows "within_limits cfg (admission_step (l, live) (Leave m))"
  using assms limiter_Unregister_rep [of l live m]
  by (auto simp: within_limits_def intro: conns_with_drop_bound)

lemma admission_step_within:
  assumes "within_limits cfg s" and "admission_ok s e"
  shows "within_limits cfg (admission_step s e)"
proof (cases s)
  case (Pair l live)
  show ?thesis
  proof (cases e)
    case (Admit m now)
    with assms Pair show ?thesis by (metis admission_ok.simps(1) admit_within)
  next
    case (Leave m)
    with assms Pair show ?thesis by (metis admission_ok.simps(2) leave_within)
  qed (use assms Pair in \<open>auto simp: within_limits_def limiter_rep_def\<close>)
qed

interpretation adm: stepper admission_step "within_limits cfg" admission_ok for cfg
  by unfold_locales (rule admission_step_within)

lemma within_limits_New: "within_limits cfg (NewLimiterWithConfig cfg, [])"
  unfolding within_limits_def by (simp add: NewLimiterWithConfig_def limiter_rep_def)


section \<open>What the code does not guarantee\<close>

text \<open>
  Checking and registering are two critical sections, and nothing reserves the place in
  between. When a user has one place left and two connections are both checked before
  either is registered, both are allowed and the user ends up one above \<open>maxConnPerUser\<close>.
\<close>

theorem concurrent_checks_overshoot:
  assumes rep: "limiter_rep l live"
    and fresh: "fresh_conn live m1" "fresh_conn (m1 # live) m2"
    and user: "user_key m1 = Some u" "user_key m2 = Some u"
    and allow: "Allow (fst (limiter_Check l m1 t1))"
      "Allow (fst (limiter_Check (snd (limiter_Check l m1 t1)) m2 t2))"
    and one_left: "int (length (conns_with user_key u live)) = maxConnPerUser l - 1"
    and l': "l' = limiter_Register (limiter_Register
               (snd (limiter_Check (snd (limiter_Check l m1 t1)) m2 t2)) m1) m2"
  shows "limiter_rep l' (m2 # m1 # live)
    \<and> int (length (gget [] (activeConnByUser l') u)) = maxConnPerUser l' + 1"
proof -
  have rep': "limiter_rep l' (m2 # m1 # live)"
    unfolding l' by (intro limiter_Register_rep limiter_Check_rep rep fresh)
  have "maxConnPerUser l' = maxConnPerUser l"
    using limiter_Check_limits [of l m1 t1]
      limiter_Check_limits [of "snd (limiter_Check l m1 t1)" m2 t2]
    by (simp add: l' same_limits_def)
  moreover have "length (gget [] (activeConnByUser l') u) = length (conns_with user_key u (m2 # m1 # live))"
    using rep' unfolding limiter_rep_def by (blast intro: idx_rep_length)
  ultimately show ?thesis using rep' user one_left by (simp del: user_key_Some)
qed

lemma refused_device_state:
  assumes "fst (run_guards u user k now l) = Some ''device limit exceeded''"
    and "k \<noteq> []" and "0 < maxConnPerIP l"
  shows "activeConnByIP (snd (run_guards u user k now l)) = snd (ensureConnMap (activeConnByIP l) k)"
proof -
  define l1 where "l1 = snd (guard_new_per_user u now l)"
  define l2 where "l2 = snd (guard_new_per_ip k now l1)"
  define l3 where "l3 = snd (guard_active_per_user u l2)"
  have frame: "activeConnByIP l3 = activeConnByIP l" "maxConnPerIP l3 = maxConnPerIP l"
    using guard_new_per_user_snd [of u now l] guard_new_per_ip_snd [of k now l1]
      guard_active_per_user_snd [of u l2]
    by (auto simp: l1_def [symmetric] l2_def [symmetric] l3_def [symmetric])
  have other: "fst (guard_new_per_user u now l) \<noteq> Some ''device limit exceeded''"
    "fst (guard_new_per_ip k now l1) \<noteq> Some ''device limit exceeded''"
    "fst (guard_active_per_user u l2) \<noteq> Some ''device limit exceeded''"
    "fst (guard_active_per_ip k l3) \<noteq> Some ''device limit exceeded''"
    by (auto simp: guard_new_per_user_fst guard_new_per_ip_fst guard_active_per_user_def
        guard_active_per_ip_def split: prod.splits)
  note chain = run_guards_chain [where u = u and user = user and k = k and now = now and l = l, folded l1_def, folded l2_def, folded l3_def]
  have "snd (run_guards u user k now l) = snd (guard_active_per_ip k l3)"
    using assms(1) other unfolding chain(1)
    by (intro chain(2)) (auto split: option.splits)
  then show ?thesis
    using assms(2,3) frame by (auto simp: guard_active_per_ip_def split: prod.splits)
qed

text \<open>
  A refused connection leaves an entry behind. When the device limit refuses a new
  address while \<open>maxConnPerIP\<close> is in force, the address stays in the index with no
  connection: nobody more is connected, yet the snapshot counts one more active address.
\<close>

theorem refused_address_stays:
  assumes rep: "limiter_rep l live"
    and k: "ip_key m = Some k" and new: "map_of (activeConnByIP l) k = None"
    and lim: "0 < maxConnPerIP l"
    and refused: "fst (limiter_Check l m now) = deny ''device limit exceeded''"
  shows "limiter_rep (snd (limiter_Check l m now)) live
    \<and> map_of (activeConnByIP (snd (limiter_Check l m now))) k = Some []
    \<and> snActiveIPs (limiter_Snapshot (snd (limiter_Check l m now))) = Suc (snActiveIPs (limiter_Snapshot l))"
proof -
  have kk: "k \<noteq> []" "(if addr_IsValid (SourceIP m) then addr_String (SourceIP m) else []) = k"
    using k by auto
  obtain user where "snd (limiter_Check l m now) = snd (run_guards (TrimSpace (connUser m)) user k now l)"
    and "fst (run_guards (TrimSpace (connUser m)) user k now l) = Some ''device limit exceeded''"
    using refused unfolding limiter_Check_def kk(2)
    by (auto simp: Let_def deny_def allowed_def split: if_splits option.splits prod.splits)
       (metis fst_conv snd_conv)
  then have "activeConnByIP (snd (limiter_Check l m now)) = snd (ensureConnMap (activeConnByIP l) k)"
    using refused_device_state kk(1) lim by metis
  moreover have "k \<notin> fst ` set (activeConnByIP l)" using new by (simp add: map_of_eq_None_iff)
  ultimately show ?thesis
    using limiter_Check_rep [OF rep] new
    by (simp add: ensureConnMap_def update_fresh limiter_Snapshot_def map_add_Some_iff)
qed

section \<open>A concrete limiter, for the examples\<close>

definition demo_cfg :: limiter_config where
  "demo_cfg = \<lparr>MaxConnPerUser = 2, MaxConnPerIP = 2, MaxNewConnPerUserPerMin = 9, MaxNewConnPerIPPerMin = 9\<rparr>"

definition demo_user :: panel_user where
  "demo_user = \<lparr>uID = 1, uUUID = ''u'', uSpeedLimit = 10, uDeviceLimit = 1\<rparr>"

definition demo_conn :: "string \<Rightarrow> 32 word \<Rightarrow> conn_meta" where
  "demo_conn cid ip = \<lparr>ConnID = cid, connUser = ''user-1'', SourceIP = AddrV4 ip, StartedAt = 5\<rparr>"

definition demo_empty :: limiter where
  "demo_empty = UpdateUsers 5 [demo_user] (NewLimiterWithConfig demo_cfg)"

definition demo_limiter :: limiter where
  "demo_limiter = limiter_Register demo_empty (demo_conn ''1'' 0x01010101)"

lemma demo_name: "TrimSpace ''user-1'' = ''user-1''" "limiterUserName 1 = ''user-1''"
  by (simp_all add: TrimSpace_id ascii_space_def space2_def space3_def limiterUserName_def
      Itoa_def digits_eval)

lemma demo_keys [simp]:
  "user_key (demo_conn cid ip) = Some ''user-1''"
  "ip_key (demo_conn cid ip) = Some (v4_string ip)"
  "ConnID (demo_conn cid ip) = cid"
  by (simp_all add: demo_conn_def demo_name)

lemma demo_strings [simp]:
  "v4_string 0x01010101 = ''1.1.1.1''" "v4_string 0x02020202 = ''2.2.2.2''"
  by (simp_all add: v4_string_def v4_byte_def digits_eval)

lemma demo_empty_fields [simp]:
  "userByName demo_empty = [(''user-1'', demo_user)]"
  "recentConnByUser demo_empty = []" "recentConnByIP demo_empty = []"
  "activeConnByUser demo_empty = []" "activeConnByIP demo_empty = []" "activeIPsCount demo_empty = []"
  "oldUserOnline demo_empty = []" "remoteUserOnline demo_empty = []" "aliveList demo_empty = []"
  "maxConnPerUser demo_empty = 2" "maxConnPerIP demo_empty = 2"
  "maxNewConnPerUser demo_empty = 9" "maxNewConnPerIP demo_empty = 9"
  "window demo_empty = 60000000000"
  by (simp_all add: demo_empty_def UpdateUsers_def update_user_step_def Let_def demo_user_def
      demo_name sweep_rates_def NewLimiterWithConfig_def demo_cfg_def defaultLimiterWindow_def
      second_ns_def)

lemma demo_empty_rep [simp]: "limiter_rep demo_empty []"
  by (simp add: limiter_rep_def)

lemma demo_rep: "limiter_rep demo_limiter [demo_conn ''1'' 0x01010101]"
  unfolding demo_limiter_def
  by (rule limiter_Register_rep) (simp_all add: fresh_conn_def del: user_key_Some)

lemma demo_limiter_frame [simp]:
  "userByName demo_limiter = userByName demo_empty"
  "recentConnByUser demo_limiter = []" "recentConnByIP demo_limiter = []"
  "oldUserOnline demo_limiter = []" "remoteUserOnline demo_limiter = []" "aliveList demo_limiter = []"
  "maxConnPerUser demo_limiter = 2" "maxConnPerIP demo_limiter = 2"
  "maxNewConnPerUser demo_limiter = 9" "maxNewConnPerIP demo_limiter = 9"
  by (simp_all add: demo_limiter_def limiter_Register_def Let_def)

theorem limiter_Check_refines_witness:
  "limiter_rep demo_limiter [demo_conn ''1'' 0x01010101]
    \<and> fst (limiter_Check demo_limiter (demo_conn ''2'' 0x02020202) 6) = deny ''device limit exceeded''"
proof
  show rep: "limiter_rep demo_limiter [demo_conn ''1'' 0x01010101]" by (rule demo_rep)
  have live: "live_ips ''user-1'' [demo_conn ''1'' 0x01010101] = [''1.1.1.1'']"
    by (simp add: live_ips_def List.map_filter_def del: user_key_Some ip_key_Some)
  show "fst (limiter_Check demo_limiter (demo_conn ''2'' 0x02020202) 6) = deny ''device limit exceeded''"
    unfolding limiter_Check_refines [OF rep]
    by (simp add: spec_Check_def spec_reason_def cps_admits_def demo_user_def
        device_known_def devices_seen_def live del: user_key_Some ip_key_Some)
qed


lemmas check_eval = limiter_Check_def Let_def run_guards_def and_then_def guard_new_per_user_def
  guard_new_per_ip_def guard_active_per_user_def guard_active_per_ip_def guard_devices_def
  checkCPS_def ensureConnMap_def known_ip_def containsIP_def currentUserIPs_def
  currentDeviceCount_def time_Sub_def minInt64_def maxInt64_def

lemma demo_limiter_indexes [simp]:
  "activeConnByUser demo_limiter = [(''user-1'', [(''1'', demo_conn ''1'' 0x01010101)])]"
  "activeConnByIP demo_limiter = [(''1.1.1.1'', [(''1'', demo_conn ''1'' 0x01010101)])]"
  "activeIPsCount demo_limiter = [(''user-1'', [(''1.1.1.1'', 1)])]"
  "window demo_limiter = 60000000000"
  by (simp_all add: demo_limiter_def limiter_Register_def Let_def demo_conn_def demo_name
      put_conn_def count_up_def ensureConnMap_def)

theorem refused_address_stays_witness:
  "map_of (activeConnByIP (snd (limiter_Check demo_limiter (demo_conn ''2'' 0x02020202) 6))) ''2.2.2.2'' = Some []"
proof -
  have refused: "fst (limiter_Check demo_limiter (demo_conn ''2'' 0x02020202) 6) = deny ''device limit exceeded''"
    by (simp add: check_eval demo_conn_def demo_name demo_user_def currentDeviceCount_def)
  have "ip_key (demo_conn ''2'' 0x02020202) = Some ''2.2.2.2''" by (simp del: ip_key_Some)
  from refused_address_stays [OF demo_rep this _ _ refused] show ?thesis by simp
qed

theorem concurrent_checks_overshoot_witness:
  "\<exists>l m1 m2 live. limiter_rep l live \<and> Allow (fst (limiter_Check l m1 6))
     \<and> Allow (fst (limiter_Check (snd (limiter_Check l m1 6)) m2 6))
     \<and> maxConnPerUser l = 2
     \<and> int (length (gget [] (activeConnByUser (limiter_Register (limiter_Register
         (snd (limiter_Check (snd (limiter_Check l m1 6)) m2 6)) m1) m2)) ''user-1'')) = 3"
proof -
  let ?m1 = "demo_conn ''2'' 0x01010101" and ?m2 = "demo_conn ''3'' 0x01010101"
  let ?l = demo_limiter and ?live = "[demo_conn ''1'' 0x01010101]"
  have allow: "Allow (fst (limiter_Check ?l ?m1 6))"
    "Allow (fst (limiter_Check (snd (limiter_Check ?l ?m1 6)) ?m2 6))"
    by (simp_all add: check_eval demo_conn_def demo_name demo_user_def allowed_def)
  have fresh: "fresh_conn ?live ?m1" "fresh_conn (?m1 # ?live) ?m2"
    by (simp_all add: fresh_conn_def del: user_key_Some)
  have "maxConnPerUser (limiter_Register (limiter_Register
         (snd (limiter_Check (snd (limiter_Check ?l ?m1 6)) ?m2 6)) ?m1) ?m2) = 2"
    using limiter_Check_limits [of ?l ?m1 6] limiter_Check_limits [of "snd (limiter_Check ?l ?m1 6)" ?m2 6]
    by (simp add: same_limits_def)
  then show ?thesis
    using concurrent_checks_overshoot [OF demo_rep fresh _ _ allow _ refl, of "''user-1''"] allow demo_rep
    by (intro exI [of _ ?l] exI [of _ ?m1] exI [of _ ?m2] exI [of _ ?live]) (simp del: user_key_Some)
qed

end
