(* ===== verification/Limiter_Rates.thy ===== *)
theory Limiter_Rates
  imports Limiter_Spec
begin

text \<open>
  The per-minute limits of the limiter and its token buckets.

  A key of \<open>recentConnByUser\<close> or \<open>recentConnByIP\<close> counts in fixed windows that start with
  the first connection. \<open>window_inv\<close> relates one entry to the number of connections it has
  let through in an interval of one window's length; it survives every check and the sweep
  of old entries, which bounds what any history of events lets through. The buckets are
  shown to have the rate of their user as long as reading and creating a bucket is not
  interrupted by a change of the users, and to keep a stale rate when it is.
\<close>

section \<open>One entry of a rate index\<close>

definition cps_pass :: "duration \<Rightarrow> int \<Rightarrow> gotime \<Rightarrow> rate_limiter option \<Rightarrow> bool" where
  "cps_pass w limit now e =
     (case e of None \<Rightarrow> True | Some rl \<Rightarrow> w \<le> time_Sub now (lastReset rl) \<or> rlCount rl < limit)"

definition cps_entry :: "duration \<Rightarrow> int \<Rightarrow> gotime \<Rightarrow> rate_limiter option \<Rightarrow> rate_limiter option" where
  "cps_entry w limit now e =
     (case e of
        None \<Rightarrow> Some \<lparr>lastReset = now, rlCount = 1\<rparr>
      | Some rl \<Rightarrow>
          if w \<le> time_Sub now (lastReset rl) then Some \<lparr>lastReset = now, rlCount = 1\<rparr>
          else if rlCount rl < limit then Some (rl\<lparr>rlCount := rlCount rl + 1\<rparr>) else Some rl)"

lemma checkCPS_entry:
  "fst (checkCPS w idx key limit now) = cps_pass w limit now (map_of idx key)"
  "map_of (snd (checkCPS w idx key limit now)) k =
     (if k = key then cps_entry w limit now (map_of idx k) else map_of idx k)"
  by (auto simp: checkCPS_def cps_pass_def cps_entry_def split: option.splits)

lemma gomap_ok_checkCPS: "gomap_ok idx \<Longrightarrow> gomap_ok (snd (checkCPS w idx key limit now))"
  by (auto simp: checkCPS_def split: option.splits)

text \<open>
  \<open>n\<close> connections went through in the interval from \<open>a\<close> (inclusive) to \<open>a + w\<close>
  (exclusive), and \<open>now\<close> is the time of the last event.
\<close>

definition window_inv :: "duration \<Rightarrow> int \<Rightarrow> gotime \<Rightarrow> rate_limiter option \<Rightarrow> nat \<Rightarrow> gotime \<Rightarrow> bool" where
  "window_inv w limit a e n now \<longleftrightarrow>
     int n \<le> 2 * limit - 1
     \<and> (now < a \<longrightarrow> n = 0)
     \<and> (case e of
          None \<Rightarrow> now < a + w \<longrightarrow> n = 0
        | Some rl \<Rightarrow>
            lastReset rl \<le> now \<and> 1 \<le> rlCount rl \<and> rlCount rl \<le> limit
            \<and> (now < a + w \<longrightarrow>
                 int n \<le> (if a \<le> lastReset rl then limit - 1 + rlCount rl else rlCount rl - 1)
                 \<and> (0 < n \<longrightarrow> a < lastReset rl + w)))"

lemma window_inv_start: "0 < limit \<Longrightarrow> window_inv w limit a None 0 now"
  by (simp add: window_inv_def)

lemma window_inv_later: "window_inv w limit a e n now \<Longrightarrow> now \<le> t \<Longrightarrow> window_inv w limit a e n t"
  by (auto simp: window_inv_def split: option.splits)

lemma window_inv_check:
  assumes inv: "window_inv w limit a e n now" and "now \<le> t"
    and w: "0 < w" "w \<le> maxInt64" and "0 < limit"
    and n': "n' \<le> (if cps_pass w limit t e \<and> a \<le> t \<and> t < a + w then Suc n else n)"
  shows "window_inv w limit a (cps_entry w limit t e) n' t"
proof -
  have inv': "window_inv w limit a e n t" using inv \<open>now \<le> t\<close> by (rule window_inv_later)
  have sub: "w \<le> time_Sub t u \<longleftrightarrow> w \<le> t - u" for u
    using w by (intro time_Sub_ge_iff) (auto simp: minInt64_def)
  show ?thesis
  proof (cases e)
    case None
    then show ?thesis
      using inv' n' w \<open>0 < limit\<close>
      by (auto simp: window_inv_def cps_entry_def cps_pass_def split: if_splits)
  next
    case (Some rl)
    consider (reset) "w \<le> t - lastReset rl"
      | (up) "t - lastReset rl < w" "rlCount rl < limit"
      | (full) "t - lastReset rl < w" "limit \<le> rlCount rl" by linarith
    then show ?thesis
    proof cases
      case reset
      then show ?thesis
        using inv' n' w \<open>0 < limit\<close> Some
        by (auto simp: window_inv_def cps_entry_def cps_pass_def sub split: if_splits)
    next
      case up
      then show ?thesis
        using inv' n' w \<open>0 < limit\<close> Some
        by (auto simp: window_inv_def cps_entry_def cps_pass_def sub split: if_splits)
    next
      case full
      then show ?thesis
        using inv' n' Some
        by (auto simp: window_inv_def cps_entry_def cps_pass_def sub split: if_splits)
    qed
  qed
qed

lemma window_inv_sweep:
  assumes inv: "window_inv w limit a e n now" and "now \<le> t"
    and w: "0 < w" "w * 2 < maxInt64"
  shows "window_inv w limit a
           (case e of None \<Rightarrow> None | Some rl \<Rightarrow> if \<not> time_Sub t (lastReset rl) > w * 2 then Some rl else None) n t"
proof -
  have sub: "w * 2 < time_Sub t u \<longleftrightarrow> w * 2 < t - u" for u
    using w by (intro time_Sub_gr_iff) (auto simp: minInt64_def)
  have "window_inv w limit a e n t" using inv \<open>now \<le> t\<close> by (rule window_inv_later)
  then show ?thesis
    using w unfolding window_inv_def sub by (auto split: option.splits if_splits)
qed

section \<open>Histories\<close>

text \<open>The instants at which the events of a history happen, for those that read the clock.\<close>

primrec event_time :: "admission \<Rightarrow> gotime list" where
  "event_time (Admit m now) = [now]"
| "event_time (Leave m) = []"
| "event_time (SetUsers now users) = [now]"
| "event_time (SetAlive alive) = []"
| "event_time ReportAlive = []"

definition event_times :: "admission list \<Rightarrow> gotime list" where
  "event_times es = concat (map event_time es)"

text \<open>How many connections filed under \<open>k\<close> are let in from \<open>a\<close> to before \<open>b\<close>.\<close>

definition lets_in ::
  "(conn_meta \<Rightarrow> string option) \<Rightarrow> string \<Rightarrow> gotime \<Rightarrow> gotime \<Rightarrow> limiter \<times> conn_meta list \<Rightarrow> admission \<Rightarrow> bool" where
  "lets_in key k a b s e =
     (case e of
        Admit m now \<Rightarrow> key m = Some k \<and> a \<le> now \<and> now < b \<and> Allow (fst (limiter_Check (fst s) m now))
      | _ \<Rightarrow> False)"

primrec let_in_count ::
  "(conn_meta \<Rightarrow> string option) \<Rightarrow> string \<Rightarrow> gotime \<Rightarrow> gotime \<Rightarrow> limiter \<times> conn_meta list \<Rightarrow> admission list \<Rightarrow> nat" where
  "let_in_count key k a b s [] = 0"
| "let_in_count key k a b s (e # es) =
     (if lets_in key k a b s e then 1 else 0) + let_in_count key k a b (admission_step s e) es"


section \<open>The two rate indexes\<close>

text \<open>
  What the two indexes have in common: a check consults the index under the key of the
  connection and lets it in only if the window has room, the update of the users sweeps the
  index, and nothing else touches it.
\<close>

locale rate_index =
  fixes idx :: "limiter \<Rightarrow> (string, rate_limiter) gomap"
    and lim :: "limiter \<Rightarrow> int"
    and key :: "conn_meta \<Rightarrow> string option"
  assumes check_effect: "0 < lim l \<Longrightarrow>
      idx (snd (limiter_Check l m now)) = idx l \<and> (key m = None \<or> \<not> Allow (fst (limiter_Check l m now)))
      \<or> (\<exists>k. key m = Some k
           \<and> idx (snd (limiter_Check l m now)) = snd (checkCPS (window l) (idx l) k (lim l) now)
           \<and> (Allow (fst (limiter_Check l m now)) \<longrightarrow> fst (checkCPS (window l) (idx l) k (lim l) now)))"
    and check_lim: "lim (snd (limiter_Check l m now)) = lim l"
    and users_effect: "idx (UpdateUsers now users l) = sweep_rates now (window l) (idx l)"
    and users_lim: "lim (UpdateUsers now users l) = lim l"
    and register: "idx (limiter_Register l m) = idx l" "lim (limiter_Register l m) = lim l"
    and unregister: "idx (limiter_Unregister l m) = idx l" "lim (limiter_Unregister l m) = lim l"
    and alive: "idx (UpdateAliveList al l) = idx l" "lim (UpdateAliveList al l) = lim l"
    and report: "idx (snd (BuildAlivePayload l)) = idx l" "lim (snd (BuildAlivePayload l)) = lim l"
begin

definition rate_inv :: "gotime \<Rightarrow> string \<Rightarrow> limiter \<Rightarrow> nat \<Rightarrow> gotime \<Rightarrow> bool" where
  "rate_inv a k l n now \<longleftrightarrow> gomap_ok (idx l) \<and> window l = defaultLimiterWindow \<and> 0 < lim l
     \<and> window_inv (window l) (lim l) a (map_of (idx l) k) n now"

lemma check_keeps:
  assumes inv: "rate_inv a k l n now" and "now \<le> t"
  shows "rate_inv a k (snd (limiter_Check l m t))
    ((if key m = Some k \<and> a \<le> t \<and> t < a + window l \<and> Allow (fst (limiter_Check l m t)) then 1 else 0) + n) t"
proof -
  let ?l' = "snd (limiter_Check l m t)" and ?allow = "Allow (fst (limiter_Check l m t))"
  have w: "window ?l' = window l" using limiter_Check_limits [of l m t] by (simp add: same_limits_def)
  have wi: "window_inv (window l) (lim l) a (map_of (idx l) k) n now" and pos: "0 < lim l"
    and "window l = defaultLimiterWindow"
    using inv unfolding rate_inv_def by blast+
  then have win: "0 < window l" "window l \<le> maxInt64"
    by (simp_all add: defaultLimiterWindow_def second_ns_def maxInt64_def)
  from check_effect [OF pos, of m t] consider
    (same) "idx ?l' = idx l" "key m = None \<or> \<not> ?allow"
    | (consult) k' where "key m = Some k'" "idx ?l' = snd (checkCPS (window l) (idx l) k' (lim l) t)"
        "?allow \<longrightarrow> fst (checkCPS (window l) (idx l) k' (lim l) t)" by blast
  then show ?thesis
  proof cases
    case same
    then show ?thesis
      using inv \<open>now \<le> t\<close> w by (auto simp: rate_inv_def check_lim intro: window_inv_later)
  next
    case consult
    show ?thesis
    proof (cases "k' = k")
      case True
      then show ?thesis
        using window_inv_check [OF wi \<open>now \<le> t\<close> win pos order_refl] consult inv w
          window_inv_check [OF wi \<open>now \<le> t\<close> win pos, of n]
        by (auto simp: rate_inv_def check_lim checkCPS_entry gomap_ok_checkCPS split: if_splits)
    next
      case False
      then show ?thesis
        using consult inv w \<open>now \<le> t\<close>
        by (auto simp: rate_inv_def check_lim checkCPS_entry gomap_ok_checkCPS intro: window_inv_later)
    qed
  qed
qed

lemma users_keep:
  assumes inv: "rate_inv a k l n now" and "now \<le> t"
  shows "rate_inv a k (UpdateUsers t users l) n t"
proof -
  have wi: "window_inv (window l) (lim l) a (map_of (idx l) k) n now" and ok: "gomap_ok (idx l)"
    and w: "window l = defaultLimiterWindow"
    using inv unfolding rate_inv_def by blast+
  from w have win: "0 < window l" "window l * 2 < maxInt64"
    by (simp_all add: defaultLimiterWindow_def second_ns_def maxInt64_def)
  have "window (UpdateUsers t users l) = window l" by (simp add: UpdateUsers_def split: prod.splits)
  then show ?thesis
    using inv window_inv_sweep [OF wi \<open>now \<le> t\<close> win]
    by (simp add: rate_inv_def users_effect users_lim sweep_rates_def map_of_filter_key [OF ok] w
        cong: option.case_cong if_cong)
qed

lemma window_frame:
  "window (limiter_Register l m) = window l" "window (limiter_Unregister l m) = window l"
  "window (UpdateAliveList al l) = window l" "window (snd (BuildAlivePayload l)) = window l"
  by (simp_all add: limiter_Register_def limiter_Unregister_def UpdateAliveList_def BuildAlivePayload_def
      Let_def split: prod.splits)

lemma rate_step:
  assumes inv: "rate_inv a k l n now" and times: "\<forall>t \<in> set (event_time e). now \<le> t"
    and s': "admission_step (l, live) e = (l', live')"
  shows "rate_inv a k l' ((if lets_in key k a (a + defaultLimiterWindow) (l, live) e then 1 else 0) + n)
     (case event_time e of [] \<Rightarrow> now | t # _ \<Rightarrow> t)"
proof (cases e)
  case (Admit m t)
  have "window l = defaultLimiterWindow" using inv by (simp add: rate_inv_def)
  moreover have "rate_inv a k l' i t \<longleftrightarrow> rate_inv a k (snd (limiter_Check l m t)) i t" for i
    using s' Admit by (auto simp: rate_inv_def register window_frame split: prod.splits if_splits)
  ultimately show ?thesis
    using check_keeps [OF inv, of t m] times Admit by (simp add: lets_in_def)
next
  case (SetUsers t users)
  then show ?thesis using users_keep [OF inv, of t users] times s' by (simp add: lets_in_def)
qed (use inv s' in \<open>auto simp: lets_in_def rate_inv_def unregister alive report window_frame\<close>)

lemma count_bound:
  assumes "rate_inv a k l n now" and "sorted (now # event_times es)"
  shows "int (let_in_count key k a (a + defaultLimiterWindow) (l, live) es) + int n \<le> 2 * lim l - 1"
  using assms
proof (induction es arbitrary: l live n now)
  case Nil
  then show ?case by (auto simp: rate_inv_def window_inv_def)
next
  case (Cons e es)
  obtain l' live' where s': "admission_step (l, live) e = (l', live')" by (rule prod.exhaust)
  let ?i = "if lets_in key k a (a + defaultLimiterWindow) (l, live) e then 1 else 0 :: nat"
  let ?now' = "case event_time e of [] \<Rightarrow> now | t # _ \<Rightarrow> t"
  have "rate_inv a k l' (?i + n) ?now'"
    using rate_step [OF Cons.prems(1) _ s'] Cons.prems(2) by (auto simp: event_times_def)
  moreover have "sorted (?now' # event_times es)"
    using Cons.prems(2) by (cases e) (auto simp: event_times_def)
  ultimately have "int (let_in_count key k a (a + defaultLimiterWindow) (l', live') es) + int (?i + n) \<le> 2 * lim l' - 1"
    by (rule Cons.IH)
  moreover have "lim l' = lim l"
    using s' by (cases e) (auto simp: check_lim users_lim register unregister alive report split: prod.splits if_splits,
        metis check_lim snd_conv, metis check_lim snd_conv)
  ultimately show ?case by (simp add: s')
qed

end


lemma snd_and_then_frame:
  assumes "\<And>l. f (snd (g l)) = f l"
  shows "f (snd (and_then r g)) = f (snd r)"
  using assms by (auto simp: and_then_def split: prod.splits option.splits)

lemma guard_frames:
  "recentConnByUser (snd (guard_new_per_ip k now l)) = recentConnByUser l"
  "recentConnByUser (snd (guard_active_per_user u l)) = recentConnByUser l"
  "recentConnByUser (snd (guard_active_per_ip k l)) = recentConnByUser l"
  "recentConnByUser (snd (guard_devices u user k l)) = recentConnByUser l"
  "recentConnByIP (snd (guard_new_per_user u now l)) = recentConnByIP l"
  "recentConnByIP (snd (guard_active_per_user u l)) = recentConnByIP l"
  "recentConnByIP (snd (guard_active_per_ip k l)) = recentConnByIP l"
  "recentConnByIP (snd (guard_devices u user k l)) = recentConnByIP l"
  "maxNewConnPerIP (snd (guard_new_per_user u now l)) = maxNewConnPerIP l"
  "window (snd (guard_new_per_user u now l)) = window l"
  by (simp_all add: guard_new_per_ip_def guard_active_per_user_def guard_active_per_ip_def
      guard_devices_def guard_new_per_user_def split: prod.splits)

lemma run_guards_recentByUser:
  "recentConnByUser (snd (run_guards u user k now l)) = recentConnByUser (snd (guard_new_per_user u now l))"
  unfolding run_guards_def by (simp add: snd_and_then_frame guard_frames)

lemma run_guards_recentByIP:
  "recentConnByIP (snd (run_guards u user k now l)) =
     recentConnByIP (snd (and_then (guard_new_per_user u now l) (guard_new_per_ip k now)))"
  unfolding run_guards_def by (simp add: snd_and_then_frame guard_frames)

lemma run_guards_None:
  assumes "fst (run_guards u user k now l) = None"
  shows "fst (guard_new_per_user u now l) = None"
    and "fst (guard_new_per_ip k now (snd (guard_new_per_user u now l))) = None"
  using assms unfolding run_guards_chain(1) by (auto split: option.splits)

text \<open>What a check is made of: an early refusal, or a run of the guards.\<close>

lemma limiter_Check_cases:
  obtains (early) "snd (limiter_Check l m now) = l" "\<not> Allow (fst (limiter_Check l m now))"
  | (guards) u user k where "user_key m = Some u" "k = (case ip_key m of None \<Rightarrow> [] | Some k \<Rightarrow> k)"
      "map_of (userByName l) u = Some user"
      "snd (limiter_Check l m now) = snd (run_guards u user k now l)"
      "Allow (fst (limiter_Check l m now)) \<longleftrightarrow> fst (run_guards u user k now l) = None"
proof (cases "user_key m")
  case None
  then show ?thesis by (intro early) (auto simp: limiter_Check_def user_key_def deny_def split: if_splits)
next
  case (Some u)
  then have u: "u \<noteq> []" "TrimSpace (connUser m) = u" by auto
  let ?k = "case ip_key m of None \<Rightarrow> [] | Some k \<Rightarrow> k"
  have k: "(if addr_IsValid (SourceIP m) then addr_String (SourceIP m) else []) = ?k"
    by (simp add: ip_key_def)
  show ?thesis
  proof (cases "map_of (userByName l) u")
    case None
    then show ?thesis using u by (intro early) (auto simp: limiter_Check_def Let_def deny_def)
  next
    case (Some user)
    then show ?thesis
      using u \<open>user_key m = Some u\<close> unfolding limiter_Check_def k
      by (intro guards [of u ?k user])
         (auto simp: limiter_Check_def Let_def k deny_def allowed_def split: prod.split option.split)
  qed
qed

lemma users_frames:
  "recentConnByUser (UpdateUsers now users l) = sweep_rates now (window l) (recentConnByUser l)"
  "recentConnByIP (UpdateUsers now users l) = sweep_rates now (window l) (recentConnByIP l)"
  "maxNewConnPerUser (UpdateUsers now users l) = maxNewConnPerUser l"
  "maxNewConnPerIP (UpdateUsers now users l) = maxNewConnPerIP l"
  by (simp_all add: UpdateUsers_def split: prod.splits)

lemmas frame_defs = limiter_Register_def limiter_Unregister_def UpdateAliveList_def BuildAlivePayload_def Let_def

interpretation per_user: rate_index recentConnByUser maxNewConnPerUser user_key
proof unfold_locales
  fix l :: limiter and m now
  assume pos: "0 < maxNewConnPerUser l"
  let ?cps = "\<lambda>k. checkCPS (window l) (recentConnByUser l) k (maxNewConnPerUser l) now"
  let ?r = "limiter_Check l m now"
  show "recentConnByUser (snd ?r) = recentConnByUser l \<and> (user_key m = None \<or> \<not> Allow (fst ?r))
      \<or> (\<exists>k. user_key m = Some k \<and> recentConnByUser (snd ?r) = snd (?cps k)
           \<and> (Allow (fst ?r) \<longrightarrow> fst (?cps k)))"
  proof (cases rule: limiter_Check_cases [of l m now])
    case (guards u user k)
    have "recentConnByUser (snd (guard_new_per_user u now l)) = snd (?cps u)"
      and "fst (guard_new_per_user u now l) = None \<longleftrightarrow> fst (?cps u)"
      using pos by (auto simp: guard_new_per_user_def split: prod.splits)
    then show ?thesis
      using guards run_guards_None(1) [of u user k now l] by (auto simp: run_guards_recentByUser simp del: user_key_Some)
  qed simp
qed (use limiter_Check_limits in \<open>auto simp: users_frames frame_defs same_limits_def split: prod.splits\<close>)

interpretation per_ip: rate_index recentConnByIP maxNewConnPerIP ip_key
proof unfold_locales
  fix l :: limiter and m now
  assume pos: "0 < maxNewConnPerIP l"
  let ?cps = "\<lambda>k. checkCPS (window l) (recentConnByIP l) k (maxNewConnPerIP l) now"
  let ?r = "limiter_Check l m now"
  show "recentConnByIP (snd ?r) = recentConnByIP l \<and> (ip_key m = None \<or> \<not> Allow (fst ?r))
      \<or> (\<exists>k. ip_key m = Some k \<and> recentConnByIP (snd ?r) = snd (?cps k)
           \<and> (Allow (fst ?r) \<longrightarrow> fst (?cps k)))"
  proof (cases rule: limiter_Check_cases [of l m now])
    case (guards u user k)
    let ?l1 = "snd (guard_new_per_user u now l)"
    have first: "recentConnByIP (snd ?r) = (if fst (guard_new_per_user u now l) = None
        then recentConnByIP (snd (guard_new_per_ip k now ?l1)) else recentConnByIP l)"
      using guards guard_frames(5) [of u now l]
      by (auto simp: run_guards_recentByIP and_then_def split: prod.splits option.splits)
    show ?thesis
    proof (cases "ip_key m")
      case None
      then have "k = []" using guards by simp
      then show ?thesis using first None by (simp add: guard_new_per_ip_def guard_frames)
    next
      case (Some k')
      have "k = k'" unfolding guards(2) Some by simp
      have "k \<noteq> []" using Some unfolding \<open>k = k'\<close> by auto
      have "recentConnByIP (snd (guard_new_per_ip k now ?l1)) = snd (?cps k)"
        and "fst (guard_new_per_ip k now ?l1) = None \<longleftrightarrow> fst (?cps k)"
        using pos \<open>k \<noteq> []\<close> by (auto simp: guard_new_per_ip_def guard_frames split: prod.splits)
      then show ?thesis
        using guards run_guards_None [of u user k now l] first Some \<open>k = k'\<close>
        by (auto simp del: user_key_Some ip_key_Some)
    qed
  qed simp
qed (use limiter_Check_limits in \<open>auto simp: users_frames frame_defs same_limits_def split: prod.splits\<close>)


lemma new_limiter_fields [simp]:
  "recentConnByUser (NewLimiterWithConfig cfg) = []" "recentConnByIP (NewLimiterWithConfig cfg) = []"
  "speedBucketByName (NewLimiterWithConfig cfg) = []" "speedLimitByName (NewLimiterWithConfig cfg) = []"
  "userByName (NewLimiterWithConfig cfg) = []" "window (NewLimiterWithConfig cfg) = defaultLimiterWindow"
  "maxNewConnPerUser (NewLimiterWithConfig cfg) = MaxNewConnPerUserPerMin cfg"
  "maxNewConnPerIP (NewLimiterWithConfig cfg) = MaxNewConnPerIPPerMin cfg"
  by (simp_all add: NewLimiterWithConfig_def)

text \<open>
  C35: The per-user rate limit over any minute. Whatever connections arrive and leave and
  however often the users are updated, the connections of a user that are let in within any
  minute, wherever it starts, are at most twice the limit less one.
\<close>

theorem new_connections_per_user_bound:
  assumes "0 < MaxNewConnPerUserPerMin cfg" and "sorted (event_times es)"
  shows "int (let_in_count user_key u a (a + defaultLimiterWindow) (NewLimiterWithConfig cfg, []) es)
    \<le> 2 * MaxNewConnPerUserPerMin cfg - 1"
proof -
  obtain now where now: "sorted (now # event_times es)"
    using assms(2) by (cases "event_times es") (auto intro: that)
  have "per_user.rate_inv a u (NewLimiterWithConfig cfg) 0 now"
    using assms(1) by (simp add: per_user.rate_inv_def window_inv_start)
  from per_user.count_bound [OF this now] show ?thesis by simp
qed

text \<open>
  The same for the per-address rate limit.
\<close>

theorem new_connections_per_ip_bound:
  assumes "0 < MaxNewConnPerIPPerMin cfg" and "sorted (event_times es)"
  shows "int (let_in_count ip_key k a (a + defaultLimiterWindow) (NewLimiterWithConfig cfg, []) es)
    \<le> 2 * MaxNewConnPerIPPerMin cfg - 1"
proof -
  obtain now where now: "sorted (now # event_times es)"
    using assms(2) by (cases "event_times es") (auto intro: that)
  have "per_ip.rate_inv a k (NewLimiterWithConfig cfg) 0 now"
    using assms(1) by (simp add: per_ip.rate_inv_def window_inv_start)
  from per_ip.count_bound [OF this now] show ?thesis by simp
qed

text \<open>
  A burst around the end of a window: with two connections per minute allowed, three are
  let in within two seconds. Both theorems above are instantiated on it and are tight.
\<close>

definition burst_cfg :: limiter_config where
  "burst_cfg = \<lparr>MaxConnPerUser = 0, MaxConnPerIP = 0, MaxNewConnPerUserPerMin = 2, MaxNewConnPerIPPerMin = 2\<rparr>"

definition burst :: "admission list" where
  "burst = [SetUsers 5 [demo_user\<lparr>uDeviceLimit := 0\<rparr>], Admit (demo_conn ''1'' 0x01010101) 10,
     Admit (demo_conn ''2'' 0x01010101) 59000000010, Admit (demo_conn ''3'' 0x01010101) 60000000010,
     Admit (demo_conn ''4'' 0x01010101) 60500000010, Admit (demo_conn ''5'' 0x01010101) 60600000010]"

lemma burst_sorted: "sorted (event_times burst)"
  by (simp add: burst_def event_times_def)


theorem new_connections_per_user_bound_witness:
  "let_in_count user_key ''user-1'' 59000000010 (59000000010 + defaultLimiterWindow)
     (NewLimiterWithConfig burst_cfg, []) burst = 3 \<and> 2 * MaxNewConnPerUserPerMin burst_cfg - 1 = 3"
proof -
  have "3 \<le> let_in_count user_key ''user-1'' 59000000010 (59000000010 + defaultLimiterWindow)
     (NewLimiterWithConfig burst_cfg, []) burst" by code_simp
  moreover have "0 < MaxNewConnPerUserPerMin burst_cfg" by (simp add: burst_cfg_def)
  note new_connections_per_user_bound [OF this burst_sorted, of "''user-1''" 59000000010]
  moreover have "2 * MaxNewConnPerUserPerMin burst_cfg - 1 = 3" by (simp add: burst_cfg_def)
  ultimately show ?thesis by linarith
qed

theorem new_connections_per_ip_bound_witness:
  "let_in_count ip_key ''1.1.1.1'' 59000000010 (59000000010 + defaultLimiterWindow)
     (NewLimiterWithConfig burst_cfg, []) burst = 3 \<and> 2 * MaxNewConnPerIPPerMin burst_cfg - 1 = 3"
proof -
  have "3 \<le> let_in_count ip_key ''1.1.1.1'' 59000000010 (59000000010 + defaultLimiterWindow)
     (NewLimiterWithConfig burst_cfg, []) burst" by code_simp
  moreover have "0 < MaxNewConnPerIPPerMin burst_cfg" by (simp add: burst_cfg_def)
  note new_connections_per_ip_bound [OF this burst_sorted, of "''1.1.1.1''" 59000000010]
  moreover have "2 * MaxNewConnPerIPPerMin burst_cfg - 1 = 3" by (simp add: burst_cfg_def)
  ultimately show ?thesis by linarith
qed

section \<open>Token buckets\<close>

text \<open>A stored bucket has the rate of the speed limit that its user has now.\<close>

definition has_rate :: "bucket \<Rightarrow> int \<Rightarrow> bool" where
  "has_rate b s \<longleftrightarrow> 0 < s \<and> bucketRate b = speedLimitBytesPerSecond s \<and> bucketCapacity b = bucketRate b"

definition buckets_fit :: "limiter \<Rightarrow> bool" where
  "buckets_fit l \<longleftrightarrow>
     (\<forall>name b. map_of (speedBucketByName l) name = Some b \<longrightarrow> has_rate b (gget 0 (speedLimitByName l) name))"

lemma limiterUserName_inject [simp]: "limiterUserName i = limiterUserName j \<longleftrightarrow> i = j"
  by (simp add: limiterUserName_def Itoa_inject)

lemma TrimSpace_limiterUserName [simp]: "TrimSpace (limiterUserName i) = limiterUserName i"
  using space_width_rev_Itoa [of "''user-''" i]
  by (intro TrimSpace_id) (simp_all add: limiterUserName_def ascii_space_def space2_def space3_def)

lemma update_users_fold:
  assumes "foldl (update_user_step l) (users0, speeds0, buckets0) us = (users, speeds, buckets)"
  shows "map_of users name = (case find (\<lambda>u. limiterUserName (uID u) = name) (rev us) of
           Some u \<Rightarrow> Some u | None \<Rightarrow> map_of users0 name) \<and>
    map_of speeds name = (case find (\<lambda>u. limiterUserName (uID u) = name) (rev us) of
           Some u \<Rightarrow> Some (uSpeedLimit u) | None \<Rightarrow> map_of speeds0 name) \<and>
    (\<forall>b. map_of buckets name = Some b \<longrightarrow> map_of buckets0 name = Some b \<or>
           map_of (speedBucketByName l) name = Some b
           \<and> (\<exists>u \<in> set us. limiterUserName (uID u) = name \<and> gget 0 (speedLimitByName l) name = uSpeedLimit u)) \<and>
    (\<forall>b. \<forall>u \<in> set us. limiterUserName (uID u) = name \<longrightarrow> map_of (speedBucketByName l) name = Some b \<longrightarrow>
           gget 0 (speedLimitByName l) name = uSpeedLimit u \<longrightarrow> map_of buckets name = Some b)"
  using assms
proof (induction us arbitrary: users speeds buckets rule: rev_induct)
  case (snoc x us)
  obtain us' sp' bk' where fold: "foldl (update_user_step l) (users0, speeds0, buckets0) us = (us', sp', bk')"
    by (rule prod_cases3)
  note IH = snoc.IH [OF fold]
  have new: "users = AList.update (limiterUserName (uID x)) x us'"
    "speeds = AList.update (limiterUserName (uID x)) (uSpeedLimit x) sp'"
    "buckets = (case map_of (speedBucketByName l) (limiterUserName (uID x)) of None \<Rightarrow> bk'
       | Some b \<Rightarrow> if gget 0 (speedLimitByName l) (limiterUserName (uID x)) = uSpeedLimit x
            then AList.update (limiterUserName (uID x)) b bk' else bk')"
    using snoc.prems unfolding foldl_append fold by (auto simp: update_user_step_def Let_def)
  have "\<forall>b. map_of buckets name = Some b \<longrightarrow> map_of buckets0 name = Some b \<or>
      map_of (speedBucketByName l) name = Some b
      \<and> (\<exists>u \<in> set (us @ [x]). limiterUserName (uID u) = name \<and> gget 0 (speedLimitByName l) name = uSpeedLimit u)"
    using IH unfolding new(3) by (auto split: option.splits if_splits)
  moreover have "\<forall>b. \<forall>u \<in> set (us @ [x]). limiterUserName (uID u) = name \<longrightarrow>
      map_of (speedBucketByName l) name = Some b \<longrightarrow>
      gget 0 (speedLimitByName l) name = uSpeedLimit u \<longrightarrow> map_of buckets name = Some b"
    using IH unfolding new(3) by (auto split: option.splits if_splits)
  ultimately show ?case using IH by (simp add: new(1,2))
qed simp

text \<open>The user a list of users gives a name to: the last one with it.\<close>

definition user_named :: "panel_user list \<Rightarrow> string \<Rightarrow> panel_user option" where
  "user_named us name = find (\<lambda>u. limiterUserName (uID u) = name) (rev us)"

lemma UpdateUsers_maps:
  "map_of (userByName (UpdateUsers now us l)) name = user_named us name"
  "map_of (speedLimitByName (UpdateUsers now us l)) name = map_option uSpeedLimit (user_named us name)"
  using update_users_fold [of l "[]" "[]" "[]" us _ _ _ name]
  by (auto simp: UpdateUsers_def user_named_def split: prod.splits option.splits)

lemma find_SomeD: "find P xs = Some x \<Longrightarrow> x \<in> set xs \<and> P x"
  by (auto simp: find_Some_iff)

lemma user_named_Some: "user_named us name = Some u \<Longrightarrow> u \<in> set us \<and> limiterUserName (uID u) = name"
  unfolding user_named_def by (drule find_SomeD) simp

lemma user_named_distinct:
  assumes "distinct (map uID us)" and "u \<in> set us"
  shows "user_named us (limiterUserName (uID u)) = Some u"
proof -
  obtain v where v: "find (\<lambda>v. limiterUserName (uID v) = limiterUserName (uID u)) (rev us) = Some v"
    using assms(2) by (metis (mono_tags, lifting) find_None_iff2 not_None_eq set_rev)
  then have "v \<in> set us" "uID v = uID u" by (auto dest: find_SomeD)
  then show ?thesis using v assms by (auto simp: user_named_def distinct_map dest: inj_onD)
qed

lemma UpdateUsers_bucket:
  assumes "distinct (map uID us)"
  shows "map_of (speedBucketByName (UpdateUsers now us l)) name =
    (case user_named us name of
       None \<Rightarrow> None
     | Some u \<Rightarrow> if gget 0 (speedLimitByName l) name = uSpeedLimit u then map_of (speedBucketByName l) name else None)"
proof -
  obtain a b bk where fold: "foldl (update_user_step l) ([], [], []) us = (a, b, bk)" by (rule prod_cases3)
  have new: "speedBucketByName (UpdateUsers now us l) = bk" by (simp add: UpdateUsers_def fold)
  note F = update_users_fold [OF fold, of name]
  show ?thesis
  proof (cases "user_named us name")
    case None
    then have "\<not> (\<exists>u \<in> set us. limiterUserName (uID u) = name)"
      by (simp add: user_named_def find_None_iff)
    then show ?thesis using F None unfolding new by (auto intro: option.exhaust)
  next
    case (Some u)
    then have u: "u \<in> set us" "limiterUserName (uID u) = name"
      using user_named_Some by auto
    have unique: "v = u" if "v \<in> set us" "limiterUserName (uID v) = name" for v
      using user_named_distinct [OF assms that(1)] Some that(2) by simp
    show ?thesis
    proof (cases "map_of bk name")
      case None
      then show ?thesis using F Some u unfolding new
        by (cases "map_of (speedBucketByName l) name") auto
    next
      case (Some c)
      then show ?thesis using F \<open>user_named us name = Some u\<close> unique unfolding new by auto
    qed
  qed
qed


lemma buckets_fit_UpdateUsers:
  assumes "buckets_fit l" and "distinct (map uID us)"
  shows "buckets_fit (UpdateUsers now us l)"
proof -
  have "gget 0 (speedLimitByName (UpdateUsers now us l)) name = gget 0 (speedLimitByName l) name"
    if "map_of (speedBucketByName (UpdateUsers now us l)) name = Some b" for name b
    using that by (auto simp: UpdateUsers_bucket [OF assms(2)] gget_def [of 0 "speedLimitByName (UpdateUsers now us l)"]
        UpdateUsers_maps split: option.splits if_splits)
  moreover have "map_of (speedBucketByName l) name = Some b"
    if "map_of (speedBucketByName (UpdateUsers now us l)) name = Some b" for name b
    using that by (auto simp: UpdateUsers_bucket [OF assms(2)] split: option.splits if_splits)
  ultimately show ?thesis using assms(1) by (simp add: buckets_fit_def)
qed

lemma speed_bucket_create_fits:
  assumes "buckets_fit l" and "gget 0 (speedLimitByName l) name = s" and "0 < s"
    and "speed_bucket_create name s l = (r, l')"
  shows "buckets_fit l'" and "\<exists>b. r = Some b \<and> map_of (speedBucketByName l') name = Some b"
    and "speedLimitByName l' = speedLimitByName l"
proof -
  have pos: "0 < speedLimitBytesPerSecond s" using assms(3) by (simp add: speedLimitBytesPerSecond_def)
  let ?b = "\<lparr>bucketRef = nextBucket l, bucketRate = speedLimitBytesPerSecond s,
             bucketCapacity = speedLimitBytesPerSecond s\<rparr>"
  consider (old) c where "map_of (speedBucketByName l) name = Some c" "r = Some c" "l' = l"
    | (new) "r = Some ?b" "speedBucketByName l' = AList.update name ?b (speedBucketByName l)"
        "speedLimitByName l' = speedLimitByName l"
    using assms(4) pos by (auto simp: speed_bucket_create_def Let_def split: option.splits)
  then show "buckets_fit l'" "\<exists>b. r = Some b \<and> map_of (speedBucketByName l') name = Some b"
    "speedLimitByName l' = speedLimitByName l"
    using assms(1-3) by (cases; force simp: buckets_fit_def has_rate_def)+
qed

text \<open>The operations that touch the users and the buckets, each as one step.\<close>

datatype speed_event = UsersChange gotime "panel_user list" | BucketAsked string

fun speed_step :: "limiter \<Rightarrow> speed_event \<Rightarrow> limiter" where
  "speed_step l (UsersChange now us) = UpdateUsers now us l"
| "speed_step l (BucketAsked name) = snd (UserSpeedBucket name l)"

fun speed_ok :: "limiter \<Rightarrow> speed_event \<Rightarrow> bool" where
  "speed_ok l (UsersChange now us) = distinct (map uID us)"
| "speed_ok l (BucketAsked name) = True"

lemma UserSpeedBucket_fits:
  assumes "buckets_fit l" and "s = gget 0 (speedLimitByName l) (TrimSpace name)"
    and "UserSpeedBucket name l = (r, l')"
  shows "buckets_fit l' \<and> (case r of
      None \<Rightarrow> s \<le> 0
    | Some b \<Rightarrow> has_rate b s
        \<and> map_of (speedBucketByName l') (TrimSpace name) = Some b \<and> speedLimitByName l' = speedLimitByName l)"
proof -
  let ?name = "TrimSpace name"
  consider (none) "s \<le> 0" "r = None" "l' = l"
    | (found) b where "0 < s" "map_of (speedBucketByName l) ?name = Some b" "r = Some b" "l' = l"
    | (create) "0 < s" "speed_bucket_create ?name s l = (r, l')"
    using assms(2,3) by (cases "map_of (speedBucketByName l) ?name")
      (auto simp: UserSpeedBucket_def speed_bucket_read_def Let_def split: if_splits)
  then show ?thesis
  proof cases
    case create
    from speed_bucket_create_fits [OF assms(1) assms(2) [symmetric] create]
    show ?thesis using assms(2) by (auto simp: buckets_fit_def)
  qed (use assms(1,2) in \<open>auto simp: buckets_fit_def\<close>)
qed

interpretation spd: stepper speed_step buckets_fit speed_ok
proof
  fix l e
  assume "buckets_fit l" and "speed_ok l e"
  then show "buckets_fit (speed_step l e)"
    by (cases e) (auto intro: buckets_fit_UpdateUsers dest: UserSpeedBucket_fits [OF _ refl prod.collapse [symmetric]])
qed


text \<open>
  A change of the speed limit can be lost. When the users are updated between the two
  critical sections of \<open>UserSpeedBucket\<close>, the bucket is created with the limit read before
  the update and stored under the new one; it is what every later request returns, also
  after further updates with the same users.
\<close>

theorem speed_limit_change_lost:
  assumes "speed_bucket_read name l = (old, None)" and "0 < old"
    and us: "distinct (map uID us)" "u \<in> set us" "name = limiterUserName (uID u)"
    and new: "0 < uSpeedLimit u" "uSpeedLimit u \<noteq> old"
    and race: "(b, l') = speed_bucket_create name old (UpdateUsers t us l)"
  shows "\<exists>c. fst (UserSpeedBucket name (UpdateUsers t' us l')) = Some c
    \<and> bucketRate c = old * 1024 * 1024 div 8 \<and> bucketRate c \<noteq> uSpeedLimit u * 1024 * 1024 div 8"
proof -
  let ?l1 = "UpdateUsers t us l"
  have named: "user_named us name = Some u" using user_named_distinct us by simp
  have speed: "gget 0 (speedLimitByName ?l1) name = uSpeedLimit u"
    by (simp add: gget_def UpdateUsers_maps named)
  have "map_of (speedBucketByName ?l1) name = None"
    using assms(1) by (simp add: UpdateUsers_bucket [OF us(1)] named speed_bucket_read_def)
  moreover have "0 < speedLimitBytesPerSecond old" using \<open>0 < old\<close> by (simp add: speedLimitBytesPerSecond_def)
  ultimately obtain c where c: "map_of (speedBucketByName l') name = Some c"
      "bucketRate c = speedLimitBytesPerSecond old" "speedLimitByName l' = speedLimitByName ?l1"
    using race by (auto simp: speed_bucket_create_def Let_def)
  have "map_of (speedBucketByName (UpdateUsers t' us l')) name = Some c"
    by (simp add: UpdateUsers_bucket [OF us(1)] named c speed)
  moreover have "gget 0 (speedLimitByName (UpdateUsers t' us l')) name = uSpeedLimit u"
    by (simp add: gget_def UpdateUsers_maps named)
  ultimately have "fst (UserSpeedBucket name (UpdateUsers t' us l')) = Some c"
    using new(1) us(3) by (simp add: UserSpeedBucket_def speed_bucket_read_def Let_def)
  moreover have "old * 1024 * 1024 div 8 \<noteq> uSpeedLimit u * 1024 * 1024 div 8" using new(2) by simp
  ultimately show ?thesis using c(2) \<open>0 < old\<close> by (simp add: speedLimitBytesPerSecond_def)
qed


theorem speed_limit_change_lost_witness:
  "\<exists>c. fst (UserSpeedBucket ''user-1'' (UpdateUsers 7 [demo_user\<lparr>uSpeedLimit := 80\<rparr>]
      (snd (speed_bucket_create ''user-1'' 10 (UpdateUsers 6 [demo_user\<lparr>uSpeedLimit := 80\<rparr>] demo_empty))))) = Some c
    \<and> bucketRate c = 1310720"
proof -
  have "speed_bucket_read ''user-1'' demo_empty = (10, None)" by code_simp
  moreover have "''user-1'' = limiterUserName (uID (demo_user\<lparr>uSpeedLimit := 80\<rparr>))"
    by (simp add: demo_name demo_user_def)
  ultimately show ?thesis
    using speed_limit_change_lost [of "''user-1''" demo_empty 10 "[demo_user\<lparr>uSpeedLimit := 80\<rparr>]"
        "demo_user\<lparr>uSpeedLimit := 80\<rparr>" _ _ 6 7, OF _ _ _ _ _ _ _ prod.collapse] by auto
qed

end
