(* ===== verification/Tracker_Spec.thy ===== *)
theory Tracker_Spec
  imports Tracker Limiter_Rates
begin

text \<open>
  The tracker on the limiter of \<open>core/limiter.go\<close>. The interpretation of \<open>shared_limiter\<close>
  gives the invariants of every reachable state; the functions of \<open>tracker.go\<close> are shown to
  be runs of the step relation; and two situations are worked out in which connections or
  bytes escape: a second tracker on the same limiter, and bytes that arrive after \<open>Close\<close>.
\<close>

section \<open>The limiter as the tracker sees it\<close>

inductive limiter_env :: "limiter \<Rightarrow> limiter \<Rightarrow> bool" where
  env_bucket: "limiter_env l (snd (UserSpeedBucket u l))"
| env_bucket_create: "limiter_env l (snd (speed_bucket_create u s l))"
| env_users: "limiter_env l (UpdateUsers now us l)"
| env_alive: "limiter_env l (UpdateAliveList alive l)"
| env_report: "limiter_env l (snd (BuildAlivePayload l))"

lemma limiter_env_rep:
  assumes "limiter_env l l'" and "limiter_rep l live"
  shows "limiter_rep l' live"
  using assms
  by cases (auto simp: limiter_rep_def UserSpeedBucket_def speed_bucket_create_def Let_def
      split: prod.splits option.splits)

interpretation shared: shared_limiter limiter_ops limiter_rep limiter_env
  by unfold_locales (rule limiter_env_rep)

definition connections_of :: "(conn_meta \<Rightarrow> string option) \<Rightarrow> string \<Rightarrow> 'l world \<Rightarrow> conn_state list" where
  "connections_of key k w = filter (\<lambda>c. listed c \<and> key (csMeta c) = Some k) (wConns w)"

lemma connections_of_live:
  assumes "mset live = listed_metas w"
  shows "length (conns_with key k live) = length (connections_of key k w)"
proof -
  have "mset (conns_with key k live) = filter_mset (\<lambda>m. key m = Some k) (mset live)"
    by (simp add: conns_with_def)
  also have "\<dots> = image_mset csMeta (mset (connections_of key k w))"
    unfolding assms listed_metas_def connections_of_def
    by (simp add: filter_mset_image_mset filter_filter_mset conj_commute)
  finally have "size (mset (conns_with key k live)) = size (image_mset csMeta (mset (connections_of key k w)))" by simp
  then show ?thesis by simp
qed


section \<open>Every reachable state\<close>

text \<open>
  C2: The indexes of the limiter always are the connections that are registered. However
  connections arrive, run and close on any number of goroutines, while users and alive
  lists are replaced, buckets are asked for and reports are built, the index under a user
  (an address) has one entry for each connection of that user (address) between
  \<open>Register\<close> and \<open>Unregister\<close>, and connection ids are never reused.
\<close>

theorem tracker_indexes_exact:
  assumes "world_reachable limiter_ops limiter_env (NewLimiterWithConfig cfg) w"
  shows "length (gget [] (activeConnByUser (wLimiter w)) u) = length (connections_of user_key u w)
    \<and> length (gget [] (activeConnByIP (wLimiter w)) k) = length (connections_of ip_key k w)
    \<and> distinct (map (\<lambda>c. ConnID (csMeta c)) (wConns w))"
proof -
  have inv: "represents limiter_rep w \<and> ids_ok w \<and> names_ok w \<and> bytes_ok w"
    using assms limiter_rep_New by (rule shared.world_invariants)
  then obtain live where live: "mset live = listed_metas w" "limiter_rep (wLimiter w) live"
    by (auto simp: represents_def)
  have "distinct (map (\<lambda>c. ConnID (csMeta c)) (wConns w))"
    using inv ids_distinct [of w] by (auto simp: distinct_conv_nth)
  then show ?thesis
    using live(2) connections_of_live [OF live(1)] unfolding limiter_rep_def by (auto simp: idx_rep_length)
qed


section \<open>The functions are runs of the steps\<close>

definition tracker_of :: "'l world \<Rightarrow> 'l tracker" where
  "tracker_of w = \<lparr>tLimiter = wLimiter w, tStats = Some (wStats w), connSequence = wSeq w\<rparr>"

lemma tracker_of_simps [simp]:
  "tLimiter (tracker_of w) = wLimiter w" "tStats (tracker_of w) = Some (wStats w)"
  "connSequence (tracker_of w) = wSeq w"
  by (simp_all add: tracker_of_def)

lemma buildConnMeta_world:
  "buildConnMeta ctx now (tracker_of w) = (world_meta ctx now w, (tracker_of w)\<lparr>connSequence := wSeq w + 1\<rparr>)"
  by (simp add: buildConnMeta_def world_meta_def tracker_of_def Let_def)

lemma csMeta_new [simp]: "csMeta (new_conn m) = m" "csPhase (new_conn m) = Numbered"
  by (simp_all add: new_conn_def csMeta_def)

lemma list_update_snoc [simp]: "(xs @ [y])[length xs := z] = xs @ [z]"
  by (simp add: list_update_append)

lemma RoutedConnection_result:
  assumes "if_Check L (wLimiter w) m (StartedAt m) = (d, l)" and "m = world_meta ctx now w"
    and "ask (connUser m) (if_Register L l m) = (b, l5)"
  shows "RoutedConnection L (Some ask) ctx now (tracker_of w) =
    (if Allow d
     then (Some \<lparr>meta = m, speedBucket = b, closeDone = False, uploadBuf = 0, downloadBuf = 0\<rparr>,
           \<lparr>tLimiter = l5, tStats = Some (RegisterConn (connUser m) (ConnID m) (wStats w)), connSequence = wSeq w + 1\<rparr>)
     else (None, \<lparr>tLimiter = l, tStats = Some (wStats w), connSequence = wSeq w + 1\<rparr>))"
  using assms(1,3) unfolding RoutedConnection_def buildConnMeta_world assms(2) [symmetric]
  by (simp add: on_stats_def wrapSpeedLimit_def Let_def tracker_of_def)

lemma RoutedConnection_steps:
  assumes "wSeq w + 1 \<noteq> 0" and "\<And>u l. env l (snd (ask u l))"
    and call: "RoutedConnection L (Some ask) ctx now (tracker_of w) = (r, t)"
  shows "\<exists>w' c. (world_step L env)\<^sup>*\<^sup>* w w' \<and> tracker_of w' = t \<and> wConns w' = wConns w @ [c]
    \<and> (case r of
         None \<Rightarrow> csPhase c = Refused
       | Some k \<Rightarrow> csPhase c = Open \<and> csConn c = k\<lparr>speedBucket := None\<rparr> \<and> uploadBuf k = 0 \<and> downloadBuf k = 0)"
proof -
  let ?m = "world_meta ctx now w" and ?n = "length (wConns w)"
  define w1 where "w1 = w\<lparr>wSeq := wSeq w + 1, wConns := wConns w @ [new_conn ?m]\<rparr>"
  have 1: "world_step L env w w1" unfolding w1_def using assms(1) by (rule step_number)
  obtain d l where check: "if_Check L (wLimiter w) ?m (StartedAt ?m) = (d, l)" by (rule prod.exhaust)
  let ?c2 = "(new_conn ?m)\<lparr>csPhase := if Allow d then Admitted else Refused\<rparr>"
  define w2 where "w2 = w1\<lparr>wLimiter := l, wConns := (wConns w1)[?n := ?c2]\<rparr>"
  have 2: "world_step L env w1 w2"
    unfolding w2_def by (rule step_check) (simp_all add: w1_def check)
  have conns2: "wConns w2 = wConns w @ [?c2]" by (simp add: w2_def w1_def)
  show ?thesis
  proof (cases "Allow d")
    case False
    obtain b l5 where "ask (connUser ?m) (if_Register L l ?m) = (b, l5)" by (rule prod.exhaust)
    from RoutedConnection_result [of L w ?m d l ctx now ask, OF check refl this]
    have "r = None" "t = tracker_of w2"
      unfolding call using False by (simp_all add: w1_def w2_def tracker_of_def)
    moreover have "(world_step L env)\<^sup>*\<^sup>* w w2"
      by (rule converse_rtranclp_into_rtranclp, rule 1) (rule r_into_rtranclp, rule 2)
    ultimately show ?thesis using False conns2 by (intro exI [of _ w2] exI [of _ ?c2]) simp
  next
    case True
    let ?c3 = "(new_conn ?m)\<lparr>csPhase := Registered\<rparr>"
    define w3 where "w3 = w2\<lparr>wLimiter := if_Register L (wLimiter w2) (csMeta ?c2),
      wConns := (wConns w2)[?n := ?c2\<lparr>csPhase := Registered\<rparr>]\<rparr>"
    have 3: "world_step L env w2 w3"
      unfolding w3_def by (rule step_register) (simp_all add: conns2 True)
    have conns3: "wConns w3 = wConns w @ [?c3]" by (simp add: w3_def conns2)
    let ?c4 = "(new_conn ?m)\<lparr>csPhase := Open\<rparr>"
    define w4 where "w4 = w3\<lparr>wStats := RegisterConn (connUser (csMeta ?c3)) (ConnID (csMeta ?c3)) (wStats w3),
      wConns := (wConns w3)[?n := ?c3\<lparr>csPhase := Open\<rparr>]\<rparr>"
    have 4: "world_step L env w3 w4"
      unfolding w4_def by (rule step_list) (simp_all add: conns3)
    have conns4: "wConns w4 = wConns w @ [?c4]" by (simp add: w4_def conns3)
    obtain b l5 where ask: "ask (connUser ?m) (if_Register L l ?m) = (b, l5)" by (rule prod.exhaust)
    define w5 where "w5 = w4\<lparr>wLimiter := l5\<rparr>"
    have "env (wLimiter w4) l5" using assms(2) [of "if_Register L l ?m" "connUser ?m"] ask by (simp add: w4_def w3_def w2_def)
    then have 5: "world_step L env w4 w5" unfolding w5_def by (rule step_env)
    from RoutedConnection_result [of L w ?m d l ctx now ask, OF check refl ask]
    have "r = Some \<lparr>meta = ?m, speedBucket = b, closeDone = False, uploadBuf = 0, downloadBuf = 0\<rparr>" "t = tracker_of w5"
      unfolding call using True by (simp_all add: w1_def w2_def w3_def w4_def w5_def tracker_of_def)
    moreover have "(world_step L env)\<^sup>*\<^sup>* w w5"
      by (rule converse_rtranclp_into_rtranclp, rule 1, rule converse_rtranclp_into_rtranclp, rule 2,
          rule converse_rtranclp_into_rtranclp, rule 3, rule converse_rtranclp_into_rtranclp, rule 4)
         (rule r_into_rtranclp, rule 5)
    moreover have "wConns w5 = wConns w @ [?c4]" by (simp add: w5_def conns4)
    ultimately show ?thesis by (intro exI [of _ w5] exI [of _ ?c4]) (simp add: new_conn_def)
  qed
qed

text \<open>
  C20: \<open>RoutedConnection\<close> is a run of the steps. Called in any state, it numbers the
  connection, checks it and, when allowed, registers it in the limiter, lists it in the
  statistics and asks for a token bucket, in this order; the wrapper it returns is the
  connection's state, open and with empty buffers. A refused connection leaves nothing
  behind but its number and what the check changed.
\<close>

theorem RoutedConnection_is_run:
  assumes "wSeq w + 1 \<noteq> 0" and "\<And>u l. env l (snd (ask u l))"
    and call: "RoutedConnection L (Some ask) ctx now (tracker_of w) = (r, t)"
  shows "\<exists>w' c. (world_step L env)\<^sup>*\<^sup>* w w' \<and> tracker_of w' = t \<and> wConns w' = wConns w @ [c]
    \<and> (case r of
         None \<Rightarrow> csPhase c = Refused
       | Some k \<Rightarrow> csPhase c = Open \<and> csConn c = k\<lparr>speedBucket := None\<rparr> \<and> uploadBuf k = 0 \<and> downloadBuf k = 0)"
  using assms by (rule RoutedConnection_steps)

lemma count_bytes_is_run:
  assumes i: "i < length (wConns w)" and c: "c = wConns w ! i" "csPhase c = Open"
    and n: "0 \<le> n" "sint (buf d (csConn c)) + n \<le> maxInt64"
    and call: "count_bytes d (word_of_int n) (csConn c) (wStats w) = (k, s)"
  shows "\<exists>w'. (world_step L env)\<^sup>*\<^sup>* w w' \<and> wConns w' = (wConns w)[i := c\<lparr>csConn := k\<rparr>]
    \<and> tracker_of w' = (tracker_of w)\<lparr>tStats := Some s\<rparr>"
proof -
  let ?val = "buf d (csConn c) + word_of_int n"
  let ?k1 = "set_buf d ?val (csConn c)"
  let ?due = "if trafficBufferThreshold \<le> sint ?val then (csDue c)(d := Suc (csDue c d)) else csDue c"
  define c1 where "c1 = c\<lparr>csConn := ?k1, csDue := ?due\<rparr>"
  define w1 where "w1 = w\<lparr>wSeen := ledger_add d (connUser (csMeta c)) (word_of_int n) (wSeen w),
    wConns := (wConns w)[i := c1]\<rparr>"
  have 1: "world_step L env w w1"
    unfolding w1_def c1_def by (rule step_bytes [OF i c(1) _ refl n]) (simp add: c(2))
  show ?thesis
  proof (cases "trafficBufferThreshold \<le> sint ?val")
    case False
    then have "k = ?k1" "s = wStats w" "c1 = c\<lparr>csConn := ?k1\<rparr>"
      using call by (simp_all add: count_bytes_def c1_def)
    then show ?thesis using 1 by (intro exI [of _ w1]) (auto simp: w1_def tracker_of_def)
  next
    case True
    have fl: "flush_buf d ?k1 (wStats w) = (k, s)" using call True by (simp add: count_bytes_def)
    define w2 where "w2 = w1\<lparr>wStats := s,
      wConns := (wConns w1)[i := c1\<lparr>csConn := k, csDue := (csDue c1)(d := csDue c1 d - 1)\<rparr>]\<rparr>"
    have "world_step L env w1 w2"
      unfolding w2_def using i fl True by (intro step_flush) (simp_all add: w1_def c1_def)
    then have "(world_step L env)\<^sup>*\<^sup>* w w2" using 1 by (meson rtranclp.simps)
    moreover have "c1\<lparr>csConn := k, csDue := (csDue c1)(d := csDue c1 d - 1)\<rparr> = c\<lparr>csConn := k\<rparr>"
      using True by (simp add: c1_def)
    then have "wConns w2 = (wConns w)[i := c\<lparr>csConn := k\<rparr>]" by (simp add: w2_def w1_def)
    ultimately show ?thesis by (intro exI [of _ w2]) (simp add: w2_def w1_def tracker_of_def)
  qed
qed

lemma conn_Close_is_run:
  assumes i: "i < length (wConns w)" and c: "c = wConns w ! i" "csPhase c = Open" "\<not> closeDone (csConn c)"
    and call: "conn_Close L (csConn c) (tracker_of w) = (k, t)"
  shows "\<exists>w'. (world_step L env)\<^sup>*\<^sup>* w w' \<and> wConns w' = (wConns w)[i := c\<lparr>csPhase := Closed, csConn := k\<rparr>]
    \<and> tracker_of w' = t \<and> closeDone k"
proof -
  let ?m = "csMeta c"
  define c1 where "c1 = c\<lparr>csPhase := Unlisted, csConn := (csConn c)\<lparr>closeDone := True\<rparr>\<rparr>"
  define w1 where "w1 = w\<lparr>wLimiter := if_Unregister L (wLimiter w) ?m, wConns := (wConns w)[i := c1]\<rparr>"
  have 1: "world_step L env w w1" unfolding w1_def c1_def by (rule step_unlist [OF i c(1,2)])
  define c2 where "c2 = c1\<lparr>csPhase := Uncounted\<rparr>"
  define w2 where "w2 = w1\<lparr>wStats := UnregisterConn (connUser (csMeta c1)) (ConnID (csMeta c1)) (wStats w1),
    wConns := (wConns w1)[i := c2]\<rparr>"
  have 2: "world_step L env w1 w2"
    unfolding w2_def c2_def using i by (intro step_uncount) (simp_all add: w1_def c1_def)
  obtain k' s where fl: "flush_both (csConn c2) (wStats w2) = (k', s)" by (rule prod.exhaust)
  define w3 where "w3 = w2\<lparr>wStats := s, wConns := (wConns w2)[i := c2\<lparr>csPhase := Closed, csConn := k'\<rparr>]\<rparr>"
  have 3: "world_step L env w2 w3"
    unfolding w3_def using i fl by (intro step_settle) (simp_all add: w2_def w1_def c2_def)
  have run: "(world_step L env)\<^sup>*\<^sup>* w w3"
    by (rule converse_rtranclp_into_rtranclp, rule 1, rule converse_rtranclp_into_rtranclp, rule 2)
       (rule r_into_rtranclp, rule 3)
  have m: "csMeta c1 = ?m" by (simp add: c1_def csMeta_def)
  have k: "k = k'" and t: "t = tracker_of w3" and marked: "closeDone k"
    using call c(3) fl m
    by (auto simp: conn_Close_def Let_def w3_def w2_def w1_def c2_def c1_def tracker_of_def csMeta_def
        flush_both_def)
  have "wConns w3 = (wConns w)[i := c\<lparr>csPhase := Closed, csConn := k\<rparr>]"
    by (simp add: w3_def w2_def w1_def c2_def c1_def k)
  then show ?thesis using run t marked by blast
qed

text \<open>
  C21: Reading, writing and closing are runs of the steps. On an open connection, a call that
  moves \<open>n\<close> bytes adds them to the buffer and flushes it when the threshold is reached, and
  \<open>Close\<close> removes the connection from the limiter and the statistics and settles the
  buffers; a second \<open>Close\<close> changes nothing.
\<close>

theorem conn_methods_are_runs:
  assumes i: "i < length (wConns w)" and c: "c = wConns w ! i" "csPhase c = Open" "\<not> closeDone (csConn c)"
    and n: "0 < n" "sint (buf d (csConn c)) + n \<le> maxInt64"
  shows "(\<exists>w' k. (world_step L env)\<^sup>*\<^sup>* w w' \<and> wConns w' = (wConns w)[i := c\<lparr>csConn := k\<rparr>]
      \<and> (k, tracker_of w') =
          (case d of Up \<Rightarrow> conn_Read n (csConn c) (tracker_of w) | Down \<Rightarrow> conn_Write n (csConn c) (tracker_of w)))
    \<and> (\<exists>w' k. (world_step L env)\<^sup>*\<^sup>* w w' \<and> wConns w' = (wConns w)[i := c\<lparr>csPhase := Closed, csConn := k\<rparr>]
      \<and> (k, tracker_of w') = conn_Close L (csConn c) (tracker_of w)
      \<and> conn_Close L k (tracker_of w') = (k, tracker_of w'))"
proof
  obtain k s where count: "count_bytes d (word_of_int n) (csConn c) (wStats w) = (k, s)" by (rule prod.exhaust)
  then have "(case d of Up \<Rightarrow> conn_Read n (csConn c) (tracker_of w) | Down \<Rightarrow> conn_Write n (csConn c) (tracker_of w))
      = (k, (tracker_of w)\<lparr>tStats := Some s\<rparr>)"
    using n(1) by (cases d) (simp_all add: conn_Read_def conn_Write_def count_if_def)
  then show "\<exists>w' k. (world_step L env)\<^sup>*\<^sup>* w w' \<and> wConns w' = (wConns w)[i := c\<lparr>csConn := k\<rparr>]
      \<and> (k, tracker_of w') =
          (case d of Up \<Rightarrow> conn_Read n (csConn c) (tracker_of w) | Down \<Rightarrow> conn_Write n (csConn c) (tracker_of w))"
    using count_bytes_is_run [OF i c(1,2) _ n(2) count, of L env] n(1) by auto
  obtain k t where close: "conn_Close L (csConn c) (tracker_of w) = (k, t)" by (rule prod.exhaust)
  then show "\<exists>w' k. (world_step L env)\<^sup>*\<^sup>* w w' \<and> wConns w' = (wConns w)[i := c\<lparr>csPhase := Closed, csConn := k\<rparr>]
      \<and> (k, tracker_of w') = conn_Close L (csConn c) (tracker_of w)
      \<and> conn_Close L k (tracker_of w') = (k, tracker_of w')"
    using conn_Close_is_run [OF i c close, of env] by (auto simp: conn_Close_def [of L k])
qed

section \<open>What escapes\<close>

text \<open>
  C40: A second tracker on the same limiter reuses connection ids. A new tracker (one is
  created for every rebuilt instance) starts counting again. When the first connection of
  the old tracker is still open, the first connection of the new one gets the same id: with
  the same user, the index has one entry for the two connections, and none once the older
  one closes, while the newer is still open.
\<close>

theorem second_tracker_hides_connection:
  assumes rep: "limiter_rep l []" and user: "user_key m1 = Some u"
    and m1: "m1 = fst (buildConnMeta ctx1 t1 (newLimiterTracker l stats))"
    and l1: "l1 = limiter_Register l m1"
    and m2: "m2 = fst (buildConnMeta ctx2 t2 (newLimiterTracker l1 stats))"
    and same: "user_key m2 = Some u"
    and l2: "l2 = limiter_Register l1 m2"
  shows "ConnID m2 = ConnID m1 \<and> length (gget [] (activeConnByUser l2) u) = 1
    \<and> gget [] (activeConnByUser (limiter_Unregister l2 m1)) u = []"
proof -
  have u: "u \<noteq> []" "TrimSpace (connUser m1) = u" "TrimSpace (connUser m2) = u" using user same by auto
  have id: "ConnID m2 = ConnID m1" by (simp add: m1 m2 buildConnMeta_def newLimiterTracker_def Let_def)
  have "idx_rep user_key [] (activeConnByUser l)" using rep by (simp add: limiter_rep_def)
  then have "gget [] (activeConnByUser l) u = []" by (simp add: idx_rep_def)
  then have "gget [] (activeConnByUser l1) u = [(ConnID m1, m1)]"
    using u by (simp add: l1 limiter_Register_def Let_def gget_put_conn)
  then have two: "gget [] (activeConnByUser l2) u = [(ConnID m1, m2)]"
    using u id by (simp add: l2 limiter_Register_def Let_def gget_put_conn)
  then have "gget [] (activeConnByUser (limiter_Unregister l2 m1)) u = []"
    using u by (simp add: limiter_Unregister_def Let_def gget_del_conn)
  with two id show ?thesis by simp
qed

text \<open>
  Bytes that arrive after \<open>Close\<close> stay in the buffer. When a \<open>Read\<close> that was under way
  returns \<open>n\<close> bytes after \<open>Close\<close> has settled the buffers, and \<open>n\<close> is below the threshold,
  the statistics never get them: the buffer keeps them, closing again does not flush it.
\<close>

theorem bytes_after_close_stay:
  assumes closed: "(c1, t1) = conn_Close L c t" "\<not> closeDone c" "tStats t \<noteq> None"
    and n: "0 < n" "n < trafficBufferThreshold"
    and late: "(c2, t2) = conn_Read n c1 t1"
    and again: "(c3, t3) = conn_Close L c2 t2"
  shows "tStats t3 = tStats t1 \<and> uploadBuf c3 = word_of_int n"
proof -
  obtain s where s: "tStats t = Some s" using closed(3) by auto
  have c1: "closeDone c1" "uploadBuf c1 = 0" "tStats t1 \<noteq> None"
    using closed(1,2) s by (auto simp: conn_Close_def Let_def flush_both_def)
  have "sint (word_of_int n :: int64) = n"
    using sint_add_nonneg [of 0 n] n by (simp add: trafficBufferThreshold_def maxInt64_def)
  then have "c2 = c1\<lparr>uploadBuf := word_of_int n\<rparr>" "t2 = t1"
    using late c1 n by (auto simp: conn_Read_def count_if_def count_bytes_def Let_def)
  then show ?thesis using again c1 by (simp add: conn_Close_def)
qed

section \<open>A concrete run\<close>

definition demo_ctx :: inbound_context where
  "demo_ctx = \<lparr>ctxUser = ''user-1'', ctxSourceValid = True, ctxSourceAddr = AddrV4 0x01010101\<rparr>"

definition demo_start :: "limiter world" where
  "demo_start = (start_world (NewLimiterWithConfig demo_cfg))\<lparr>wLimiter := demo_empty\<rparr>"

definition demo_call :: "tracked_conn option \<times> limiter tracker" where
  "demo_call = RoutedConnection limiter_ops (Some UserSpeedBucket) demo_ctx 6
     \<lparr>tLimiter = demo_empty, tStats = Some NewStatsTracker, connSequence = 0\<rparr>"

lemma demo_call_eval:
  "fst demo_call \<noteq> None"
  "length (gget [] (activeConnByUser (tLimiter (snd demo_call))) ''user-1'') = 1"
  "map_option closeDone (fst demo_call) = Some False"
  by code_simp+

lemma demo_start_reachable: "world_reachable limiter_ops limiter_env (NewLimiterWithConfig demo_cfg) demo_start"
proof -
  have "limiter_env (wLimiter (start_world (NewLimiterWithConfig demo_cfg))) demo_empty"
    unfolding demo_empty_def start_world_def by (simp add: env_users)
  then show ?thesis unfolding world_reachable_def demo_start_def by (blast intro: step_env)
qed

lemma demo_tracker:
  "tracker_of demo_start = \<lparr>tLimiter = demo_empty, tStats = Some NewStatsTracker, connSequence = 0\<rparr>"
  "wSeq demo_start = 0" "wConns demo_start = []"
  by (simp_all add: tracker_of_def demo_start_def start_world_def)

lemma demo_run:
  obtains w c where "(world_step limiter_ops limiter_env)\<^sup>*\<^sup>* demo_start w" "tracker_of w = snd demo_call"
    "wConns w = [c]" "csPhase c = Open" "\<not> closeDone (csConn c)" "uploadBuf (csConn c) = 0"
proof -
  have "wSeq demo_start + 1 \<noteq> 0" by (simp add: demo_tracker)
  moreover have "limiter_env l (snd (UserSpeedBucket u l))" for u l by (rule env_bucket)
  moreover have "RoutedConnection limiter_ops (Some UserSpeedBucket) demo_ctx 6 (tracker_of demo_start)
      = (fst demo_call, snd demo_call)"
    by (simp add: demo_tracker demo_call_def)
  ultimately have "\<exists>w c. (world_step limiter_ops limiter_env)\<^sup>*\<^sup>* demo_start w \<and> tracker_of w = snd demo_call
      \<and> wConns w = wConns demo_start @ [c]
      \<and> (case fst demo_call of None \<Rightarrow> csPhase c = Refused
         | Some k \<Rightarrow> csPhase c = Open \<and> csConn c = k\<lparr>speedBucket := None\<rparr> \<and> uploadBuf k = 0 \<and> downloadBuf k = 0)"
    by (rule RoutedConnection_steps)
  then obtain w c where w: "(world_step limiter_ops limiter_env)\<^sup>*\<^sup>* demo_start w" "tracker_of w = snd demo_call"
      "wConns w = wConns demo_start @ [c]"
      and c: "case fst demo_call of None \<Rightarrow> csPhase c = Refused
         | Some k \<Rightarrow> csPhase c = Open \<and> csConn c = k\<lparr>speedBucket := None\<rparr> \<and> uploadBuf k = 0 \<and> downloadBuf k = 0"
    by blast
  obtain k where k: "fst demo_call = Some k" using demo_call_eval(1) by auto
  show ?thesis
    by (rule that [OF w(1,2)]) (use w(3) c k demo_call_eval(3) in \<open>auto simp: demo_tracker\<close>)
qed

lemma demo_world:
  obtains w c where "world_reachable limiter_ops limiter_env (NewLimiterWithConfig demo_cfg) w"
    "wConns w = [c]" "csPhase c = Open" "\<not> closeDone (csConn c)" "uploadBuf (csConn c) = 0"
    "length (gget [] (activeConnByUser (wLimiter w)) ''user-1'') = 1"
proof -
  obtain w c where w: "(world_step limiter_ops limiter_env)\<^sup>*\<^sup>* demo_start w" "tracker_of w = snd demo_call"
    "wConns w = [c]" "csPhase c = Open" "\<not> closeDone (csConn c)" "uploadBuf (csConn c) = 0"
    by (rule demo_run)
  have "world_reachable limiter_ops limiter_env (NewLimiterWithConfig demo_cfg) w"
    using demo_start_reachable w(1) unfolding world_reachable_def by (rule rtranclp_trans)
  moreover have "wLimiter w = tLimiter (snd demo_call)" using w(2) by (metis tracker_of_simps(1))
  ultimately show ?thesis using w demo_call_eval that by simp
qed

theorem tracker_indexes_exact_witness:
  "\<exists>w. world_reachable limiter_ops limiter_env (NewLimiterWithConfig demo_cfg) w
    \<and> length (connections_of user_key ''user-1'' w) = 1"
  by (rule demo_world) (metis tracker_indexes_exact)


theorem RoutedConnection_is_run_witness:
  "\<exists>w c. (world_step limiter_ops limiter_env)\<^sup>*\<^sup>* demo_start w \<and> tracker_of w = snd demo_call
    \<and> wConns w = [c] \<and> csPhase c = Open"
proof -
  have "wSeq demo_start + 1 \<noteq> 0" by (simp add: demo_tracker)
  moreover have "limiter_env l (snd (UserSpeedBucket u l))" for u l by (rule env_bucket)
  moreover have "RoutedConnection limiter_ops (Some UserSpeedBucket) demo_ctx 6 (tracker_of demo_start)
      = (fst demo_call, snd demo_call)"
    by (simp add: demo_tracker demo_call_def)
  ultimately have "\<exists>w c. (world_step limiter_ops limiter_env)\<^sup>*\<^sup>* demo_start w \<and> tracker_of w = snd demo_call
      \<and> wConns w = wConns demo_start @ [c]
      \<and> (case fst demo_call of None \<Rightarrow> csPhase c = Refused
         | Some k \<Rightarrow> csPhase c = Open \<and> csConn c = k\<lparr>speedBucket := None\<rparr> \<and> uploadBuf k = 0 \<and> downloadBuf k = 0)"
    by (rule RoutedConnection_is_run)
  then obtain w c where w: "(world_step limiter_ops limiter_env)\<^sup>*\<^sup>* demo_start w" "tracker_of w = snd demo_call"
      "wConns w = wConns demo_start @ [c]"
      and c: "case fst demo_call of None \<Rightarrow> csPhase c = Refused
         | Some k \<Rightarrow> csPhase c = Open \<and> csConn c = k\<lparr>speedBucket := None\<rparr> \<and> uploadBuf k = 0 \<and> downloadBuf k = 0"
    by blast
  obtain k where k: "fst demo_call = Some k" using demo_call_eval(1) by auto
  have "wConns w = [c]" "csPhase c = Open" using w(3) c k by (simp_all add: demo_tracker)
  with w(1,2) show ?thesis by blast
qed

theorem conn_methods_are_runs_witness:
  "\<exists>w w' k. world_reachable limiter_ops limiter_env (NewLimiterWithConfig demo_cfg) w
    \<and> (world_step limiter_ops limiter_env)\<^sup>*\<^sup>* w w'
    \<and> (k, tracker_of w') = conn_Read 2000000 (csConn (wConns w ! 0)) (tracker_of w)"
proof -
  obtain w c where w: "world_reachable limiter_ops limiter_env (NewLimiterWithConfig demo_cfg) w"
    "wConns w = [c]" "csPhase c = Open" "\<not> closeDone (csConn c)" "uploadBuf (csConn c) = 0"
    by (rule demo_world)
  have c: "c = wConns w ! 0" and len: "0 < length (wConns w)" using w(2) by simp_all
  have n: "(0 :: int) < 2000000" "sint (buf Up (csConn c)) + 2000000 \<le> maxInt64"
    using w(5) by (simp_all add: maxInt64_def)
  note run = conn_methods_are_runs [OF len c w(3,4) n, of limiter_ops limiter_env, THEN conjunct1]
  then have "\<exists>w' k. (world_step limiter_ops limiter_env)\<^sup>*\<^sup>* w w'
      \<and> (k, tracker_of w') = conn_Read 2000000 (csConn c) (tracker_of w)"
    unfolding dir.case by blast
  with w(1) show ?thesis unfolding c by blast
qed

theorem second_tracker_hides_connection_witness:
  "gget [] (activeConnByUser (limiter_Unregister (limiter_Register (limiter_Register demo_empty
      (fst (buildConnMeta demo_ctx 6 (newLimiterTracker demo_empty None))))
      (fst (buildConnMeta demo_ctx 7 (newLimiterTracker (limiter_Register demo_empty
         (fst (buildConnMeta demo_ctx 6 (newLimiterTracker demo_empty None)))) None))))
      (fst (buildConnMeta demo_ctx 6 (newLimiterTracker demo_empty None))))) ''user-1'' = []"
proof -
  have "user_key (fst (buildConnMeta demo_ctx t (newLimiterTracker l s))) = Some ''user-1''" for t s and l :: limiter
    by (simp add: buildConnMeta_def demo_ctx_def demo_name Let_def)
  from second_tracker_hides_connection [OF demo_empty_rep this refl refl refl this refl]
  show ?thesis by blast
qed

theorem bytes_after_close_stay_witness:
  "\<exists>c t. tStats (snd (conn_Close limiter_ops (fst (conn_Read 700 c t)) (snd (conn_Read 700 c t)))) = tStats t
    \<and> uploadBuf (fst (conn_Close limiter_ops (fst (conn_Read 700 c t)) (snd (conn_Read 700 c t)))) = 700"
proof -
  let ?c = "\<lparr>meta = demo_conn ''1'' 0x01010101, speedBucket = None, closeDone = False, uploadBuf = 5, downloadBuf = 0\<rparr>"
  let ?t = "\<lparr>tLimiter = demo_limiter, tStats = Some NewStatsTracker, connSequence = 1\<rparr>"
  let ?r = "conn_Close limiter_ops ?c ?t"
  have "tStats (snd (conn_Close limiter_ops (fst (conn_Read 700 (fst ?r) (snd ?r))) (snd (conn_Read 700 (fst ?r) (snd ?r))))) = tStats (snd ?r)
    \<and> uploadBuf (fst (conn_Close limiter_ops (fst (conn_Read 700 (fst ?r) (snd ?r))) (snd (conn_Read 700 (fst ?r) (snd ?r))))) = word_of_int 700"
    by (rule bytes_after_close_stay [OF prod.collapse _ _ _ _ prod.collapse prod.collapse])
       (simp_all add: trafficBufferThreshold_def)
  then show ?thesis by (intro exI [of _ "fst ?r"] exI [of _ "snd ?r"]) simp
qed

end
