(* ===== verification/Limiter_Reports.thy ===== *)
theory Limiter_Reports
  imports Limiter_Rates
begin

text \<open>
  The reports of the limiter over whole histories: the alive payload lists, for every user
  that the panel knows and that has a live connection, its distinct live addresses in
  order, and the device limit of the next minute remembers exactly these.
\<close>

section \<open>Users are filed under their own names\<close>

definition users_named :: "limiter \<Rightarrow> bool" where
  "users_named l \<longleftrightarrow> (\<forall>name u. map_of (userByName l) name = Some u \<longrightarrow> limiterUserName (uID u) = name)"

lemma users_named_UpdateUsers: "users_named (UpdateUsers now us l)"
  using user_named_Some by (auto simp: users_named_def UpdateUsers_maps)

lemma users_named_cong: "userByName l' = userByName l \<Longrightarrow> users_named l' = users_named l"
  by (simp add: users_named_def)

lemma userByName_frames:
  "userByName (limiter_Register l m) = userByName l"
  "userByName (limiter_Unregister l m) = userByName l"
  "userByName (UpdateAliveList alive l) = userByName l"
  "userByName (snd (BuildAlivePayload l)) = userByName l"
  "userByName (snd (limiter_Check l m now)) = userByName l"
  using limiter_Check_limits [of l m now]
  by (simp_all add: frame_defs same_limits_def split: prod.splits)

definition reportable :: "limiter_config \<Rightarrow> limiter \<times> conn_meta list \<Rightarrow> bool" where
  "reportable cfg s \<longleftrightarrow> within_limits cfg s \<and> users_named (fst s)"

interpretation rep: stepper admission_step "reportable cfg" admission_ok for cfg
proof
  fix s e
  assume inv: "reportable cfg s" and ok: "admission_ok s e"
  then have "within_limits cfg (admission_step s e)"
    by (auto simp: reportable_def intro: adm.step_keeps)
  moreover have "users_named (fst (admission_step s e))"
  proof (cases e)
    case (Admit m now)
    obtain d l' where C: "limiter_Check (fst s) m now = (d, l')" by (rule prod.exhaust)
    then have "userByName l' = userByName (fst s)" using userByName_frames(5) [of "fst s" m now] by simp
    then show ?thesis using inv Admit C
      by (cases s) (simp add: reportable_def userByName_frames cong: users_named_cong)
  qed (use inv in \<open>cases s; simp add: reportable_def users_named_UpdateUsers userByName_frames
      cong: users_named_cong\<close>)+
  ultimately show "reportable cfg (admission_step s e)" by (simp add: reportable_def)
qed

lemma reportable_New: "reportable cfg (NewLimiterWithConfig cfg, [])"
  using within_limits_New by (simp add: reportable_def users_named_def NewLimiterWithConfig_def)

section \<open>Who is online\<close>

lemma online_fold:
  fixes f :: "string \<Rightarrow> string goset"
  assumes "gomap_ok acc"
    and "out = foldl (\<lambda>current (userName, _).
      let ips = f userName in if ips = [] then current else AList.update userName ips current) acc es"
  shows "gomap_ok out
    \<and> map_of out u = (if u \<in> fst ` set es \<and> f u \<noteq> [] then Some (f u) else map_of acc u)"
  using assms
proof (induction es arbitrary: acc)
  case (Cons e es)
  obtain n c where e: "e = (n, c)" by (cases e)
  define acc' where "acc' = (if f n = [] then acc else AList.update n (f n) acc)"
  have "gomap_ok acc'" using Cons.prems(1) by (simp add: acc'_def)
  from Cons.IH [OF this] Cons.prems(2) e
  have "gomap_ok out \<and> map_of out u = (if u \<in> fst ` set es \<and> f u \<noteq> [] then Some (f u) else map_of acc' u)"
    by (simp add: acc'_def Let_def)
  then show ?case using e by (cases "u = n") (auto simp: acc'_def)
qed simp

lemma live_user_indexed:
  assumes "limiter_rep l live" and "currentUserIPs l u \<noteq> []"
  shows "u \<in> fst ` set (activeConnByUser l)"
proof -
  obtain k where "k \<in> set (live_ips u live)"
    using assms currentUserIPs_live(1) [OF assms(1), of u] by (cases "currentUserIPs l u") auto
  then have "conns_with user_key u live \<noteq> []" by (auto simp: live_ips_def List.map_filter_def)
  moreover have "idx_rep user_key live (activeConnByUser l)" using assms(1) by (simp add: limiter_rep_def)
  ultimately have "length (gget [] (activeConnByUser l) u) \<noteq> 0" by (simp add: idx_rep_length)
  then have "map_of (activeConnByUser l) u \<noteq> None"
    by (auto simp: gget_def split: option.splits)
  then show ?thesis by (simp only: map_of_in_keys)
qed

lemma online_sets:
  assumes "limiter_rep l live"
  shows "gomap_ok (currentOnlineDeviceSets l)"
    and "map_of (currentOnlineDeviceSets l) u =
      (if currentUserIPs l u = [] then None else Some (currentUserIPs l u))"
proof -
  from online_fold [where acc = "[]" and f = "currentUserIPs l" and es = "activeConnByUser l", OF _ refl]
  show "gomap_ok (currentOnlineDeviceSets l)"
    "map_of (currentOnlineDeviceSets l) u = (if currentUserIPs l u = [] then None else Some (currentUserIPs l u))"
    using live_user_indexed [OF assms, of u] by (auto simp: currentOnlineDeviceSets_def)
qed

section \<open>The payload\<close>

lemma alive_fold:
  assumes "users_named l" and "distinct (map fst es)"
    and "\<forall>e \<in> set es. \<forall>u. map_of (userByName l) (fst e) = Some u
           \<longrightarrow> uID u \<notin> fst ` set pay \<and> fst e \<notin> fst ` set old"
    and "foldl (alive_step l) (pay, old) es = (pay', old')"
  shows "map_of pay' uid =
      (case map_of es (limiterUserName uid) of
         Some ips \<Rightarrow> if map_of (userByName l) (limiterUserName uid) = None then map_of pay uid else Some (sort ips)
       | None \<Rightarrow> map_of pay uid)
    \<and> map_of old' name =
      (case map_of es name of
         Some ips \<Rightarrow> if map_of (userByName l) name = None then map_of old name else Some ips
       | None \<Rightarrow> map_of old name)"
  using assms(2-)
proof (induction es arbitrary: pay old)
  case (Cons e es)
  obtain n ips where e: "e = (n, ips)" by (cases e)
  show ?case
  proof (cases "map_of (userByName l) n")
    case None
    have "foldl (alive_step l) (pay, old) es = (pay', old')"
      using Cons.prems(3) e None by (simp add: alive_step_def [of l "(pay, old)"])
    from Cons.IH [OF _ _ this] show ?thesis using Cons.prems e None
      by (auto simp: map_of_eq_None_iff split: option.splits dest!: map_of_SomeD intro: rev_image_eqI)
  next
    case (Some u)
    have name: "limiterUserName (uID u) = n" using assms(1) Some by (simp add: users_named_def)
    let ?pay = "AList.update (uID u) (sort ips) pay" and ?old = "AList.update n ips old"
    have run: "foldl (alive_step l) (?pay, ?old) es = (pay', old')"
      using Cons.prems(3) e Some by (simp add: alive_step_def [of l "(pay, old)"])
    have "uID v \<notin> fst ` set ?pay \<and> fst e' \<notin> fst ` set ?old"
      if "e' \<in> set es" "map_of (userByName l) (fst e') = Some v" for e' v
    proof -
      have "fst e' \<noteq> n" using that(1) Cons.prems(1) e by (auto intro: rev_image_eqI)
      moreover have "limiterUserName (uID v) = fst e'" using assms(1) that(2) by (simp add: users_named_def)
      ultimately have "uID v \<noteq> uID u" using name by auto
      then show ?thesis using Cons.prems(2) that \<open>fst e' \<noteq> n\<close> by (auto simp: dom_update)
    qed
    with Cons.IH [OF _ _ run] have IH: "map_of pay' uid =
      (case map_of es (limiterUserName uid) of
         Some ips \<Rightarrow> if map_of (userByName l) (limiterUserName uid) = None then map_of ?pay uid else Some (sort ips)
       | None \<Rightarrow> map_of ?pay uid)
      \<and> map_of old' name =
      (case map_of es name of
         Some ips \<Rightarrow> if map_of (userByName l) name = None then map_of ?old name else Some ips
       | None \<Rightarrow> map_of ?old name)"
      using Cons.prems(1) by auto
    have "map_of es n = None" using Cons.prems(1) e by (auto simp: map_of_eq_None_iff)
    moreover have "limiterUserName uid = n \<longleftrightarrow> uid = uID u" using name by auto
    ultimately show ?thesis using IH e Some
      by (cases "uid = uID u"; cases "name = n") (auto simp del: not_None_eq split: option.split)
  qed
qed simp

lemma sort_ips: "distinct xs \<Longrightarrow> sort (xs :: string list) = sorted_list_of_set (set xs)"
  by (simp add: sorted_list_of_set_sort_remdups distinct_remdups_id)

lemma alive_payload:
  assumes rep: "limiter_rep l live" and named: "users_named l"
    and run: "BuildAlivePayload l = (payload, l')"
  shows "map_of payload uid =
      (if map_of (userByName l) (limiterUserName uid) = None \<or> live_ips (limiterUserName uid) live = [] then None
       else Some (sorted_list_of_set (set (live_ips (limiterUserName uid) live))))"
    and "set (gget [] (oldUserOnline l') name) =
      (if map_of (userByName l) name = None then {} else set (live_ips name live))"
proof -
  obtain pay old where fold: "foldl (alive_step l) ([], []) (currentOnlineDeviceSets l) = (pay, old)"
    by (rule prod.exhaust)
  have eq: "payload = pay" "l' = l\<lparr>oldUserOnline := old\<rparr>"
    using run fold by (auto simp: BuildAlivePayload_def)
  have "distinct (map fst (currentOnlineDeviceSets l))"
    using online_sets(1) [OF rep] by (simp add: gomap_ok_def)
  note fold_maps = alive_fold [OF named this _ fold, simplified, unfolded online_sets(2) [OF rep]]
  have empty: "currentUserIPs l u = [] \<longleftrightarrow> live_ips u live = []" for u
    using currentUserIPs_live(3) [OF rep, of u] by (metis length_0_conv)
  note ips = currentUserIPs_live(1,2) [OF rep]
  show "map_of payload uid =
      (if map_of (userByName l) (limiterUserName uid) = None \<or> live_ips (limiterUserName uid) live = [] then None
       else Some (sorted_list_of_set (set (live_ips (limiterUserName uid) live))))"
    using fold_maps [of uid] empty ips sort_ips [OF ips(2)] by (auto simp: eq)
  show "set (gget [] (oldUserOnline l') name) =
      (if map_of (userByName l) name = None then {} else set (live_ips name live))"
    using fold_maps [of 0 name] empty [of name] ips(1) [of name] by (auto simp: eq gget_def)
qed

text \<open>
  C25: The alive report is exact. After any history of admissions, departures and updates,
  the payload holds a user exactly when the panel's last user list names it and it has a
  live connection with an address; its entry is the set of its live addresses, each once and
  in order, and the same set is remembered for the device limit until the next report.
\<close>

theorem alive_payload_exact:
  assumes "admissible admission_step admission_ok (NewLimiterWithConfig cfg, []) es"
    and "foldl admission_step (NewLimiterWithConfig cfg, []) es = (l, live)"
    and "BuildAlivePayload l = (payload, l')"
  shows "map_of payload uid =
      (if map_of (userByName l) (limiterUserName uid) = None \<or> live_ips (limiterUserName uid) live = [] then None
       else Some (sorted_list_of_set (set (live_ips (limiterUserName uid) live))))
    \<and> set (gget [] (oldUserOnline l') name) =
      (if map_of (userByName l) name = None then {} else set (live_ips name live))"
proof -
  have "reportable cfg (l, live)" using rep.run_keeps [OF reportable_New assms(1)] assms(2) by simp
  then have "limiter_rep l live" "users_named l" by (simp_all add: reportable_def within_limits_def)
  from alive_payload [OF this assms(3)] show ?thesis by blast
qed

theorem alive_payload_exact_witness:
  "map_of (fst (BuildAlivePayload (fst (foldl admission_step (NewLimiterWithConfig demo_cfg, [])
     [SetUsers 0 [demo_user], Admit (demo_conn ''1'' 0x01010101) 1])))) 1 = Some [''1.1.1.1'']"
proof -
  let ?es = "[SetUsers 0 [demo_user], Admit (demo_conn ''1'' 0x01010101) 1]"
  obtain l live where run: "foldl admission_step (NewLimiterWithConfig demo_cfg, []) ?es = (l, live)"
    by (rule prod.exhaust)
  obtain payload l' where build: "BuildAlivePayload l = (payload, l')" by (rule prod.exhaust)
  have adm: "admissible admission_step admission_ok (NewLimiterWithConfig demo_cfg, []) ?es" by code_simp
  have known: "map_of (userByName (fst (foldl admission_step (NewLimiterWithConfig demo_cfg, []) ?es)))
    (limiterUserName 1) \<noteq> None" by code_simp
  have ips: "live_ips (limiterUserName 1) (snd (foldl admission_step (NewLimiterWithConfig demo_cfg, []) ?es))
    = [''1.1.1.1'']" by code_simp
  have "map_of payload 1 = Some [''1.1.1.1'']"
    using alive_payload_exact [OF adm run build, of 1] known ips unfolding run by simp
  then show ?thesis unfolding run by (simp add: build)
qed

end
