(* ===== verification/Json.thy ===== *)
theory Json
  imports GoStrings
begin

text \<open>
  The part of Go's \<open>encoding/json\<close> that the program relies on: the values, the compact
  text that \<open>Marshal\<close> writes and the parser behind \<open>Unmarshal\<close>, on bytes.

  Numbers keep their literal, because the program decodes them into integers of fixed width
  and Go does that from the literal. Members of an object keep their order and duplicates,
  because decoding into a struct goes through them one by one. The main result is that
  parsing inverts rendering. The parser takes fuel for the recursion; twice the length of
  the input is always enough (\<open>parse_value_enough\<close>).
\<close>

section \<open>Values and their text\<close>

datatype json =
    JNull
  | JBool bool
  | JNum string
  | JStr string
  | JArr "json list"
  | JObj "(string \<times> json) list"

definition byte :: "char \<Rightarrow> nat" where
  "byte c = of_char c"

definition hex_char :: "nat \<Rightarrow> char" where
  "hex_char d = digit_char d"

text \<open>
  Width in bytes of the valid UTF-8 sequence that starts a string whose first byte is not
  ASCII, 0 when there is none (\<open>utf8.DecodeRune\<close>).
\<close>

definition cont :: "char \<Rightarrow> bool" where
  "cont c \<longleftrightarrow> 0x80 \<le> byte c \<and> byte c \<le> 0xBF"

definition utf8_width :: "string \<Rightarrow> nat" where
  "utf8_width s =
     (case s of
        a # b # r \<Rightarrow>
          if 0xC2 \<le> byte a \<and> byte a \<le> 0xDF \<and> cont b then 2
          else (case r of
                  c # r' \<Rightarrow>
                    if 0xE0 \<le> byte a \<and> byte a \<le> 0xEF \<and> cont b \<and> cont c
                       \<and> (byte a = 0xE0 \<longrightarrow> 0xA0 \<le> byte b) \<and> (byte a = 0xED \<longrightarrow> byte b \<le> 0x9F) then 3
                    else (case r' of
                            d # _ \<Rightarrow>
                              if 0xF0 \<le> byte a \<and> byte a \<le> 0xF4 \<and> cont b \<and> cont c \<and> cont d
                                 \<and> (byte a = 0xF0 \<longrightarrow> 0x90 \<le> byte b) \<and> (byte a = 0xF4 \<longrightarrow> byte b \<le> 0x8F) then 4
                              else 0
                          | [] \<Rightarrow> 0)
                | [] \<Rightarrow> 0)
      | _ \<Rightarrow> 0)"

definition replacement :: string where
  "replacement = [CHR 0xEF, CHR 0xBF, CHR 0xBD]"

text \<open>
  \<open>appendString\<close> with HTML escaping. The two separators U+2028 and U+2029 are written as
  escapes, invalid bytes as the escape of the replacement rune.
\<close>

definition escape_ascii :: "char \<Rightarrow> string" where
  "escape_ascii c =
     (if c = CHR 0x22 then [CHR 0x5C, CHR 0x22]
      else if c = CHR 0x5C then [CHR 0x5C, CHR 0x5C]
      else if c = CHR 0x08 then [CHR 0x5C, CHR ''b'']
      else if c = CHR 0x0C then [CHR 0x5C, CHR ''f'']
      else if c = CHR 0x0A then [CHR 0x5C, CHR ''n'']
      else if c = CHR 0x0D then [CHR 0x5C, CHR ''r'']
      else if c = CHR 0x09 then [CHR 0x5C, CHR ''t'']
      else if byte c < 32 \<or> c = CHR ''<'' \<or> c = CHR ''>'' \<or> c = CHR ''&''
      then [CHR 0x5C, CHR ''u'', CHR ''0'', CHR ''0'', hex_char (byte c div 16), hex_char (byte c mod 16)]
      else [c])"

function escape_string :: "string \<Rightarrow> string" where
  "escape_string [] = []"
| "escape_string (c # s) =
     (if byte c < 128 then escape_ascii c @ escape_string s
      else if utf8_width (c # s) = 0 then [CHR 0x5C] @ ''ufffd'' @ escape_string s
      else if take 3 (c # s) = [CHR 0xE2, CHR 0x80, CHR 0xA8] then [CHR 0x5C] @ ''u2028'' @ escape_string (drop 2 s)
      else if take 3 (c # s) = [CHR 0xE2, CHR 0x80, CHR 0xA9] then [CHR 0x5C] @ ''u2029'' @ escape_string (drop 2 s)
      else take (utf8_width (c # s)) (c # s) @ escape_string (drop (utf8_width (c # s) - 1) s))"
  by pat_completeness auto
termination by (relation "measure length") auto

definition quote :: "string \<Rightarrow> string" where
  "quote s = [CHR 0x22] @ escape_string s @ [CHR 0x22]"

fun comma_sep :: "string list \<Rightarrow> string" where
  "comma_sep [] = []"
| "comma_sep [x] = x"
| "comma_sep (x # xs) = x @ '','' @ comma_sep xs"

fun render :: "json \<Rightarrow> string" where
  "render JNull = ''null''"
| "render (JBool b) = (if b then ''true'' else ''false'')"
| "render (JNum n) = n"
| "render (JStr s) = quote s"
| "render (JArr js) = ''['' @ comma_sep (map render js) @ '']''"
| "render (JObj ms) = ''{'' @ comma_sep (map (\<lambda>(k, v). quote k @ '':'' @ render v) ms) @ ''}''"

section \<open>Parsing strings and numbers\<close>

definition json_space :: "char \<Rightarrow> bool" where
  "json_space c \<longleftrightarrow> c \<in> {CHR 0x20, CHR 0x09, CHR 0x0A, CHR 0x0D}"

definition skip_space :: "string \<Rightarrow> string" where
  "skip_space s = dropWhile json_space s"

definition hex_value :: "char \<Rightarrow> nat option" where
  "hex_value c =
     (if 48 \<le> byte c \<and> byte c \<le> 57 then Some (byte c - 48)
      else if 97 \<le> byte c \<and> byte c \<le> 102 then Some (byte c - 87)
      else if 65 \<le> byte c \<and> byte c \<le> 70 then Some (byte c - 55)
      else None)"

text \<open>Four hexadecimal digits at the front of a string.\<close>

definition hex4 :: "string \<Rightarrow> nat option" where
  "hex4 s =
     (case s of
        a # b # c # d # _ \<Rightarrow>
          (case (hex_value a, hex_value b, hex_value c, hex_value d) of
             (Some w, Some x, Some y, Some z) \<Rightarrow> Some (4096 * w + 256 * x + 16 * y + z)
           | _ \<Rightarrow> None)
      | _ \<Rightarrow> None)"

definition encode_rune :: "nat \<Rightarrow> string" where
  "encode_rune r =
     (if r < 0x80 then [char_of r]
      else if r < 0x800 then [char_of (0xC0 + r div 64), char_of (0x80 + r mod 64)]
      else if r < 0x10000 then [char_of (0xE0 + r div 4096), char_of (0x80 + r div 64 mod 64), char_of (0x80 + r mod 64)]
      else [char_of (0xF0 + r div 262144), char_of (0x80 + r div 4096 mod 64),
            char_of (0x80 + r div 64 mod 64), char_of (0x80 + r mod 64)])"

definition surrogate :: "nat \<Rightarrow> bool" where
  "surrogate r \<longleftrightarrow> 0xD800 \<le> r \<and> r < 0xE000"

text \<open>
  What follows a surrogate escape: the code point of a valid pair, when the next six bytes
  complete one.
\<close>

definition surrogate_pair :: "nat \<Rightarrow> string \<Rightarrow> nat option" where
  "surrogate_pair r s =
     (if take 2 s = [CHR 0x5C, CHR ''u''] \<and> r < 0xDC00
      then case hex4 (drop 2 s) of
             None \<Rightarrow> None
           | Some r' \<Rightarrow>
               if 0xDC00 \<le> r' \<and> r' < 0xE000 then Some ((r - 0xD800) * 1024 + (r' - 0xDC00) + 0x10000) else None
      else None)"

definition simple_escape :: "char \<Rightarrow> char option" where
  "simple_escape c =
     (if c = CHR 0x22 \<or> c = CHR 0x5C \<or> c = CHR ''/'' then Some c
      else if c = CHR ''b'' then Some (CHR 0x08)
      else if c = CHR ''f'' then Some (CHR 0x0C)
      else if c = CHR ''n'' then Some (CHR 0x0A)
      else if c = CHR ''r'' then Some (CHR 0x0D)
      else if c = CHR ''t'' then Some (CHR 0x09)
      else None)"

definition prepend :: "string \<Rightarrow> (string \<times> 'r) option \<Rightarrow> (string \<times> 'r) option" where
  "prepend p r = map_option (\<lambda>(t, rest). (p @ t, rest)) r"

text \<open>The rest of a string literal after the opening quote: its bytes and what follows it.\<close>

function parse_string :: "string \<Rightarrow> (string \<times> string) option" where
  "parse_string [] = None"
| "parse_string (c # s) =
     (if c = CHR 0x22 then Some ([], s)
      else if c = CHR 0x5C then
        (case s of
           [] \<Rightarrow> None
         | e # s' \<Rightarrow>
             if e = CHR ''u'' then
               (case hex4 s' of
                  None \<Rightarrow> None
                | Some r \<Rightarrow>
                    if surrogate r then
                      (case surrogate_pair r (drop 4 s') of
                         Some r' \<Rightarrow> prepend (encode_rune r') (parse_string (drop 10 s'))
                       | None \<Rightarrow> prepend replacement (parse_string (drop 4 s')))
                    else prepend (encode_rune r) (parse_string (drop 4 s')))
             else (case simple_escape e of
                     None \<Rightarrow> None
                   | Some b \<Rightarrow> prepend [b] (parse_string s')))
      else if byte c < 32 then None
      else if byte c < 128 then prepend [c] (parse_string s)
      else if utf8_width (c # s) = 0 then prepend replacement (parse_string s)
      else prepend (take (utf8_width (c # s)) (c # s)) (parse_string (drop (utf8_width (c # s) - 1) s)))"
  by pat_completeness auto
termination by (relation "measure length") auto

text \<open>The number literal at the front of a string, longest match of the JSON grammar.\<close>

definition take_digits :: "string \<Rightarrow> string \<times> string" where
  "take_digits s = (takeWhile is_digit s, dropWhile is_digit s)"

definition parse_int_part :: "string \<Rightarrow> (string \<times> string) option" where
  "parse_int_part s =
     (case s of
        [] \<Rightarrow> None
      | c # r \<Rightarrow>
          if c = CHR ''0'' then Some ([c], r)
          else if is_digit c then Some (take_digits s) else None)"

definition parse_frac :: "string \<Rightarrow> (string \<times> string) option" where
  "parse_frac s =
     (case s of
        c # r \<Rightarrow>
          if c = CHR ''.'' then
            (case take_digits r of (ds, rest) \<Rightarrow> if ds = [] then None else Some (c # ds, rest))
          else Some ([], s)
      | [] \<Rightarrow> Some ([], s))"

definition parse_exp :: "string \<Rightarrow> (string \<times> string) option" where
  "parse_exp s =
     (case s of
        c # r \<Rightarrow>
          if c = CHR ''e'' \<or> c = CHR ''E'' then
            (let (sign, r') = (case r of d # q \<Rightarrow> if d = CHR ''+'' \<or> d = CHR ''-'' then ([d], q) else ([], r)
                                       | [] \<Rightarrow> ([], r))
             in case take_digits r' of (ds, rest) \<Rightarrow> if ds = [] then None else Some (c # sign @ ds, rest))
          else Some ([], s)
      | [] \<Rightarrow> Some ([], s))"

definition parse_number :: "string \<Rightarrow> (string \<times> string) option" where
  "parse_number s =
     (let (sign, s0) = (case s of c # r \<Rightarrow> if c = CHR ''-'' then ([c], r) else ([], s) | [] \<Rightarrow> ([], s))
      in case parse_int_part s0 of
           None \<Rightarrow> None
         | Some (i, s1) \<Rightarrow>
             (case parse_frac s1 of
                None \<Rightarrow> None
              | Some (f, s2) \<Rightarrow>
                  (case parse_exp s2 of
                     None \<Rightarrow> None
                   | Some (e, s3) \<Rightarrow> Some (sign @ i @ f @ e, s3))))"

section \<open>Parsing values\<close>

text \<open>
  \<open>n\<close> is fuel, \<open>d\<close> the nesting that is still allowed (Go stops at 10000). The three
  functions parse a value, the elements of an array after its bracket, the members of an
  object after its brace.
\<close>

fun parse_value :: "nat \<Rightarrow> nat \<Rightarrow> string \<Rightarrow> (json \<times> string) option"
  and parse_elems :: "nat \<Rightarrow> nat \<Rightarrow> string \<Rightarrow> (json list \<times> string) option"
  and parse_members :: "nat \<Rightarrow> nat \<Rightarrow> string \<Rightarrow> ((string \<times> json) list \<times> string) option" where
  "parse_value 0 d s = None"
| "parse_value (Suc n) d s =
     (case skip_space s of
        [] \<Rightarrow> None
      | c # r \<Rightarrow>
          if c = CHR 0x22 then map_option (\<lambda>(t, rest). (JStr t, rest)) (parse_string r)
          else if c = CHR ''['' then
            (if d = 0 then None
             else (case skip_space r of
                     [] \<Rightarrow> None
                   | e # r' \<Rightarrow>
                       if e = CHR '']'' then Some (JArr [], r')
                       else map_option (\<lambda>(js, rest). (JArr js, rest)) (parse_elems n (d - 1) r)))
          else if c = CHR ''{'' then
            (if d = 0 then None
             else (case skip_space r of
                     [] \<Rightarrow> None
                   | e # r' \<Rightarrow>
                       if e = CHR ''}'' then Some (JObj [], r')
                       else map_option (\<lambda>(ms, rest). (JObj ms, rest)) (parse_members n (d - 1) r)))
          else if take 4 (c # r) = ''null'' then Some (JNull, drop 3 r)
          else if take 4 (c # r) = ''true'' then Some (JBool True, drop 3 r)
          else if take 5 (c # r) = ''false'' then Some (JBool False, drop 4 r)
          else map_option (\<lambda>(k, rest). (JNum k, rest)) (parse_number (c # r)))"
| "parse_elems 0 d s = None"
| "parse_elems (Suc n) d s =
     (case parse_value n d s of
        None \<Rightarrow> None
      | Some (v, r) \<Rightarrow>
          (case skip_space r of
             [] \<Rightarrow> None
           | c # r' \<Rightarrow>
               if c = CHR '','' then map_option (\<lambda>(js, rest). (v # js, rest)) (parse_elems n d r')
               else if c = CHR '']'' then Some ([v], r') else None))"
| "parse_members 0 d s = None"
| "parse_members (Suc n) d s =
     (case skip_space s of
        [] \<Rightarrow> None
      | q # s' \<Rightarrow>
          if q \<noteq> CHR 0x22 then None
          else (case parse_string s' of
             None \<Rightarrow> None
           | Some (k, s1) \<Rightarrow>
               (case skip_space s1 of
                  [] \<Rightarrow> None
                | col # s2 \<Rightarrow>
                    if col \<noteq> CHR '':'' then None
                    else (case parse_value n d s2 of
                       None \<Rightarrow> None
                     | Some (v, r) \<Rightarrow>
                         (case skip_space r of
                            [] \<Rightarrow> None
                          | c # r' \<Rightarrow>
                              if c = CHR '','' then map_option (\<lambda>(ms, rest). ((k, v) # ms, rest)) (parse_members n d r')
                              else if c = CHR ''}'' then Some ([(k, v)], r') else None)))))"

definition max_nesting :: nat where
  "max_nesting = 10000"

definition parse_json :: "string \<Rightarrow> json option" where
  "parse_json s =
     (case parse_value (2 * length s + 1) max_nesting s of
        None \<Rightarrow> None
      | Some (v, r) \<Rightarrow> if skip_space r = [] then Some v else None)"

section \<open>The fuel is enough\<close>

lemma length_skip_space [simp]: "length (skip_space s) \<le> length s"
  by (simp add: skip_space_def length_dropWhile_le)

lemma skip_space_Cons_length: "skip_space s = c # r \<Longrightarrow> length r < length s"
  using length_skip_space [of s] by simp

lemma prepend_Some: "prepend p r = Some (t, rest) \<longleftrightarrow> (\<exists>t'. r = Some (t', rest) \<and> t = p @ t')"
  by (cases r) (auto simp: prepend_def)

lemma parse_string_length: "parse_string s = Some (t, r) \<Longrightarrow> length r < length s"
proof (induction s arbitrary: t rule: parse_string.induct)
  case (2 c s)
  then show ?case
    by (auto simp: prepend_Some split: if_splits list.splits option.splits)
      (fastforce dest: order_less_le_trans)+
qed simp


lemma take_digits_length: "take_digits s = (ds, r) \<Longrightarrow> length s = length ds + length r"
  by (auto simp: take_digits_def simp flip: length_append)

lemma parse_int_part_length: "parse_int_part s = Some (i, r) \<Longrightarrow> length r < length s"
  using take_digits_length [of s i r]
  by (auto simp: parse_int_part_def take_digits_def split: list.splits if_splits)

lemma parse_frac_length: "parse_frac s = Some (f, r) \<Longrightarrow> length r \<le> length s"
  by (auto simp: parse_frac_def take_digits_def le_SucI length_dropWhile_le split: list.splits if_splits)

lemma parse_exp_length: "parse_exp s = Some (e, r) \<Longrightarrow> length r \<le> length s"
  by (auto simp: parse_exp_def take_digits_def Let_def le_SucI length_dropWhile_le split: list.splits if_splits)

lemma parse_number_length: "parse_number s = Some (k, r) \<Longrightarrow> length r < length s"
  by (auto simp: parse_number_def Let_def split: list.splits if_splits option.splits
      dest!: parse_int_part_length parse_frac_length parse_exp_length)

lemma parse_lengths:
  "parse_value n d s = Some (v, r) \<Longrightarrow> length r < length s"
  "parse_elems n d s = Some (js, r) \<Longrightarrow> length r < length s"
  "parse_members n d s = Some (ms, r) \<Longrightarrow> length r < length s"
proof (induction n d s and n d s and n d s arbitrary: v r and js r and ms r
    rule: parse_value_parse_elems_parse_members.induct)
  case (2 n d s)
  obtain c q where q: "skip_space s = c # q" using 2 by (auto split: list.splits)
  have len: "length q < length s" using q by (rule skip_space_Cons_length)
  show ?case
    using 2 q len
    by (auto dest!: parse_string_length parse_number_length skip_space_Cons_length
        split: list.splits if_splits) (meson order_less_trans)+
next
  case (4 n d s)
  then show ?case
    by (auto split: option.splits list.splits if_splits dest!: skip_space_Cons_length)
      (meson order_less_trans)+
next
  case (6 n d s)
  then show ?case
    by (auto split: option.splits list.splits if_splits dest!: skip_space_Cons_length parse_string_length)
      (meson order_less_trans)+
qed simp_all


text \<open>More fuel than twice the length of the input does not change the result.\<close>

lemma parse_fuel_step:
  "2 * length s + 1 \<le> n \<Longrightarrow> parse_value (Suc n) d s = parse_value n d s"
  "2 * length s + 2 \<le> n \<Longrightarrow> parse_elems (Suc n) d s = parse_elems n d s"
  "2 * length s + 2 \<le> n \<Longrightarrow> parse_members (Suc n) d s = parse_members n d s"
proof (induction n arbitrary: d s and d s and d s)
  case (Suc n)
  note IH = Suc.IH
  {
    case 1
    have "parse_elems (Suc n) e r = parse_elems n e r" "parse_members (Suc n) e r = parse_members n e r"
      if "skip_space s = c # r" for c r e
    proof -
      have "2 * length r + 2 \<le> n" using 1 skip_space_Cons_length [OF that] by simp
      then show "parse_elems (Suc n) e r = parse_elems n e r" "parse_members (Suc n) e r = parse_members n e r"
        by (rule IH(2), rule IH(3))
    qed
    then show ?case
      unfolding parse_value.simps(2) [of "Suc n"] parse_value.simps(2) [of n]
      by (auto split: list.split)
  next
    case 2
    have v: "parse_value (Suc n) d s = parse_value n d s" using 2 by (intro IH) simp
    have "parse_elems (Suc n) d r' = parse_elems n d r'" if "parse_value n d s = Some (x, r)" "skip_space r = c # r'" for x r c r'
    proof -
      have "2 * length r' + 2 \<le> n"
        using 2 parse_lengths(1) [OF that(1)] skip_space_Cons_length [OF that(2)] by simp
      then show ?thesis by (rule IH)
    qed
    then show ?case
      unfolding parse_elems.simps(2) [of "Suc n"] parse_elems.simps(2) [of n] v
      by (auto split: option.split list.split)
  next
    case 3
    have v: "parse_value (Suc n) d s2 = parse_value n d s2"
      if "skip_space s = q # s'" "parse_string s' = Some (k, s1)" "skip_space s1 = col # s2" for q s' k s1 col s2
      using 3 skip_space_Cons_length [OF that(1)] parse_string_length [OF that(2)] skip_space_Cons_length [OF that(3)]
      by (intro IH) simp
    have m: "parse_members (Suc n) d r' = parse_members n d r'"
      if "skip_space s = q # s'" "parse_string s' = Some (k, s1)" "skip_space s1 = col # s2"
        "parse_value n d s2 = Some (x, r)" "skip_space r = c # r'" for q s' k s1 col s2 x r c r'
      using 3 skip_space_Cons_length [OF that(1)] parse_string_length [OF that(2)] skip_space_Cons_length [OF that(3)]
        parse_lengths(1) [OF that(4)] skip_space_Cons_length [OF that(5)]
      by (intro IH) simp
    show ?case
      unfolding parse_members.simps(2) [of "Suc n"] parse_members.simps(2) [of n]
      using v m by (auto split: option.split list.split)
  }
qed simp_all

lemma parse_value_enough:
  assumes "2 * length s + 1 \<le> m" and "m \<le> n"
  shows "parse_value n d s = parse_value m d s"
  using assms(2)
proof (induction rule: dec_induct)
  case (step i)
  then show ?case using parse_fuel_step(1) [of s i d] assms(1) by simp
qed simp


section \<open>Parsing inverts rendering\<close>

function valid_utf8 :: "string \<Rightarrow> bool" where
  "valid_utf8 [] = True"
| "valid_utf8 (c # s) =
     (if byte c < 128 then valid_utf8 s
      else utf8_width (c # s) \<noteq> 0 \<and> valid_utf8 (drop (utf8_width (c # s) - 1) s))"
  by pat_completeness auto
termination by (relation "measure length") auto

lemma utf8_width_take:
  assumes "utf8_width x = w" and "0 < w"
  shows "utf8_width (take w x @ t) = w" and "w \<le> length x" and "2 \<le> w"
  using assms by (auto simp: utf8_width_def split: list.splits if_splits)

lemma hex_value_hex_char: "d < 16 \<Longrightarrow> hex_value (hex_char d) = Some d"
proof (cases "d < 10")
  case True
  then have "byte (hex_char d) = 48 + d" by (simp add: byte_def hex_char_def digit_char_def of_char_char_of_nat)
  then show ?thesis using True by (simp add: hex_value_def)
next
  case False
  assume "d < 16"
  with False have "byte (hex_char d) = 87 + d"
    by (simp add: byte_def hex_char_def digit_char_def of_char_char_of_nat)
  then show ?thesis using False \<open>d < 16\<close> by (simp add: hex_value_def)
qed

lemma byte_less [simp]: "byte c < 256"
  by (cases c) (simp add: byte_def of_char_def split: bool.split)

lemma char_of_byte [simp]: "char_of (byte c) = c"
  by (simp add: byte_def)

declare parse_string.simps(2) [simp del] escape_string.simps(2) [simp del]

lemma parse_string_quote: "parse_string (CHR 0x22 # s) = Some ([], s)"
  by (simp add: parse_string.simps(2))

lemma parse_string_hex:
  assumes "hex4 s = Some r" and "\<not> surrogate r"
  shows "parse_string (CHR 0x5C # CHR ''u'' # s) = prepend (encode_rune r) (parse_string (drop 4 s))"
  using assms by (simp add: parse_string.simps(2))

lemma parse_string_simple:
  assumes "simple_escape e = Some b"
  shows "parse_string (CHR 0x5C # e # s) = prepend [b] (parse_string s)"
proof -
  have "e \<noteq> CHR ''u''" using assms by (auto simp: simple_escape_def)
  then show ?thesis using assms by (simp add: parse_string.simps(2))
qed

lemma parse_string_plain:
  assumes "c \<noteq> CHR 0x22" "c \<noteq> CHR 0x5C" "32 \<le> byte c" "byte c < 128"
  shows "parse_string (c # s) = prepend [c] (parse_string s)"
  using assms by (simp add: parse_string.simps(2))

lemma simple_escapes:
  assumes "c \<in> {CHR 0x22, CHR 0x5C, CHR 0x08, CHR 0x0C, CHR 0x0A, CHR 0x0D, CHR 0x09}"
  shows "\<exists>e. escape_ascii c = [CHR 0x5C, e] \<and> simple_escape e = Some c"
  using assms by (elim insertE emptyE) (simp_all add: escape_ascii_def simple_escape_def)

lemma parse_string_escape_ascii:
  assumes "byte c < 128"
  shows "parse_string (escape_ascii c @ t) = prepend [c] (parse_string t)"
proof (cases "c \<in> {CHR 0x22, CHR 0x5C, CHR 0x08, CHR 0x0C, CHR 0x0A, CHR 0x0D, CHR 0x09}")
  case True
  then obtain e where "escape_ascii c = [CHR 0x5C, e]" "simple_escape e = Some c"
    using simple_escapes by blast
  then show ?thesis by (simp add: parse_string_simple)
next
  case other: False
  show ?thesis
  proof (cases "byte c < 32 \<or> c = CHR ''<'' \<or> c = CHR ''>'' \<or> c = CHR ''&''")
    case True
    then have hex: "escape_ascii c =
        [CHR 0x5C, CHR ''u'', CHR ''0'', CHR ''0'', hex_char (byte c div 16), hex_char (byte c mod 16)]"
      using other unfolding escape_ascii_def by simp
    have "byte c div 16 < 16" using assms by simp
    moreover have "hex_value CHR ''0'' = Some 0" by (simp add: hex_value_def byte_def)
    ultimately have "hex4 (CHR ''0'' # CHR ''0'' # hex_char (byte c div 16) # hex_char (byte c mod 16) # t) = Some (byte c)"
      by (simp add: hex4_def hex_value_hex_char)
    moreover have "\<not> surrogate (byte c)" "encode_rune (byte c) = [c]"
      using assms by (simp_all add: surrogate_def encode_rune_def)
    ultimately show ?thesis unfolding hex by (simp add: parse_string_hex)
  next
    case False
    then have "escape_ascii c = [c]" using other unfolding escape_ascii_def by simp
    moreover have "c \<noteq> CHR 0x22" "c \<noteq> CHR 0x5C" using other by simp_all
    ultimately show ?thesis using False assms by (simp add: parse_string_plain)
  qed
qed

lemma parse_string_utf8:
  assumes "\<not> byte c < 128" and "utf8_width (c # s) = w" and "0 < w"
  shows "parse_string (take w (c # s) @ t) = prepend (take w (c # s)) (parse_string t)"
proof -
  obtain w' where w: "w = Suc w'" using assms(3) by (cases w) auto
  have eq: "take w (c # s) @ t = c # (take w' s @ t)" by (simp add: w)
  have "utf8_width (take w (c # s) @ t) = w" by (rule utf8_width_take(1) [OF assms(2,3)])
  then have u: "utf8_width (c # (take w' s @ t)) = w" unfolding eq .
  have len: "w' \<le> length s" using utf8_width_take(2) [OF assms(2,3)] by (simp add: w)
  have "c \<noteq> CHR 0x22" "c \<noteq> CHR 0x5C" using assms(1) by (auto simp: byte_def)
  then show ?thesis unfolding eq parse_string.simps(2) u using assms(1) len by (simp add: w)
qed

lemma take_3_utf8:
  assumes "take 3 (c # s) = [a, b, d]"
  shows "c # s = [a, b, d] @ drop 2 s"
proof -
  have "c # s = take 3 (c # s) @ drop 3 (c # s)" by simp
  then show ?thesis unfolding assms by simp
qed

definition separator :: "string \<Rightarrow> string \<Rightarrow> bool" where
  "separator x e \<longleftrightarrow> take 3 x = [CHR 0xE2, CHR 0x80, CHR 0xA8] \<and> e = ''2028''
      \<or> take 3 x = [CHR 0xE2, CHR 0x80, CHR 0xA9] \<and> e = ''2029''"

lemma separators:
  "hex4 (CHR ''2'' # CHR ''0'' # CHR ''2'' # CHR ''8'' # x) = Some 0x2028"
  "hex4 (CHR ''2'' # CHR ''0'' # CHR ''2'' # CHR ''9'' # x) = Some 0x2029"
  "encode_rune 0x2028 = [CHR 0xE2, CHR 0x80, CHR 0xA8]"
  "encode_rune 0x2029 = [CHR 0xE2, CHR 0x80, CHR 0xA9]"
  "\<not> surrogate 0x2028" "\<not> surrogate 0x2029"
  by (simp_all add: hex4_def hex_value_def byte_def encode_rune_def char_of_def bit_0 surrogate_def)

lemma separator_width:
  assumes "separator x e"
  shows "utf8_width x = 3"
proof -
  obtain z y where "z = CHR 0xA8 \<or> z = CHR 0xA9" "x = CHR 0xE2 # CHR 0x80 # z # y"
  proof -
    have "x = take 3 x @ drop 3 x" by simp
    then show thesis using assms that unfolding separator_def by (metis append_Cons append_Nil)
  qed
  then show ?thesis by (auto simp: utf8_width_def cont_def byte_def)
qed

lemma separator_escape:
  assumes "separator (c # s) e"
  shows "escape_string (c # s) = CHR 0x5C # CHR ''u'' # e @ escape_string (drop 2 s)"
proof -
  have w: "utf8_width (c # s) = 3" using assms by (rule separator_width)
  have "\<not> byte c < 128" using assms by (auto simp: separator_def byte_def)
  then show ?thesis
    using assms unfolding escape_string.simps(2) w separator_def by (elim disjE conjE) simp_all
qed

lemma separator_parse:
  assumes "separator x e"
  shows "parse_string (CHR 0x5C # CHR ''u'' # e @ t) = prepend (take 3 x) (parse_string t)"
  using assms unfolding separator_def
proof (elim disjE conjE)
  assume 1: "take 3 x = [CHR 0xE2, CHR 0x80, CHR 0xA8]" "e = ''2028''"
  show ?thesis unfolding 1 using parse_string_hex [OF separators(1,5), of t] by (simp add: separators)
next
  assume 2: "take 3 x = [CHR 0xE2, CHR 0x80, CHR 0xA9]" "e = ''2029''"
  show ?thesis unfolding 2 using parse_string_hex [OF separators(2,6), of t] by (simp add: separators)
qed

lemma no_separator_escape:
  assumes "\<not> byte c < 128" and "0 < utf8_width (c # s)" and "\<And>e. \<not> separator (c # s) e"
  shows "escape_string (c # s) = take (utf8_width (c # s)) (c # s) @ escape_string (drop (utf8_width (c # s) - 1) s)"
proof -
  have "take 3 (c # s) \<noteq> [CHR 0xE2, CHR 0x80, CHR 0xA8]" "take 3 (c # s) \<noteq> [CHR 0xE2, CHR 0x80, CHR 0xA9]"
    using assms(3) unfolding separator_def by metis+
  then show ?thesis unfolding escape_string.simps(2) using assms(1,2) by (simp only: if_False if_True) simp
qed

lemma parse_string_escape:
  "valid_utf8 s \<Longrightarrow> parse_string (escape_string s @ CHR 0x22 # rest) = Some (s, rest)"
proof (induction s rule: valid_utf8.induct)
  case 1
  then show ?case by (simp add: parse_string_quote)
next
  case (2 c s)
  let ?w = "utf8_width (c # s)"
  show ?case
  proof (cases "byte c < 128")
    case True
    then show ?thesis using 2 by (simp add: escape_string.simps(2) parse_string_escape_ascii prepend_def)
  next
    case False
    then have w: "0 < ?w" and "valid_utf8 (drop (?w - 1) s)" using 2(3) by auto
    then have IH: "parse_string (escape_string (drop (?w - 1) s) @ CHR 0x22 # rest) = Some (drop (?w - 1) s, rest)"
      using 2(2) False by simp
    have whole: "take ?w (c # s) @ drop (?w - 1) s = c # s" using w by (cases ?w) auto
    have "parse_string (escape_string (c # s) @ CHR 0x22 # rest)
        = prepend (take ?w (c # s)) (Some (drop (?w - 1) s, rest))"
    proof (cases "\<exists>e. separator (c # s) e")
      case True
      then obtain e where sep: "separator (c # s) e" by blast
      show ?thesis
        using separator_parse [OF sep, of "escape_string (drop 2 s) @ CHR 0x22 # rest"] IH
        unfolding separator_escape [OF sep] separator_width [OF sep] by simp
    next
      case other: False
      show ?thesis
        using parse_string_utf8 [OF False refl w] IH other
        by (subst no_separator_escape [OF False w]) simp_all
    qed
    then show ?thesis using whole by (simp add: prepend_def)
  qed
qed


text \<open>What may follow a value in compact text: nothing, a comma or a closing bracket.\<close>

definition delimited :: "string \<Rightarrow> bool" where
  "delimited rest \<longleftrightarrow> rest = [] \<or> hd rest \<in> {CHR '','', CHR '']'', CHR ''}''}"

lemma delimited_simps [simp]:
  "delimited []" "delimited (CHR '','' # s)" "delimited (CHR '']'' # s)" "delimited (CHR ''}'' # s)"
  by (simp_all add: delimited_def)

text \<open>What ends a number, also in indented text.\<close>

definition ends_number :: "string \<Rightarrow> bool" where
  "ends_number rest \<longleftrightarrow> delimited rest \<or> hd rest = CHR 0x0A"

lemma delimited_ends_number [simp]: "delimited rest \<Longrightarrow> ends_number rest"
  by (simp add: ends_number_def)

lemma take_digits_append:
  assumes "list_all is_digit ds" and "ends_number rest"
  shows "take_digits (ds @ rest) = (ds, rest)"
proof -
  have "rest = [] \<or> \<not> is_digit (hd rest)" using assms(2) by (auto simp: ends_number_def delimited_def is_digit_def)
  then have "takeWhile is_digit rest = [] \<and> dropWhile is_digit rest = rest" by (cases rest) auto
  moreover have "takeWhile is_digit (ds @ rest) = ds @ takeWhile is_digit rest"
    "dropWhile is_digit (ds @ rest) = dropWhile is_digit rest"
    using assms(1) by (auto simp: list_all_iff)
  ultimately show ?thesis by (simp add: take_digits_def)
qed

lemma nat_digits_zero: "nat_digits 10 n = CHR ''0'' # r \<longleftrightarrow> n = 0 \<and> r = []"
proof (induction "10 :: nat" n arbitrary: r rule: nat_digits.induct)
  case (1 n)
  show ?case
  proof (cases "n < 10")
    case True
    then have d: "nat_digits 10 n = [digit_char n]" by (subst nat_digits.simps) simp
    have "digit_char n = CHR ''0'' \<longleftrightarrow> n = 0"
      using char_digit_digit_char [of n] True by (auto simp: digit_char_def char_digit_def char_of_def bit_0)
    then show ?thesis unfolding d by (cases r) simp_all
  next
    case False
    then have d: "nat_digits 10 n = nat_digits 10 (n div 10) @ [digit_char (n mod 10)]"
      by (subst nat_digits.simps) simp
    obtain x y where xy: "nat_digits 10 (n div 10) = x # y" by (cases "nat_digits 10 (n div 10)") auto
    have "n div 10 \<noteq> 0" using False by simp
    moreover have "nat_digits 10 (n div 10) = CHR ''0'' # y \<longleftrightarrow> n div 10 = 0 \<and> y = []"
      by (rule 1(1)) (use False in simp_all)
    ultimately have "x \<noteq> CHR ''0''" unfolding xy by blast
    then show ?thesis using False unfolding d xy by simp
  qed
qed

lemma parse_number_Itoa:
  assumes "ends_number rest"
  shows "parse_number (Itoa i @ rest) = Some (Itoa i, rest)"
proof -
  have frac: "parse_frac rest = Some ([], rest)" and ex: "parse_exp rest = Some ([], rest)"
    using assms by (auto simp: ends_number_def delimited_def parse_frac_def parse_exp_def split: list.split)
  have int: "parse_int_part (nat_digits 10 n @ rest) = Some (nat_digits 10 n, rest)" for n
  proof -
    obtain c r where cr: "nat_digits 10 n = c # r" by (cases "nat_digits 10 n") auto
    have digits: "list_all is_digit (nat_digits 10 n)" by (rule nat_digits_10_digits)
    show ?thesis
    proof (cases "c = CHR ''0''")
      case True
      then have "r = []" using nat_digits_zero [of n r] cr by simp
      then show ?thesis using True cr by (simp add: parse_int_part_def)
    next
      case False
      then show ?thesis
        using digits take_digits_append [OF digits assms] unfolding cr by (simp add: parse_int_part_def)
    qed
  qed
  show ?thesis
  proof (cases "i < 0")
    case True
    then show ?thesis using int frac ex by (simp add: parse_number_def Itoa_def)
  next
    case False
    obtain c r where cr: "nat_digits 10 (nat i) = c # r" by (cases "nat_digits 10 (nat i)") auto
    then have "c \<noteq> CHR ''-''" using hd_nat_digits_sign(1) [of "nat i"] by simp
    then show ?thesis using False int [of "nat i"] frac ex cr by (simp add: parse_number_def Itoa_def)
  qed
qed

text \<open>
  The values that the program renders: integers, valid UTF-8 strings and what is built from
  them, nested at most \<open>d\<close> deep.
\<close>

fun plain_json :: "nat \<Rightarrow> json \<Rightarrow> bool" where
  "plain_json d JNull = True"
| "plain_json d (JBool b) = True"
| "plain_json d (JNum n) = (\<exists>i. n = Itoa i)"
| "plain_json d (JStr s) = valid_utf8 s"
| "plain_json d (JArr js) = (0 < d \<and> (\<forall>j \<in> set js. plain_json (d - 1) j))"
| "plain_json d (JObj ms) = (0 < d \<and> (\<forall>m \<in> set ms. valid_utf8 (fst m) \<and> plain_json (d - 1) (snd m)))"

definition starts_value :: "char \<Rightarrow> bool" where
  "starts_value c \<longleftrightarrow> \<not> json_space c \<and> c \<notin> {CHR '','', CHR '']'', CHR ''}'', CHR '':''}"

lemma digit_starts_value: "is_digit c \<Longrightarrow> starts_value c"
  by (auto simp: starts_value_def json_space_def is_digit_def)

lemma render_starts:
  assumes "plain_json d j"
  shows "\<exists>c r. render j = c # r \<and> starts_value c"
proof (cases j)
  case (JNum n)
  then obtain i where i: "n = Itoa i" using assms by auto
  obtain c r where cr: "Itoa i = c # r" by (cases "Itoa i") auto
  have "c = CHR ''-'' \<or> is_digit c"
  proof (cases "i < 0")
    case False
    then have "c = hd (nat_digits 10 (nat i))" using cr by (simp add: Itoa_def)
    then show ?thesis by simp
  qed (use cr in \<open>simp add: Itoa_def\<close>)
  then have "starts_value c" using digit_starts_value by (auto simp: starts_value_def json_space_def)
  then show ?thesis using JNum i cr by simp
qed (auto simp: quote_def starts_value_def json_space_def)

lemma skip_space_value: "starts_value c \<Longrightarrow> skip_space (c # r) = c # r"
  by (simp add: skip_space_def starts_value_def)

lemma skip_space_delimited: "delimited rest \<Longrightarrow> skip_space rest = rest"
  by (cases rest) (auto simp: skip_space_def delimited_def json_space_def)


text \<open>A value after which more fuel does not matter; the form in which parses compose.\<close>

definition parses :: "nat \<Rightarrow> string \<Rightarrow> json \<Rightarrow> string \<Rightarrow> bool" where
  "parses d s v rest \<longleftrightarrow> (\<exists>m. \<forall>n \<ge> m. parse_value n d s = Some (v, rest))"

text \<open>A property of all large numbers need be shown of successors only.\<close>

lemma enough_fuel: "(\<And>n. n \<ge> m \<Longrightarrow> P (Suc n)) \<Longrightarrow> \<exists>m. \<forall>n \<ge> m. P n"
  by (rule exI [of _ "Suc m"]) (metis Suc_le_D Suc_le_mono)

declare parse_value.simps(2) [simp del] parse_elems.simps(2) [simp del] parse_members.simps(2) [simp del]

lemma parsesE:
  assumes "parses d s v rest"
  obtains m where "\<And>n. n \<ge> m \<Longrightarrow> parse_value n d s = Some (v, rest)"
  using assms unfolding parses_def by blast

lemma parse_value_head:
  assumes "starts_value c" and "c \<noteq> CHR 0x22" "c \<noteq> CHR ''[''" "c \<noteq> CHR ''{''" "c \<notin> {CHR ''n'', CHR ''t'', CHR ''f''}"
  shows "parse_value (Suc n) d (c # r) = map_option (\<lambda>(k, rest). (JNum k, rest)) (parse_number (c # r))"
  using assms by (simp add: parse_value.simps(2) skip_space_value)

lemma parse_elems_step:
  assumes "parse_value n d s = Some (v, rest)" and "delimited rest"
  shows "parse_elems (Suc n) d s =
    (case rest of
       [] \<Rightarrow> None
     | c # r' \<Rightarrow>
         if c = CHR '','' then map_option (\<lambda>(js, rest). (v # js, rest)) (parse_elems n d r')
         else if c = CHR '']'' then Some ([v], r') else None)"
  using assms by (simp add: parse_elems.simps(2) skip_space_delimited)

lemma parse_elems_render:
  assumes "js \<noteq> []"
    and "\<And>j rest. j \<in> set js \<Longrightarrow> delimited rest \<Longrightarrow> parses d (render j @ rest) j rest"
  shows "\<exists>m. \<forall>n \<ge> m. parse_elems n d (comma_sep (map render js) @ CHR '']'' # rest) = Some (js, rest)"
  using assms
proof (induction js rule: induct_list012)
  case (2 j)
  have "parses d (render j @ CHR '']'' # rest) j (CHR '']'' # rest)" by (rule 2(2)) simp_all
  then obtain m where m: "\<And>n. n \<ge> m \<Longrightarrow> parse_value n d (render j @ CHR '']'' # rest) = Some (j, CHR '']'' # rest)"
    by (rule parsesE) blast
  have "parse_elems (Suc n) d (render j @ CHR '']'' # rest) = Some ([j], rest)" if "n \<ge> m" for n
    using parse_elems_step [OF m [OF that]] by simp
  then have "\<exists>m. \<forall>n \<ge> m. parse_elems n d (render j @ CHR '']'' # rest) = Some ([j], rest)" by (rule enough_fuel)
  then show ?case by simp
next
  case (3 j j' js)
  let ?tail = "comma_sep (map render (j' # js)) @ CHR '']'' # rest"
  have "parses d (render j @ CHR '','' # ?tail) j (CHR '','' # ?tail)" by (rule 3(4)) simp_all
  then obtain m where m: "\<And>n. n \<ge> m \<Longrightarrow> parse_value n d (render j @ CHR '','' # ?tail) = Some (j, CHR '','' # ?tail)"
    by (rule parsesE) blast
  have "\<exists>m. \<forall>n \<ge> m. parse_elems n d ?tail = Some (j' # js, rest)" by (rule 3(2)) (use 3(4) in simp_all)
  then obtain m' where m': "\<And>n. n \<ge> m' \<Longrightarrow> parse_elems n d ?tail = Some (j' # js, rest)" by blast
  have step: "parse_elems (Suc n) d (render j @ CHR '','' # ?tail) = Some (j # j' # js, rest)" if "n \<ge> max m m'" for n
  proof -
    have "parse_value n d (render j @ CHR '','' # ?tail) = Some (j, CHR '','' # ?tail)" using that by (intro m) simp
    from parse_elems_step [OF this] m' [of n] that show ?thesis by simp
  qed
  have shape: "comma_sep (map render (j # j' # js)) @ CHR '']'' # rest = render j @ CHR '','' # ?tail" by simp
  show ?case unfolding shape by (rule enough_fuel, rule step)
qed simp

definition render_member :: "string \<times> json \<Rightarrow> string" where
  "render_member m = quote (fst m) @ '':'' @ render (snd m)"

lemma parse_members_step:
  assumes k: "valid_utf8 k" and v: "parse_value n d (render v @ rest) = Some (v, rest)"
    and rest: "delimited rest"
  shows "parse_members (Suc n) d (render_member (k, v) @ rest) =
    (case rest of
       [] \<Rightarrow> None
     | c # r' \<Rightarrow>
         if c = CHR '','' then map_option (\<lambda>(ms, rest). ((k, v) # ms, rest)) (parse_members n d r')
         else if c = CHR ''}'' then Some ([(k, v)], r') else None)"
proof -
  have shape: "render_member (k, v) @ rest = CHR 0x22 # escape_string k @ CHR 0x22 # CHR '':'' # render v @ rest"
    by (simp add: render_member_def quote_def)
  have "skip_space (CHR 0x22 # x) = CHR 0x22 # x" "skip_space (CHR '':'' # x) = CHR '':'' # x" for x
    by (simp_all add: skip_space_def json_space_def)
  then show ?thesis
    unfolding shape parse_members.simps(2) using k v rest
    by (simp add: parse_string_escape skip_space_delimited)
qed

lemma parse_members_render:
  assumes "ms \<noteq> []"
    and "\<And>e. e \<in> set ms \<Longrightarrow> valid_utf8 (fst e)"
    and "\<And>e rest. e \<in> set ms \<Longrightarrow> delimited rest \<Longrightarrow> parses d (render (snd e) @ rest) (snd e) rest"
  shows "\<exists>m. \<forall>n \<ge> m. parse_members n d (comma_sep (map render_member ms) @ CHR ''}'' # rest) = Some (ms, rest)"
  using assms
proof (induction ms rule: induct_list012)
  case (2 e)
  obtain k v where e: "e = (k, v)" by (cases e)
  have "parses d (render (snd e) @ CHR ''}'' # rest) (snd e) (CHR ''}'' # rest)" by (rule 2(3)) simp_all
  then obtain m where m: "\<And>n. n \<ge> m \<Longrightarrow> parse_value n d (render v @ CHR ''}'' # rest) = Some (v, CHR ''}'' # rest)"
    unfolding e snd_conv by (rule parsesE) blast
  have k: "valid_utf8 k" using 2(2) [of e] e by simp
  have step: "parse_members (Suc n) d (render_member e @ CHR ''}'' # rest) = Some ([e], rest)" if "n \<ge> m" for n
    using parse_members_step [OF k m [OF that]] e by simp
  have shape: "comma_sep (map render_member [e]) = render_member e" by simp
  show ?case unfolding shape by (rule enough_fuel, rule step)
next
  case (3 e e' ms)
  obtain k v where e: "e = (k, v)" by (cases e)
  let ?tail = "comma_sep (map render_member (e' # ms)) @ CHR ''}'' # rest"
  have "parses d (render (snd e) @ CHR '','' # ?tail) (snd e) (CHR '','' # ?tail)" by (rule 3(5)) simp_all
  then obtain m where m: "\<And>n. n \<ge> m \<Longrightarrow> parse_value n d (render v @ CHR '','' # ?tail) = Some (v, CHR '','' # ?tail)"
    unfolding e snd_conv by (rule parsesE) blast
  have "\<exists>m. \<forall>n \<ge> m. parse_members n d ?tail = Some (e' # ms, rest)"
    by (rule 3(2)) (use 3(4,5) in simp_all)
  then obtain m' where m': "\<And>n. n \<ge> m' \<Longrightarrow> parse_members n d ?tail = Some (e' # ms, rest)" by blast
  have k: "valid_utf8 k" using 3(4) [of e] e by simp
  have step: "parse_members (Suc n) d (render_member e @ CHR '','' # ?tail) = Some (e # e' # ms, rest)"
    if "n \<ge> max m m'" for n
  proof -
    have "parse_value n d (render v @ CHR '','' # ?tail) = Some (v, CHR '','' # ?tail)" using that by (intro m) simp
    from parse_members_step [OF k this] m' [of n] that show ?thesis by (simp add: e)
  qed
  have shape: "comma_sep (map render_member (e # e' # ms)) @ CHR ''}'' # rest = render_member e @ CHR '','' # ?tail"
    by simp
  show ?case unfolding shape by (rule enough_fuel, rule step)
qed simp


lemma render_JObj: "render (JObj ms) = ''{'' @ comma_sep (map render_member ms) @ ''}''"
proof -
  have "(\<lambda>(k, v). quote k @ '':'' @ render v) = render_member" by (auto simp: fun_eq_iff render_member_def)
  then show ?thesis by simp
qed

lemma comma_sep_starts:
  "xs \<noteq> [] \<Longrightarrow> (\<And>x. x \<in> set xs \<Longrightarrow> \<exists>c r. x = c # r \<and> P c) \<Longrightarrow> \<exists>c r. comma_sep xs = c # r \<and> P c"
  by (cases xs rule: comma_sep.cases) fastforce+

lemma parses_after_head:
  assumes "\<exists>m. \<forall>n \<ge> m. parse_elems n d (t @ CHR '']'' # rest) = Some (js, rest)"
    and "\<exists>c r. t = c # r \<and> starts_value c"
  shows "parses (Suc d) (CHR ''['' # t @ CHR '']'' # rest) (JArr js) rest"
proof -
  obtain m where m: "\<And>n. n \<ge> m \<Longrightarrow> parse_elems n d (t @ CHR '']'' # rest) = Some (js, rest)" using assms(1) by blast
  obtain c r where t: "t = c # r" "starts_value c" using assms(2) by blast
  have "parse_value (Suc n) (Suc d) (CHR ''['' # t @ CHR '']'' # rest) = Some (JArr js, rest)" if "n \<ge> m" for n
  proof -
    have "skip_space (CHR ''['' # x) = CHR ''['' # x" for x by (simp add: skip_space_def json_space_def)
    moreover have "skip_space (t @ CHR '']'' # rest) = c # r @ CHR '']'' # rest"
      using skip_space_value [OF t(2)] by (simp add: t(1))
    moreover have "c \<noteq> CHR '']''" using t(2) by (auto simp: starts_value_def)
    ultimately show ?thesis using m [OF that] by (simp add: parse_value.simps(2))
  qed
  then show ?thesis unfolding parses_def by (rule enough_fuel)
qed

lemma parses_object:
  assumes "\<exists>m. \<forall>n \<ge> m. parse_members n d (t @ CHR ''}'' # rest) = Some (ms, rest)"
    and "\<exists>r. t = CHR 0x22 # r"
  shows "parses (Suc d) (CHR ''{'' # t @ CHR ''}'' # rest) (JObj ms) rest"
proof -
  obtain m where m: "\<And>n. n \<ge> m \<Longrightarrow> parse_members n d (t @ CHR ''}'' # rest) = Some (ms, rest)" using assms(1) by blast
  obtain r where t: "t = CHR 0x22 # r" using assms(2) by blast
  have "parse_value (Suc n) (Suc d) (CHR ''{'' # t @ CHR ''}'' # rest) = Some (JObj ms, rest)" if "n \<ge> m" for n
  proof -
    have "skip_space (CHR ''{'' # x) = CHR ''{'' # x" for x by (simp add: skip_space_def json_space_def)
    moreover have "skip_space (t @ CHR ''}'' # rest) = CHR 0x22 # r @ CHR ''}'' # rest"
      by (simp add: t skip_space_def json_space_def)
    ultimately show ?thesis using m [OF that] by (simp add: parse_value.simps(2))
  qed
  then show ?thesis unfolding parses_def by (rule enough_fuel)
qed

lemma parses_scalar:
  assumes "\<And>n. parse_value (Suc n) d s = Some (v, rest)"
  shows "parses d s v rest"
  unfolding parses_def using assms by (intro exI [of _ 1]) (metis One_nat_def Suc_le_D)

lemma skip_space_simps [simp]:
  "skip_space (CHR 0x22 # x) = CHR 0x22 # x" "skip_space (CHR ''['' # x) = CHR ''['' # x"
  "skip_space (CHR ''{'' # x) = CHR ''{'' # x" "skip_space (CHR ''n'' # x) = CHR ''n'' # x"
  "skip_space (CHR ''t'' # x) = CHR ''t'' # x" "skip_space (CHR ''f'' # x) = CHR ''f'' # x"
  "skip_space (CHR '']'' # x) = CHR '']'' # x" "skip_space (CHR ''}'' # x) = CHR ''}'' # x"
  by (simp_all add: skip_space_def json_space_def)

fun scalar :: "json \<Rightarrow> bool" where
  "scalar (JArr js) = False"
| "scalar (JObj ms) = False"
| "scalar j = True"

lemma parse_scalar_render:
  assumes "scalar j" and "plain_json d j" and "ends_number rest"
  shows "parses d (render j @ rest) j rest"
proof (cases j)
  case JNull
  show ?thesis unfolding JNull by (rule parses_scalar) (simp add: parse_value.simps(2))
next
  case (JBool b)
  show ?thesis unfolding JBool by (rule parses_scalar) (simp add: parse_value.simps(2))
next
  case (JStr s)
  then show ?thesis
    using assms(2) by (intro parses_scalar) (simp add: parse_value.simps(2) quote_def parse_string_escape)
next
  case (JNum n)
  then obtain i where i: "n = Itoa i" using assms(2) by auto
  obtain c r where cr: "Itoa i = c # r" by (cases "Itoa i") auto
  have "is_digit c \<or> c = CHR ''-''"
  proof (cases "i < 0")
    case False
    then have "c = hd (nat_digits 10 (nat i))" using cr by (simp add: Itoa_def)
    then show ?thesis by simp
  qed (use cr in \<open>simp add: Itoa_def\<close>)
  then have "starts_value c" "c \<noteq> CHR 0x22" "c \<noteq> CHR ''[''" "c \<noteq> CHR ''{''" "c \<notin> {CHR ''n'', CHR ''t'', CHR ''f''}"
    by (auto simp: starts_value_def json_space_def is_digit_def)
  from parse_value_head [OF this] show ?thesis
    using parse_number_Itoa [OF assms(3), of i] JNum i cr by (intro parses_scalar) simp
qed (use assms(1) in simp_all)

lemma parse_render:
  "plain_json d j \<Longrightarrow> delimited rest \<Longrightarrow> parses d (render j @ rest) j rest"
proof (induction j arbitrary: d rest)
  case (JArr js)
  then obtain d' where d: "d = Suc d'" by (cases d) auto
  show ?case
  proof (cases "js = []")
    case True
    then show ?thesis unfolding d by (intro parses_scalar) (simp add: parse_value.simps(2))
  next
    case False
    have "\<exists>m. \<forall>n \<ge> m. parse_elems n d' (comma_sep (map render js) @ CHR '']'' # rest) = Some (js, rest)"
      using False by (rule parse_elems_render) (use JArr d in simp)
    moreover have "\<exists>c r. comma_sep (map render js) = c # r \<and> starts_value c"
      using False by (intro comma_sep_starts) (use JArr.prems d render_starts in auto)
    ultimately show ?thesis unfolding d using parses_after_head by simp
  qed
next
  case (JObj ms)
  then obtain d' where d: "d = Suc d'" by (cases d) auto
  show ?case
  proof (cases "ms = []")
    case True
    then show ?thesis unfolding d by (intro parses_scalar) (simp add: parse_value.simps(2))
  next
    case False
    have "\<exists>m. \<forall>n \<ge> m. parse_members n d' (comma_sep (map render_member ms) @ CHR ''}'' # rest) = Some (ms, rest)"
      using False
    proof (rule parse_members_render)
      show "valid_utf8 (fst e)" if "e \<in> set ms" for e using JObj.prems d that by auto
      show "parses d' (render (snd e) @ rest) (snd e) rest" if "e \<in> set ms" "delimited rest" for e rest
        using JObj.IH [of e "snd e" d' rest] JObj.prems d that by (cases e) auto
    qed
    moreover have "\<exists>c r. comma_sep (map render_member ms) = c # r \<and> c = CHR 0x22"
      using False by (intro comma_sep_starts) (auto simp: render_member_def quote_def)
    ultimately show ?thesis unfolding d render_JObj using parses_object by simp
  qed
qed (auto intro!: parse_scalar_render simp del: render.simps plain_json.simps)

text \<open>Parsing what was rendered gives the value back.\<close>

lemma parse_json_render:
  assumes "plain_json max_nesting j"
  shows "parse_json (render j) = Some j"
proof -
  have "parses max_nesting (render j @ []) j []" using assms by (rule parse_render) simp
  then obtain m where m: "\<And>n. n \<ge> m \<Longrightarrow> parse_value n max_nesting (render j) = Some (j, [])"
    by (rule parsesE) auto
  let ?n = "max m (2 * length (render j) + 1)"
  have "parse_value (2 * length (render j) + 1) max_nesting (render j) = parse_value ?n max_nesting (render j)"
    by (rule parse_value_enough [symmetric]) simp_all
  also have "\<dots> = Some (j, [])" by (rule m) simp
  finally show ?thesis by (simp add: parse_json_def skip_space_def)
qed

lemma valid_utf8_ascii: "list_all (\<lambda>c. byte c < 128) s \<Longrightarrow> valid_utf8 s"
  by (induction s rule: valid_utf8.induct) auto

lemma valid_utf8_Itoa [simp]: "valid_utf8 (Itoa i)"
proof (rule valid_utf8_ascii)
  have "list_all (\<lambda>c. byte c < 128) (nat_digits 10 n)" for n
    using nat_digits_10_digits [of n] by (auto simp: list_all_iff is_digit_def byte_def Let_def)
  then show "list_all (\<lambda>c. byte c < 128) (Itoa i)" by (simp add: Itoa_def byte_def)
qed

end
