(* ===== verification/Decode.thy ===== *)
theory Decode
  imports Json
begin

text \<open>
  How \<open>json.Unmarshal\<close> stores a value in a Go variable. A decoder takes the JSON value and
  what the variable held, and returns what it holds afterwards, or no result when the call
  fails. \<open>null\<close> leaves scalars and structs alone and empties slices and maps; a value of
  another shape makes the whole call fail; a member of an object that names no field is
  skipped; a repeated member is stored again, over the earlier one.

  Field names match by \<open>EqualFold\<close>, which is what the exact match followed by the folded one
  amounts to when the names are distinct in lower case, as they are in this program.
\<close>

type_synonym 'a into = "json \<Rightarrow> 'a \<Rightarrow> 'a option"

section \<open>Scalars\<close>

definition decode_int :: "json \<Rightarrow> int option" where
  "decode_int j = (case j of JNum n \<Rightarrow> Atoi n | _ \<Rightarrow> None)"

definition into_int :: "int into" where
  "into_int j old = (if j = JNull then Some old else decode_int j)"

definition into_string :: "string into" where
  "into_string j old = (case j of JNull \<Rightarrow> Some old | JStr s \<Rightarrow> Some s | _ \<Rightarrow> None)"

definition into_bool :: "bool into" where
  "into_bool j old = (case j of JNull \<Rightarrow> Some old | JBool b \<Rightarrow> Some b | _ \<Rightarrow> None)"

section \<open>Structs, slices and maps\<close>

primrec decode_members :: "('r \<Rightarrow> 'm \<Rightarrow> 'r option) \<Rightarrow> 'm list \<Rightarrow> 'r \<Rightarrow> 'r option" where
  "decode_members f [] r = Some r"
| "decode_members f (m # ms) r = (case f r m of None \<Rightarrow> None | Some r' \<Rightarrow> decode_members f ms r')"

definition into_struct :: "('r \<Rightarrow> string \<times> json \<Rightarrow> 'r option) \<Rightarrow> 'r into" where
  "into_struct f j r =
     (case j of JNull \<Rightarrow> Some r | JObj ms \<Rightarrow> decode_members f ms r | _ \<Rightarrow> None)"

text \<open>One field: decode into it and store the result.\<close>

definition set_field :: "'f into \<Rightarrow> ('r \<Rightarrow> 'f) \<Rightarrow> ('f \<Rightarrow> 'r \<Rightarrow> 'r) \<Rightarrow> json \<Rightarrow> 'r \<Rightarrow> 'r option" where
  "set_field into get put j r = map_option (\<lambda>v. put v r) (into j (get r))"

definition set_int_field :: "(int \<Rightarrow> 'r \<Rightarrow> 'r) \<Rightarrow> json \<Rightarrow> 'r \<Rightarrow> 'r option" where
  "set_int_field upd v r = (if v = JNull then Some r else map_option (\<lambda>i. upd i r) (decode_int v))"

text \<open>An array is stored element by element over the ones the slice had.\<close>

fun decode_elems :: "'a into \<Rightarrow> 'a \<Rightarrow> json list \<Rightarrow> 'a list \<Rightarrow> 'a list option" where
  "decode_elems f z [] old = Some []"
| "decode_elems f z (j # js) old =
     (case f j (case old of [] \<Rightarrow> z | x # _ \<Rightarrow> x) of
        None \<Rightarrow> None
      | Some v \<Rightarrow> map_option ((#) v) (decode_elems f z js (tl old)))"

definition into_slice :: "'a into \<Rightarrow> 'a \<Rightarrow> 'a list into" where
  "into_slice f z j old =
     (case j of JNull \<Rightarrow> Some [] | JArr js \<Rightarrow> decode_elems f z js old | _ \<Rightarrow> None)"

text \<open>A map is \<open>None\<close> when it is nil. Every value is decoded from the zero value.\<close>

definition map_member ::
  "'v into \<Rightarrow> 'v \<Rightarrow> (string, 'v) gomap \<Rightarrow> string \<times> json \<Rightarrow> (string, 'v) gomap option" where
  "map_member f z m e = map_option (\<lambda>v. AList.update (fst e) v m) (f (snd e) z)"

definition into_map :: "'v into \<Rightarrow> 'v \<Rightarrow> (string, 'v) gomap option into" where
  "into_map f z j old =
     (case j of
        JNull \<Rightarrow> Some None
      | JObj ms \<Rightarrow> map_option Some (decode_members (map_member f z) ms (case old of None \<Rightarrow> [] | Some m \<Rightarrow> m))
      | _ \<Rightarrow> None)"

definition Unmarshal :: "'a into \<Rightarrow> string \<Rightarrow> 'a \<Rightarrow> 'a option" where
  "Unmarshal f s old = (case parse_json s of None \<Rightarrow> None | Some j \<Rightarrow> f j old)"

section \<open>Members with their text\<close>

text \<open>
  The members of an object text, each with the bytes of its value, for fields of type
  \<open>json.RawMessage\<close>. The argument starts after the opening brace; the text has been parsed
  before, so the failing branches are not taken (\<open>raw_members_agree\<close>).
\<close>

fun raw_members :: "nat \<Rightarrow> string \<Rightarrow> (string \<times> string \<times> json) list" where
  "raw_members 0 s = []"
| "raw_members (Suc n) s =
     (case skip_space s of
        [] \<Rightarrow> []
      | q # s' \<Rightarrow>
          if q \<noteq> CHR 0x22 then []
          else (case parse_string s' of
             None \<Rightarrow> []
           | Some (k, s1) \<Rightarrow>
               (let v = skip_space (drop 1 (skip_space s1))
                in case parse_value n (max_nesting - 1) v of
                     None \<Rightarrow> []
                   | Some (j, r) \<Rightarrow>
                       (k, take (length v - length r) v, j) #
                       (case skip_space r of
                          c # r' \<Rightarrow> if c = CHR '','' then raw_members n r' else []
                        | [] \<Rightarrow> []))))"

definition object_members :: "string \<Rightarrow> (string \<times> string \<times> json) list" where
  "object_members s = raw_members (2 * length s) (drop 1 (skip_space s))"

lemma skip_space_idem [simp]: "skip_space (skip_space s) = skip_space s"
  by (simp add: skip_space_def dropWhile_idem)

lemma parse_value_skip: "parse_value n d (skip_space s) = parse_value n d s"
  by (cases n) (simp_all add: parse_value.simps)

lemma raw_members_parse:
  "parse_members n (max_nesting - 1) s = Some (ms, rest)
    \<Longrightarrow> map (\<lambda>(k, t, j). (k, j)) (raw_members n s) = ms"
proof (induction n arbitrary: s ms)
  case (Suc n)
  from Suc.prems show ?case
    by (auto simp: parse_members.simps parse_value_skip Let_def split: list.splits option.splits prod.splits if_splits)
      (simp add: Suc.IH)
qed simp

lemma raw_members_empty: "skip_space s = CHR ''}'' # r \<Longrightarrow> raw_members n s = []"
  by (cases n) simp_all

lemma object_members_agree:
  assumes "parse_json s = Some (JObj ms)"
  shows "map (\<lambda>(k, t, j). (k, j)) (object_members s) = ms"
proof -
  obtain rest where p: "parse_value (Suc (2 * length s)) max_nesting s = Some (JObj ms, rest)"
    using assms by (auto simp: parse_json_def split: option.splits if_splits)
  then obtain c r where s: "skip_space s = c # r" by (auto simp: parse_value.simps split: list.splits)
  have "parse_members (2 * length s) (max_nesting - 1) r = Some (ms, rest)
      \<or> ms = [] \<and> (\<exists>r'. skip_space r = CHR ''}'' # r')"
    using p s by (auto simp: parse_value.simps split: list.splits if_splits option.splits)
  then show ?thesis
    using raw_members_parse raw_members_empty by (auto simp: object_members_def s)
qed

end
