(* ===== verification/Files.thy ===== *)
theory Files
  imports Prelude
begin

text \<open>
  The calls of package \<open>os\<close> that the program makes, on a file system that maps paths to
  contents. Whether a call fails is decided by the environment: every operation takes, as
  its first argument, the error it meets, if any. A failed write may leave any prefix or
  other content behind, or nothing.
\<close>

type_synonym path = string
type_synonym fs = "path \<Rightarrow> string option"

datatype read_outcome = Contents string | NotExist | ReadError string

definition os_ReadFile :: "string option \<Rightarrow> path \<Rightarrow> fs \<Rightarrow> read_outcome" where
  "os_ReadFile err p f =
     (case f p of
        None \<Rightarrow> NotExist
      | Some s \<Rightarrow> (case err of Some e \<Rightarrow> ReadError e | None \<Rightarrow> Contents s))"

text \<open>The error of a write comes with what it leaves at the path.\<close>

definition os_WriteFile :: "(string \<times> string option) option \<Rightarrow> path \<Rightarrow> string \<Rightarrow> fs \<Rightarrow> string option \<times> fs" where
  "os_WriteFile err p s f =
     (case err of
        None \<Rightarrow> (None, f(p := Some s))
      | Some (e, left) \<Rightarrow> (Some e, f(p := left)))"

definition os_Rename :: "string option \<Rightarrow> path \<Rightarrow> path \<Rightarrow> fs \<Rightarrow> string option \<times> fs" where
  "os_Rename err old new f =
     (case err of
        Some e \<Rightarrow> (Some e, f)
      | None \<Rightarrow> (case f old of
                   None \<Rightarrow> (Some ''no such file or directory'', f)
                 | Some s \<Rightarrow> (None, f(old := None, new := Some s))))"

datatype remove_outcome = Removed | RemoveMissing | RemoveError string

definition os_Remove :: "string option \<Rightarrow> path \<Rightarrow> fs \<Rightarrow> remove_outcome \<times> fs" where
  "os_Remove err p f =
     (case f p of
        None \<Rightarrow> (RemoveMissing, f)
      | Some _ \<Rightarrow> (case err of Some e \<Rightarrow> (RemoveError e, f) | None \<Rightarrow> (Removed, f(p := None))))"

text \<open>The errors that the calls of one operation meet.\<close>

record io =
  readErr :: "string option"
  mkdirErr :: "string option"
  writeErr :: "(string \<times> string option) option"
  renameErr :: "string option"
  removeErr :: "string option"

definition io_ok :: io where
  "io_ok = \<lparr>readErr = None, mkdirErr = None, writeErr = None, renameErr = None, removeErr = None\<rparr>"

end
