(* ===== verification/Traffic.thy ===== *)
theory Traffic
  imports Types Decode Files
begin

text \<open>
  \<open>core/traffic.go\<close>: the traffic reporter. It merges what the collector reports with what
  is still pending, pushes the sum to the panel, and keeps it pending (in memory and in a
  state file) when the push fails.

  The collector is an argument, \<open>collect\<close>; the pusher is one, \<open>push\<close>, which answers a
  payload with the error it returns, if any; the file system is the one of \<open>Files\<close>, with
  the errors that its calls meet. All operations hold \<open>reportMu\<close>, so each is one step.
  \<open>Report\<close> has one more result than the code: the records that the panel has acknowledged.
\<close>

section \<open>State\<close>

record reporter =
  pending :: "(int, traffic_data) gomap"
  stateFile :: path
  maxPendingUsers :: int
  lastReportAt :: gotime
  lastReportOK :: bool
  lastReportError :: string
  lastPushedUsers :: int
  lastBufferedUsers :: int

section \<open>The text of the state file\<close>

definition traffic_json :: "traffic_data \<Rightarrow> json" where
  "traffic_json t = JObj
     [(''uid'', JNum (Itoa (UID t))),
      (''upload'', JNum (Itoa (sint (Upload t)))),
      (''download'', JNum (Itoa (sint (Download t))))]"

definition encode_traffic :: "traffic_data list \<Rightarrow> string" where
  "encode_traffic ts = render (JArr (map traffic_json ts))"

definition traffic_member :: "traffic_data \<Rightarrow> string \<times> json \<Rightarrow> traffic_data option" where
  "traffic_member t m =
     (if EqualFold (fst m) ''uid'' then set_int_field (\<lambda>i t. t\<lparr>UID := i\<rparr>) (snd m) t
      else if EqualFold (fst m) ''upload'' then set_int_field (\<lambda>i t. t\<lparr>Upload := word_of_int i\<rparr>) (snd m) t
      else if EqualFold (fst m) ''download'' then set_int_field (\<lambda>i t. t\<lparr>Download := word_of_int i\<rparr>) (snd m) t
      else Some t)"

definition zero_traffic :: traffic_data where
  "zero_traffic = \<lparr>UID = 0, Upload = 0, Download = 0\<rparr>"

definition decode_traffic :: "json \<Rightarrow> traffic_data option" where
  "decode_traffic j =
     (case j of
        JNull \<Rightarrow> Some zero_traffic
      | JObj ms \<Rightarrow> decode_members traffic_member ms zero_traffic
      | _ \<Rightarrow> None)"

definition decode_traffic_list :: "string \<Rightarrow> traffic_data list option" where
  "decode_traffic_list s =
     (case parse_json s of
        Some JNull \<Rightarrow> Some []
      | Some (JArr js) \<Rightarrow> those (map decode_traffic js)
      | _ \<Rightarrow> None)"

section \<open>Pending traffic\<close>

definition trimPending :: "reporter \<Rightarrow> reporter" where
  "trimPending t =
     (if maxPendingUsers t \<le> 0 \<or> int (length (pending t)) \<le> maxPendingUsers t then t
      else let keys = sort (map fst (pending t));
               old = take (length keys - nat (maxPendingUsers t)) keys
           in t\<lparr>pending := foldl (\<lambda>m uid. AList.delete uid m) (pending t) old\<rparr>)"

definition bufferPending :: "traffic_data list \<Rightarrow> reporter \<Rightarrow> reporter" where
  "bufferPending data t =
     trimPending (t\<lparr>pending := foldl (\<lambda>m item. AList.update (UID item) item m) [] data\<rparr>)"

definition backupCorruptStateFile :: "io \<Rightarrow> reporter \<Rightarrow> fs \<Rightarrow> fs" where
  "backupCorruptStateFile e t f =
     (if stateFile t = [] then f
      else snd (os_Rename (renameErr e) (stateFile t) (stateFile t @ ''.corrupt'') f))"

definition loadPending :: "io \<Rightarrow> reporter \<Rightarrow> fs \<Rightarrow> reporter \<times> fs" where
  "loadPending e t f =
     (if stateFile t = [] then (t, f)
      else case os_ReadFile (readErr e) (stateFile t) f of
             NotExist \<Rightarrow> (t, f)
           | ReadError _ \<Rightarrow> (t, f)
           | Contents data \<Rightarrow>
               (case decode_traffic_list data of
                  None \<Rightarrow> (t, backupCorruptStateFile e t f)
                | Some payload \<Rightarrow> (bufferPending payload t, f)))"

definition NewTrafficReporterWithLimit :: "io \<Rightarrow> path \<Rightarrow> int \<Rightarrow> fs \<Rightarrow> reporter \<times> fs" where
  "NewTrafficReporterWithLimit e file limit f =
     loadPending e
       \<lparr>pending = [], stateFile = file, maxPendingUsers = (if limit \<le> 0 then 10000 else limit),
        lastReportAt = 0, lastReportOK = False, lastReportError = [], lastPushedUsers = 0,
        lastBufferedUsers = 0\<rparr> f"

definition NewTrafficReporter :: "io \<Rightarrow> path \<Rightarrow> fs \<Rightarrow> reporter \<times> fs" where
  "NewTrafficReporter e file f = NewTrafficReporterWithLimit e file 10000 f"

text \<open>\<open>MkdirAll\<close> creates directories only; the model has none, so its one effect is an error.\<close>

definition persistPending :: "io \<Rightarrow> reporter \<Rightarrow> fs \<Rightarrow> string option \<times> fs" where
  "persistPending e t f =
     (if stateFile t = [] then (None, f)
      else let data = encode_traffic (sort_key UID (map snd (pending t)))
           in case mkdirErr e of
                Some err \<Rightarrow> (Some err, f)
              | None \<Rightarrow>
                  (case os_WriteFile (writeErr e) (stateFile t @ ''.tmp'') data f of
                     (Some err, f) \<Rightarrow> (Some err, f)
                   | (None, f) \<Rightarrow> os_Rename (renameErr e) (stateFile t @ ''.tmp'') (stateFile t) f))"

definition clearPersistedPending :: "io \<Rightarrow> reporter \<Rightarrow> fs \<Rightarrow> string option \<times> fs" where
  "clearPersistedPending e t f =
     (if stateFile t = [] then (None, f)
      else case os_Remove (removeErr e) (stateFile t) f of
             (RemoveError err, f) \<Rightarrow> (Some err, f)
           | (_, f) \<Rightarrow> (None, f))"

section \<open>Reporting\<close>

definition markReport :: "gotime \<Rightarrow> bool \<Rightarrow> string \<Rightarrow> int \<Rightarrow> int \<Rightarrow> reporter \<Rightarrow> reporter" where
  "markReport now ok err pushedUsers bufferedUsers t = t\<lparr>
     lastReportAt := now, lastReportOK := ok, lastReportError := err,
     lastPushedUsers := pushedUsers, lastBufferedUsers := bufferedUsers\<rparr>"

definition merge_traffic :: "(int, traffic_data) gomap \<Rightarrow> user_traffic \<Rightarrow> (int, traffic_data) gomap" where
  "merge_traffic merged u =
     (let data = gget zero_traffic merged (UserID u)
      in AList.update (UserID u)
           (data\<lparr>UID := UserID u, Upload := Upload data + utUpload u, Download := Download data + utDownload u\<rparr>)
           merged)"

definition buildPushPayload :: "user_traffic list \<Rightarrow> reporter \<Rightarrow> traffic_data list \<times> int" where
  "buildPushPayload trafficList t =
     (let merged = foldl merge_traffic (pending t) trafficList
      in (sort_key UID (filter (\<lambda>d. \<not> (Upload d = 0 \<and> Download d = 0)) (map snd merged)),
          int (length (pending t))))"

definition Report ::
  "('c \<Rightarrow> (user_traffic list \<times> string option) \<times> 'c) \<Rightarrow> (traffic_data list \<Rightarrow> string option) \<Rightarrow> io \<Rightarrow> gotime
     \<Rightarrow> reporter \<times> fs \<times> 'c \<Rightarrow> traffic_data list \<times> reporter \<times> fs \<times> 'c" where
  "Report collect push e now s =
     (case s of (t, f, c) \<Rightarrow>
        case collect c of ((trafficList, collectErr), c) \<Rightarrow>
          let t = (case collectErr of
                     None \<Rightarrow> t
                   | Some err \<Rightarrow> markReport now False err 0 (int (length (pending t))) t)
          in case buildPushPayload trafficList t of (pushData, bufferedUsers) \<Rightarrow>
               if pushData = [] then
                 ([], (if collectErr = None then markReport now True [] 0 bufferedUsers t else t), f, c)
               else case push pushData of
                      Some err \<Rightarrow>
                        let t = bufferPending pushData t;
                            f = snd (persistPending e t f)
                        in ([], markReport now False err 0 (int (length (pending t))) t, f, c)
                    | None \<Rightarrow>
                        let t = t\<lparr>pending := []\<rparr>;
                            f = snd (clearPersistedPending e t f)
                        in (pushData, markReport now True [] (int (length pushData)) bufferedUsers t, f, c))"

record traffic_snapshot =
  tsPendingUsers :: int
  tsStateFile :: path
  tsMaxPendingUsers :: int
  tsLastReportAt :: gotime
  tsLastReportOK :: bool
  tsLastReportError :: string
  tsLastPushedUsers :: int
  tsLastBufferedUsers :: int

definition traffic_Snapshot :: "reporter \<Rightarrow> traffic_snapshot" where
  "traffic_Snapshot t = \<lparr>
     tsPendingUsers = int (length (pending t)), tsStateFile = stateFile t,
     tsMaxPendingUsers = maxPendingUsers t, tsLastReportAt = lastReportAt t,
     tsLastReportOK = lastReportOK t, tsLastReportError = lastReportError t,
     tsLastPushedUsers = lastPushedUsers t, tsLastBufferedUsers = lastBufferedUsers t\<rparr>"

end
