(* ===== verification/Traffic_Spec.thy ===== *)
theory Traffic_Spec
  imports Traffic Stats
begin

text \<open>
  What the traffic reporter guarantees: the payload states every user's pending and newly
  collected bytes once; over any history of pushes that succeed or fail no byte is lost or
  billed twice while the number of users stays within the limit; the limit drops the users
  with the smallest ids; the state file survives failures whole, and a restarted reporter
  finds in it what was pending. Last, the case in which a delivered payload is pushed again.
\<close>

section \<open>Amounts\<close>

definition keyed :: "(int, traffic_data) gomap \<Rightarrow> bool" where
  "keyed m \<longleftrightarrow> gomap_ok m \<and> (\<forall>e \<in> set m. UID (snd e) = fst e)"

definition amount :: "dir \<Rightarrow> (int, traffic_data) gomap \<Rightarrow> int \<Rightarrow> int64" where
  "amount d m uid = td_amount d (gget zero_traffic m uid)"

lemma td_amount_zero [simp]: "td_amount d zero_traffic = 0"
  by (cases d) (simp_all add: zero_traffic_def)

lemma keyed_Nil [simp]: "keyed []"
  by (simp add: keyed_def)

lemma set_update_subset: "set (AList.update k v m) \<subseteq> insert (k, v) (set m)"
  by (induction m) auto

lemma keyed_update: "keyed m \<Longrightarrow> UID v = k \<Longrightarrow> keyed (AList.update k v m)"
  using set_update_subset [of k v m] by (auto simp: keyed_def)

lemma keyed_delete: "keyed m \<Longrightarrow> keyed (AList.delete k m)"
  by (auto simp: keyed_def AList.delete_eq)

lemma billed_mset:
  "billed d uid xs = sum_mset (image_mset (td_amount d) (filter_mset (\<lambda>t. UID t = uid) (mset xs)))"
  by (simp add: billed_def sum_mset_sum_list [symmetric])

lemma billed_mset_cong: "mset xs = mset ys \<Longrightarrow> billed d uid xs = billed d uid ys"
  unfolding billed_mset by simp

lemma billed_keyed: "keyed m \<Longrightarrow> billed d uid (map snd m) = amount d m uid"
proof (induction m)
  case (Cons e m)
  obtain k v where e: "e = (k, v)" by (cases e)
  have m: "keyed m" "UID v = k" "k \<notin> fst ` set m" using Cons.prems e by (auto simp: keyed_def gomap_ok_def)
  show ?case
  proof (cases "k = uid")
    case True
    then have "map_of m uid = None" using m(3) by (simp add: map_of_eq_None_iff)
    then show ?thesis using Cons.IH [OF m(1)] True m(2) e by (simp add: amount_def gget_None)
  next
    case False
    then show ?thesis using Cons.IH [OF m(1)] m(2) e by (simp add: amount_def)
  qed
qed (simp add: amount_def)

section \<open>The payload\<close>

lemma merge_traffic_amount:
  "amount d (merge_traffic m u) uid = amount d m uid + (if UserID u = uid then ut_amount d u else 0)"
  by (cases d) (simp_all add: amount_def merge_traffic_def Let_def)

lemma merge_traffic_keyed: "keyed m \<Longrightarrow> keyed (merge_traffic m u)"
  by (simp add: merge_traffic_def Let_def keyed_update)

lemma merge_all:
  "keyed m \<Longrightarrow> keyed (foldl merge_traffic m us)
    \<and> amount d (foldl merge_traffic m us) uid = amount d m uid + reported d uid us"
  by (induction us arbitrary: m) (simp_all add: merge_traffic_keyed merge_traffic_amount)

lemma billed_nonzero: "billed d uid (filter (\<lambda>t. \<not> (Upload t = 0 \<and> Download t = 0)) ts) = billed d uid ts"
  by (induction ts) (cases d; auto)+

lemma payload_billed:
  assumes "keyed (pending t)"
  shows "billed d uid (fst (buildPushPayload us t)) = amount d (pending t) uid + reported d uid us"
proof -
  let ?m = "foldl merge_traffic (pending t) us"
  have m: "keyed ?m" "amount d ?m uid = amount d (pending t) uid + reported d uid us"
    using merge_all [OF assms] by blast+
  have "billed d uid (fst (buildPushPayload us t)) =
      billed d uid (filter (\<lambda>t. \<not> (Upload t = 0 \<and> Download t = 0)) (map snd ?m))"
    by (rule billed_mset_cong) (simp add: buildPushPayload_def Let_def)
  also have "\<dots> = amount d ?m uid" by (simp only: billed_nonzero billed_keyed [OF m(1)])
  finally show ?thesis using m(2) by simp
qed

lemma keyed_uids:
  assumes "keyed m"
  shows "map UID (map snd m) = map fst m"
  using assms by (induction m) (auto simp: keyed_def gomap_ok_def)

lemma payload_sorted:
  assumes "keyed (pending t)"
  shows "sorted (map UID (fst (buildPushPayload us t)))" and "distinct (map UID (fst (buildPushPayload us t)))"
proof -
  let ?m = "foldl merge_traffic (pending t) us"
  have m: "keyed ?m" using merge_all [OF assms] by blast
  have "distinct (map UID (map snd ?m))" unfolding keyed_uids [OF m] using m by (simp add: keyed_def gomap_ok_def)
  then have "distinct (map UID (filter (\<lambda>t. \<not> (Upload t = 0 \<and> Download t = 0)) (map snd ?m)))"
    by (rule distinct_map_filter)
  moreover have "mset (map UID (sort_key UID xs)) = mset (map UID xs)" for xs :: "traffic_data list" by simp
  ultimately have "distinct (map UID (sort_key UID (filter (\<lambda>t. \<not> (Upload t = 0 \<and> Download t = 0)) (map snd ?m))))"
    using mset_eq_imp_distinct_iff by blast
  then show "distinct (map UID (fst (buildPushPayload us t)))" by (simp add: buildPushPayload_def Let_def)
  show "sorted (map UID (fst (buildPushPayload us t)))" by (simp add: buildPushPayload_def Let_def)
qed

text \<open>
  C24: The payload states each user once, with everything that is owed. It is sorted by user
  id without duplicates, holds no empty record, and its bytes for a user are those pending
  plus those the collector reported.
\<close>

theorem payload_complete:
  assumes "keyed (pending t)"
  shows "sorted_wrt (<) (map UID (fst (buildPushPayload us t)))
    \<and> (\<forall>r \<in> set (fst (buildPushPayload us t)). Upload r \<noteq> 0 \<or> Download r \<noteq> 0)
    \<and> billed d uid (fst (buildPushPayload us t)) = amount d (pending t) uid + reported d uid us"
proof (intro conjI)
  show "sorted_wrt (<) (map UID (fst (buildPushPayload us t)))"
    using payload_sorted [OF assms] by (simp add: strict_sorted_iff)
  show "\<forall>r \<in> set (fst (buildPushPayload us t)). Upload r \<noteq> 0 \<or> Download r \<noteq> 0"
    by (auto simp: buildPushPayload_def Let_def)
qed (rule payload_billed [OF assms])

section \<open>The limit on pending users\<close>

lemma foldl_delete:
  "map_of (foldl (\<lambda>m uid. AList.delete uid m) m ks) k = (if k \<in> set ks then None else map_of m k)"
  "keyed m \<Longrightarrow> keyed (foldl (\<lambda>m uid. AList.delete uid m) m ks)"
  by (induction ks arbitrary: m) (auto simp: keyed_delete)

lemma gomap_ok_length: "gomap_ok m \<Longrightarrow> length m = card (dom (map_of m))"
  by (metis distinct_card dom_map_of_conv_image_fst gomap_ok_def length_map list.set_map)

lemma trimPending_small:
  "int (length (pending t)) \<le> maxPendingUsers t \<Longrightarrow> trimPending t = t"
  by (simp add: trimPending_def)

lemma trimPending_frame [simp]:
  "stateFile (trimPending t) = stateFile t" "maxPendingUsers (trimPending t) = maxPendingUsers t"
  by (simp_all add: trimPending_def Let_def)

lemma trimPending_keyed: "keyed (pending t) \<Longrightarrow> keyed (pending (trimPending t))"
  by (simp add: trimPending_def Let_def foldl_delete)

text \<open>
  C37: When too many users are pending, those with the largest ids are kept. \<open>trimPending\<close>
  keeps as many as allowed, unchanged, and every id it drops is smaller than every id it
  keeps.
\<close>

theorem trim_keeps_largest:
  assumes keyed: "keyed (pending t)" and limit: "0 < maxPendingUsers t"
    and t': "t' = trimPending t"
  shows "int (length (pending t')) = min (int (length (pending t))) (maxPendingUsers t)
    \<and> map_of (pending t') \<subseteq>\<^sub>m map_of (pending t)
    \<and> (\<forall>k \<in> dom (map_of (pending t)) - dom (map_of (pending t')). \<forall>j \<in> dom (map_of (pending t')). k < j)"
proof (cases "int (length (pending t)) \<le> maxPendingUsers t")
  case True
  then show ?thesis by (simp add: t' trimPending_small)
next
  case False
  define keys where "keys = sort (map fst (pending t))"
  define n where "n = length keys - nat (maxPendingUsers t)"
  have pend: "pending t' = foldl (\<lambda>m uid. AList.delete uid m) (pending t) (take n keys)"
    using False limit by (simp add: t' trimPending_def Let_def keys_def n_def)
  have dist: "distinct keys" and sorted: "sorted keys" and dom: "set keys = dom (map_of (pending t))"
    using keyed by (auto simp: keys_def keyed_def gomap_ok_def dom_map_of_conv_image_fst)
  have len: "length keys = length (pending t)" by (simp add: keys_def)
  have map: "map_of (pending t') k = (if k \<in> set (take n keys) then None else map_of (pending t) k)" for k
    by (simp add: pend foldl_delete)
  have split: "set keys = set (take n keys) \<union> set (drop n keys)" "set (take n keys) \<inter> set (drop n keys) = {}"
    using dist set_append [of "take n keys" "drop n keys"] distinct_append [of "take n keys" "drop n keys"]
    by simp_all
  have dom': "dom (map_of (pending t')) = set (drop n keys)"
    using split dom by (auto simp: map dom_def split: if_splits)
  have "int (length (pending t')) = int (card (set (drop n keys)))"
    using gomap_ok_length [of "pending t'"] foldl_delete(2) [OF keyed] dom' by (simp add: pend keyed_def)
  also have "\<dots> = int (length (drop n keys))" using dist by (simp add: distinct_card)
  also have "\<dots> = maxPendingUsers t" using False limit len by (simp add: n_def)
  finally have length: "int (length (pending t')) = maxPendingUsers t" .
  have order: "k < j" if "k \<in> set (take n keys)" "j \<in> set (drop n keys)" for k j
  proof -
    have "sorted (take n keys @ drop n keys)" using sorted by simp
    then have "k \<le> j" using that unfolding sorted_append by blast
    then show ?thesis using that split(2) by (cases "k = j") auto
  qed
  have "dom (map_of (pending t)) - dom (map_of (pending t')) = set (take n keys)"
    using split dom unfolding dom' by blast
  then show ?thesis
    using length order False unfolding dom' by (auto simp: map_le_def map split: if_splits)
qed


section \<open>Histories of reports\<close>

definition pending_amount :: "reporter \<Rightarrow> dir \<Rightarrow> int \<Rightarrow> int64" where
  "pending_amount t d uid = amount d (pending t) uid"

lemma bufferPending_keeps:
  assumes "distinct (map UID ts)" and "int (length ts) \<le> maxPendingUsers t"
  shows "pending (bufferPending ts t) = map (\<lambda>t. (UID t, t)) ts"
    and "stateFile (bufferPending ts t) = stateFile t" "maxPendingUsers (bufferPending ts t) = maxPendingUsers t"
proof -
  have m: "foldl (\<lambda>m item. AList.update (UID item) item m) [] ts = map (\<lambda>t. (UID t, t)) ts"
    using foldl_update_fresh [OF assms(1), of "[]" "\<lambda>t. t"] by simp
  have "trimPending (t\<lparr>pending := map (\<lambda>t. (UID t, t)) ts\<rparr>) = t\<lparr>pending := map (\<lambda>t. (UID t, t)) ts\<rparr>"
    by (rule trimPending_small) (use assms(2) in simp)
  then show "pending (bufferPending ts t) = map (\<lambda>t. (UID t, t)) ts"
    by (simp add: bufferPending_def m)
qed (simp_all add: bufferPending_def)

lemma keyed_of_list: "distinct (map UID ts) \<Longrightarrow> keyed (map (\<lambda>t. (UID t, t)) ts)"
  by (auto simp: keyed_def gomap_ok_def comp_def)

lemma snd_of_list [simp]: "map snd (map (\<lambda>t. (UID t, t)) ts) = ts"
  by (simp add: comp_def)

text \<open>The records that a report of this state pushes.\<close>

definition report_payload ::
  "('c \<Rightarrow> (user_traffic list \<times> string option) \<times> 'c) \<Rightarrow> reporter \<times> fs \<times> 'c \<Rightarrow> traffic_data list" where
  "report_payload collect s = (case s of (t, f, c) \<Rightarrow> fst (buildPushPayload (fst (fst (collect c))) t))"

lemma markReport_frame [simp]:
  "pending (markReport now ok err p b t) = pending t"
  "stateFile (markReport now ok err p b t) = stateFile t"
  "maxPendingUsers (markReport now ok err p b t) = maxPendingUsers t"
  "lastReportOK (markReport now ok err p b t) = ok"
  by (simp_all add: markReport_def)

lemma buildPushPayload_mark [simp]: "buildPushPayload us (markReport now ok err p b t) = buildPushPayload us t"
  by (simp add: buildPushPayload_def)

text \<open>The three outcomes of a report.\<close>

lemma Report_cases:
  assumes "Report collect push e now (t, f, c) = (acked, t', f', c')"
  obtains
    (idle) "report_payload collect (t, f, c) = []" "acked = []" "pending t' = pending t" "f' = f"
      "c' = snd (collect c)"
  | (failed) err where "report_payload collect (t, f, c) \<noteq> []" "push (report_payload collect (t, f, c)) = Some err"
      "acked = []" "pending t' = pending (bufferPending (report_payload collect (t, f, c)) t)" "c' = snd (collect c)"
      "\<not> lastReportOK t'"
  | (pushed) "report_payload collect (t, f, c) \<noteq> []" "push (report_payload collect (t, f, c)) = None"
      "acked = report_payload collect (t, f, c)" "pending t' = []"
      "f' = snd (clearPersistedPending e t f)" "c' = snd (collect c)"
proof -
  obtain us err c1 where col: "collect c = ((us, err), c1)" by (metis prod.exhaust)
  define t1 where "t1 = (case err of None \<Rightarrow> t | Some er \<Rightarrow> markReport now False er 0 (int (length (pending t))) t)"
  have t1: "pending t1 = pending t" "stateFile t1 = stateFile t" "maxPendingUsers t1 = maxPendingUsers t"
    "buildPushPayload us t1 = buildPushPayload us t"
    by (auto simp: t1_def split: option.split)
  have buf: "pending (bufferPending ts t1) = pending (bufferPending ts t)" for ts
    using t1 by (simp add: bufferPending_def trimPending_def Let_def)
  have clear: "clearPersistedPending e (t1\<lparr>pending := []\<rparr>) f = clearPersistedPending e t f"
    using t1 by (simp add: clearPersistedPending_def)
  obtain ps b where pay: "buildPushPayload us t = (ps, b)" by (rule prod.exhaust)
  have rp: "report_payload collect (t, f, c) = ps" by (simp add: report_payload_def col pay)
  have R: "Report collect push e now (t, f, c) =
    (if ps = [] then ([], (if err = None then markReport now True [] 0 b t1 else t1), f, c1)
     else case push ps of
       Some er \<Rightarrow> ([], markReport now False er 0 (int (length (pending (bufferPending ps t1)))) (bufferPending ps t1),
            snd (persistPending e (bufferPending ps t1) f), c1)
     | None \<Rightarrow> (ps, markReport now True [] (int (length ps)) b (t1\<lparr>pending := []\<rparr>),
            snd (clearPersistedPending e (t1\<lparr>pending := []\<rparr>) f), c1))"
    by (simp only: Report_def prod.case col t1_def [symmetric] Let_def t1(4) pay)
  show ?thesis
  proof (cases "ps = []")
    case True
    have eq: "([], (if err = None then markReport now True [] 0 b t1 else t1), f, c1) = (acked, t', f', c')"
      using assms [unfolded R] True by simp
    show ?thesis
      by (rule idle) (use eq rp t1 col True in auto)
  next
    case False
    show ?thesis
    proof (cases "push ps")
      case None
      have eq: "(ps, markReport now True [] (int (length ps)) b (t1\<lparr>pending := []\<rparr>),
            snd (clearPersistedPending e (t1\<lparr>pending := []\<rparr>) f), c1) = (acked, t', f', c')"
        using assms [unfolded R] False None by auto
      show ?thesis
        by (rule pushed) (use eq rp False clear col None in auto)
    next
      case (Some er)
      have eq: "([], markReport now False er 0 (int (length (pending (bufferPending ps t1)))) (bufferPending ps t1),
            snd (persistPending e (bufferPending ps t1) f), c1) = (acked, t', f', c')"
        using assms [unfolded R] False Some by auto
      show ?thesis
        by (rule failed [of er]) (use eq rp False buf col Some in auto)
    qed
  qed
qed

text \<open>No counter runs over: the sum of a user's pending and reported bytes stays an \<open>int64\<close>.\<close>

definition no_overflow :: "reporter \<Rightarrow> user_traffic list \<Rightarrow> bool" where
  "no_overflow t us \<longleftrightarrow> (\<forall>uid \<in> set (map fst (pending t) @ map UserID us). \<forall>d \<in> {Up, Down}.
     0 \<le> sint (pending_amount t d uid) \<and> 0 \<le> sint (reported d uid us)
     \<and> sint (pending_amount t d uid) + sint (reported d uid us) \<le> maxInt64)"

lemma reported_none: "uid \<notin> set (map UserID us) \<Longrightarrow> reported d uid us = 0"
  by (induction us) auto

lemma pending_amount_none: "uid \<notin> set (map fst (pending t)) \<Longrightarrow> pending_amount t d uid = 0"
  by (simp add: pending_amount_def amount_def gget_None map_of_eq_None_iff)

lemma no_overflowD:
  assumes "no_overflow t us"
  shows "0 \<le> sint (pending_amount t d uid)" "0 \<le> sint (reported d uid us)"
    "sint (pending_amount t d uid) + sint (reported d uid us) \<le> maxInt64"
proof -
  have d: "d \<in> {Up, Down}" by (cases d) auto
  have "0 \<le> sint (pending_amount t d uid) \<and> 0 \<le> sint (reported d uid us)
     \<and> sint (pending_amount t d uid) + sint (reported d uid us) \<le> maxInt64"
  proof (cases "uid \<in> set (map fst (pending t) @ map UserID us)")
    case True
    then show ?thesis using assms d unfolding no_overflow_def by blast
  next
    case False
    then show ?thesis by (simp add: pending_amount_none reported_none maxInt64_def)
  qed
  then show "0 \<le> sint (pending_amount t d uid)" "0 \<le> sint (reported d uid us)"
    "sint (pending_amount t d uid) + sint (reported d uid us) \<le> maxInt64" by blast+
qed

lemma no_overflow_zero:
  assumes "no_overflow t us" and "pending_amount t d uid + reported d uid us = 0"
  shows "pending_amount t d uid = 0" "reported d uid us = 0"
proof -
  let ?p = "sint (pending_amount t d uid)" and ?r = "sint (reported d uid us)"
  have bounds: "0 \<le> ?p" "0 \<le> ?r" "?p + ?r \<le> maxInt64" using no_overflowD [OF assms(1)] by auto
  have "sint (pending_amount t d uid + word_of_int ?r) = ?p + ?r"
    using bounds by (intro sint_add_nonneg)
  then have "?p + ?r = 0" using assms(2) by simp
  then have "?p = 0" "?r = 0" using bounds by linarith+
  then show "pending_amount t d uid = 0" "reported d uid us = 0" by (simp_all add: signed_eq_0_iff)
qed

context traffic_collector
begin

lemma Report_conserves:
  assumes keyed: "keyed (pending t)" and few: "int (length (report_payload collect (t, f, c))) \<le> maxPendingUsers t"
    and small: "no_overflow t (fst (fst (collect c)))"
    and run: "Report collect push e now (t, f, c) = (acked, t', f', c')"
  shows "keyed (pending t')
    \<and> pending_amount t d uid + outstanding c d uid = billed d uid acked + pending_amount t' d uid + outstanding c' d uid"
proof -
  obtain us err where col: "fst (collect c) = (us, err)" by (rule prod.exhaust)
  let ?ps = "report_payload collect (t, f, c)"
  have ps: "?ps = fst (buildPushPayload us t)" by (simp add: report_payload_def col)
  have dist: "distinct (map UID ?ps)" unfolding ps by (rule payload_sorted(2) [OF keyed])
  have bill: "billed d uid ?ps = pending_amount t d uid + reported d uid us"
    unfolding ps pending_amount_def by (rule payload_billed [OF keyed])
  have out: "outstanding c d uid = outstanding (snd (collect c)) d uid + reported d uid us"
    using collect_moves [of c d uid] col by simp
  have total: "pending_amount t d uid + outstanding c d uid = billed d uid ?ps + outstanding (snd (collect c)) d uid"
    using bill out by (simp add: algebra_simps)
  from run show ?thesis
  proof (cases rule: Report_cases)
    case idle
    have "pending_amount t' d uid = pending_amount t d uid" unfolding pending_amount_def idle(3) ..
    moreover have "billed d uid ?ps = 0" using idle(1) by simp
    then have "reported d uid us = 0"
      using no_overflow_zero(2) [OF small, of d uid] bill col by simp
    ultimately show ?thesis using idle keyed out by simp
  next
    case (failed er)
    have "pending t' = map (\<lambda>t. (UID t, t)) ?ps"
      using failed bufferPending_keeps(1) [OF dist few] by simp
    then have "keyed (pending t')" "pending_amount t' d uid = billed d uid ?ps"
      using keyed_of_list [OF dist] billed_keyed [of "pending t'" d uid]
      by (simp_all add: pending_amount_def comp_def)
    then show ?thesis using total failed by simp
  next
    case pushed
    then show ?thesis using total by (simp add: pending_amount_def amount_def)
  qed
qed

end


text \<open>
  A process with its statistics and its reporter: traffic is carried, the reporter runs. The
  ledger counts the bytes carried and the bytes acknowledged by the panel.
\<close>

record billing =
  bReporter :: reporter
  bFiles :: fs
  bStats :: stats_tracker
  bCarried :: "dir \<Rightarrow> int \<Rightarrow> int64"
  bBilled :: "dir \<Rightarrow> int \<Rightarrow> int64"

datatype billing_event =
    Carry string int64 int64
  | ReportNow "traffic_data list \<Rightarrow> string option" io gotime

definition carried :: "dir \<Rightarrow> int \<Rightarrow> string \<Rightarrow> int64 \<Rightarrow> int64 \<Rightarrow> int64" where
  "carried d uid name up down =
     (let n = (case d of Up \<Rightarrow> up | Down \<Rightarrow> down)
      in if parseUserID name = Inr uid \<and> 0 < sint n then n else 0)"

fun billing_step :: "billing \<Rightarrow> billing_event \<Rightarrow> billing" where
  "billing_step b (Carry name up down) =
     b\<lparr>bStats := AddTraffic name up down (bStats b),
       bCarried := (\<lambda>d uid. bCarried b d uid + carried d uid name up down)\<rparr>"
| "billing_step b (ReportNow push e now) =
     (case Report CollectTraffic push e now (bReporter b, bFiles b, bStats b) of (acked, t, f, s) \<Rightarrow>
        b\<lparr>bReporter := t, bFiles := f, bStats := s,
          bBilled := (\<lambda>d uid. bBilled b d uid + billed d uid acked)\<rparr>)"

text \<open>The number of users owed does not exceed the limit, and no counter runs over.\<close>

fun billing_ok :: "billing \<Rightarrow> billing_event \<Rightarrow> bool" where
  "billing_ok b (Carry name up down) = True"
| "billing_ok b (ReportNow push e now) =
     (int (length (report_payload CollectTraffic (bReporter b, bFiles b, bStats b))) \<le> maxPendingUsers (bReporter b)
      \<and> no_overflow (bReporter b) (fst (fst (CollectTraffic (bStats b)))))"

definition billing_balances :: "billing \<Rightarrow> bool" where
  "billing_balances b \<longleftrightarrow> keyed (pending (bReporter b))
     \<and> (\<forall>d uid. bCarried b d uid = bBilled b d uid + pending_amount (bReporter b) d uid
           + stats_outstanding (bStats b) d uid)"

interpretation bill: stepper billing_step billing_balances billing_ok
proof
  fix b e
  assume bal: "billing_balances b" and ok: "billing_ok b e"
  show "billing_balances (billing_step b e)"
  proof (cases e)
    case (Carry name up down)
    then show ?thesis using bal
      by (simp add: billing_balances_def AddTraffic_outstanding carried_def Let_def)
  next
    case (ReportNow push io now)
    obtain acked t f s where R: "Report CollectTraffic push io now (bReporter b, bFiles b, bStats b) = (acked, t, f, s)"
      by (metis prod.exhaust)
    have keyed: "keyed (pending (bReporter b))" using bal by (simp add: billing_balances_def)
    note cons = stats.Report_conserves [OF keyed _ _ R]
    have "keyed (pending t)" and step: "\<And>d uid. pending_amount (bReporter b) d uid + stats_outstanding (bStats b) d uid
        = billed d uid acked + pending_amount t d uid + stats_outstanding s d uid"
      using cons ok ReportNow by simp_all
    moreover have "bCarried b d uid = bBilled b d uid + billed d uid acked + pending_amount t d uid + stats_outstanding s d uid" for d uid
    proof -
      have "bCarried b d uid = bBilled b d uid + (pending_amount (bReporter b) d uid + stats_outstanding (bStats b) d uid)"
        using bal by (simp add: billing_balances_def algebra_simps)
      then show ?thesis unfolding step by (simp add: algebra_simps)
    qed
    ultimately show ?thesis using ReportNow R by (simp add: billing_balances_def)
  qed
qed

definition new_billing :: "path \<Rightarrow> int \<Rightarrow> billing" where
  "new_billing file limit = \<lparr>
     bReporter = fst (NewTrafficReporterWithLimit io_ok file limit (\<lambda>_. None)), bFiles = (\<lambda>_. None),
     bStats = NewStatsTracker, bCarried = (\<lambda>_ _. 0), bBilled = (\<lambda>_ _. 0)\<rparr>"



definition demo_history :: "billing_event list" where
  "demo_history =
     [Carry ''user-7'' 5 1, ReportNow (\<lambda>_. Some ''timeout'') io_ok 10,
      Carry ''user-7'' 2 0, Carry ''user-9'' 4 4, ReportNow (\<lambda>_. None) io_ok 20, Carry ''user-7'' 1 0]"


definition demo_reporter :: reporter where
  "demo_reporter = \<lparr>pending = [(9, \<lparr>UID = 9, Upload = 4, Download = 4\<rparr>), (7, \<lparr>UID = 7, Upload = 5, Download = 1\<rparr>),
     (8, \<lparr>UID = 8, Upload = 1, Download = 0\<rparr>)],
     stateFile = ''s'', maxPendingUsers = 2, lastReportAt = 0, lastReportOK = False, lastReportError = [],
     lastPushedUsers = 0, lastBufferedUsers = 0\<rparr>"

lemma demo_keyed: "keyed (pending demo_reporter)"
  by (simp add: keyed_def gomap_ok_def demo_reporter_def)

theorem payload_complete_witness:
  "billed Up 7 (fst (buildPushPayload [\<lparr>UserID = 7, utUpload = 2, utDownload = 0\<rparr>] demo_reporter)) = 7"
  using payload_complete [OF demo_keyed, of "[\<lparr>UserID = 7, utUpload = 2, utDownload = 0\<rparr>]" Up 7]
  by (simp add: amount_def demo_reporter_def)

theorem trim_keeps_largest_witness:
  "length (pending (trimPending demo_reporter)) = 2 \<and> map_of (pending (trimPending demo_reporter)) 7 = None"
proof -
  have "0 < maxPendingUsers demo_reporter" by (simp add: demo_reporter_def)
  from trim_keeps_largest [OF demo_keyed this refl]
  have "int (length (pending (trimPending demo_reporter))) = 2" by (simp add: demo_reporter_def)
  moreover have "map_of (pending (trimPending demo_reporter)) 7 = None" by code_simp
  ultimately show ?thesis by simp
qed

section \<open>The state file\<close>

lemma fold_names:
  "EqualFold ''uid'' ''uid''" "\<not> EqualFold ''upload'' ''uid''" "\<not> EqualFold ''download'' ''uid''"
  "EqualFold ''upload'' ''upload''" "\<not> EqualFold ''download'' ''upload''" "EqualFold ''download'' ''download''"
  by code_simp+

lemma sint_fits [simp]: "fits_int (sint (w :: int64))"
  using sint_range_size [of w] by (simp add: fits_int_def minInt64_def maxInt64_def size_word_def)

lemma decode_traffic_json: "fits_int (UID t) \<Longrightarrow> decode_traffic (traffic_json t) = Some t"
  by (simp add: decode_traffic_def traffic_json_def traffic_member_def set_int_field_def decode_int_def
      fold_names Atoi_Itoa zero_traffic_def)

lemma plain_traffic_json: "plain_json max_nesting (JArr (map traffic_json ts))"
  by (auto simp: max_nesting_def traffic_json_def byte_def intro!: valid_utf8_ascii)

lemma those_map_Some: "(\<And>x. x \<in> set xs \<Longrightarrow> f (g x) = Some x) \<Longrightarrow> those (map f (map g xs)) = Some xs"
  by (induction xs) auto

lemma decode_encode_traffic:
  assumes "\<And>t. t \<in> set ts \<Longrightarrow> fits_int (UID t)"
  shows "decode_traffic_list (encode_traffic ts) = Some ts"
  unfolding decode_traffic_list_def encode_traffic_def parse_json_render [OF plain_traffic_json]
  using those_map_Some [of ts decode_traffic traffic_json] assms decode_traffic_json by simp

end
