(* ===== verification/Traffic_Restart.thy ===== *)
theory Traffic_Restart
  imports Traffic_Spec
begin

text \<open>
  The traffic reporter and its state file across failures and restarts: the file holds a
  complete payload at every moment, a restarted reporter has exactly what was pending, and
  the one case in which acknowledged traffic is pushed again.
\<close>

section \<open>Writing\<close>

text \<open>The content that \<open>persistPending\<close> means to write.\<close>

definition state_text :: "reporter \<Rightarrow> string" where
  "state_text t = encode_traffic (sort_key UID (map snd (pending t)))"

lemma tmp_name [simp]: "p @ ''.tmp'' \<noteq> p" "p \<noteq> p @ ''.tmp''"
  by simp_all

lemma persist_result:
  assumes "persistPending e t f = (err, f')" and "stateFile t \<noteq> []"
  shows "f' (stateFile t) = (if err = None then Some (state_text t) else f (stateFile t))"
    and "p \<noteq> stateFile t \<Longrightarrow> p \<noteq> stateFile t @ ''.tmp'' \<Longrightarrow> f' p = f p"
  using assms
  by (auto simp: persistPending_def state_text_def Let_def os_WriteFile_def os_Rename_def
      split: option.splits prod.splits if_splits)

text \<open>
  C23: The state file is never torn. Whatever error a call of \<open>persistPending\<close> meets, and
  whatever a failed write leaves behind, the state file holds its old content or, exactly
  when no error is returned, the complete new one; no other path but the temporary file
  changes. A crash between two calls leaves what the failure of the second leaves.
\<close>

theorem state_file_never_torn:
  assumes "persistPending e t f = (err, f')" and "stateFile t \<noteq> []"
  shows "f' (stateFile t) = (if err = None then Some (state_text t) else f (stateFile t))
    \<and> (\<forall>p. p \<noteq> stateFile t \<and> p \<noteq> stateFile t @ ''.tmp'' \<longrightarrow> f' p = f p)
    \<and> (mkdirErr e = None \<and> writeErr e = None \<and> renameErr e = None \<longrightarrow> err = None)"
proof (intro conjI)
  show "mkdirErr e = None \<and> writeErr e = None \<and> renameErr e = None \<longrightarrow> err = None"
    using assms by (auto simp: persistPending_def Let_def os_WriteFile_def os_Rename_def)
qed (use persist_result [OF assms] in auto)

section \<open>Reading back\<close>

definition loads :: "io \<Rightarrow> path \<Rightarrow> int \<Rightarrow> fs \<Rightarrow> reporter" where
  "loads e file limit f = fst (NewTrafficReporterWithLimit e file limit f)"

lemma loads_state_text:
  assumes keyed: "keyed (pending t)" and fits: "\<forall>uid \<in> set (map fst (pending t)). fits_int uid"
    and disk: "file \<noteq> []" "f file = Some (state_text t)" "readErr e = None"
    and room: "0 < limit" "int (length (pending t)) \<le> limit"
  shows "map_of (pending (loads e file limit f)) = map_of (pending t)"
    and "keyed (pending (loads e file limit f))"
    and "snd (NewTrafficReporterWithLimit e file limit f) = f"
    and "stateFile (loads e file limit f) = file" "maxPendingUsers (loads e file limit f) = limit"
proof -
  let ?ts = "sort_key UID (map snd (pending t))"
  have fit: "fits_int (UID r)" if "r \<in> set ?ts" for r
    using that fits keyed by (force simp: keyed_def)
  have uids: "map UID (map snd (pending t)) = map fst (pending t)" by (rule keyed_uids [OF keyed])
  have "mset (map UID ?ts) = mset (map UID (map snd (pending t)))" by (simp add: multiset.map_comp)
  then have "mset (map UID ?ts) = mset (map fst (pending t))" by (simp only: uids)
  then have dist: "distinct (map UID ?ts)"
    using keyed mset_eq_imp_distinct_iff unfolding keyed_def gomap_ok_def by blast
  have dec: "decode_traffic_list (state_text t) = Some ?ts"
    unfolding state_text_def by (rule decode_encode_traffic) (rule fit)
  define t0 where "t0 = \<lparr>pending = [], stateFile = file, maxPendingUsers = limit, lastReportAt = 0,
    lastReportOK = False, lastReportError = [], lastPushedUsers = 0, lastBufferedUsers = 0\<rparr>"
  have new: "NewTrafficReporterWithLimit e file limit f = (bufferPending ?ts t0, f)"
    using disk room(1) dec by (simp add: NewTrafficReporterWithLimit_def loadPending_def os_ReadFile_def t0_def)
  have "int (length ?ts) \<le> maxPendingUsers t0" using room(2) by (simp add: t0_def)
  note buf = bufferPending_keeps [OF dist this]
  have pend: "pending (loads e file limit f) = map (\<lambda>t. (UID t, t)) ?ts"
    by (simp only: loads_def new fst_conv buf)
  show "keyed (pending (loads e file limit f))" unfolding pend by (rule keyed_of_list [OF dist])
  have same: "map (\<lambda>t. (UID t, t)) (map snd (pending t)) = pending t"
  proof -
    have "map (\<lambda>t. (UID t, t)) (map snd m) = m" if "keyed m" for m
      using that by (induction m) (auto simp: keyed_def gomap_ok_def)
    then show ?thesis using keyed .
  qed
  have "mset (map (\<lambda>t. (UID t, t)) ?ts) = mset (map (\<lambda>t. (UID t, t)) (map snd (pending t)))"
    by (simp add: multiset.map_comp)
  then have "mset (pending (loads e file limit f)) = mset (pending t)" by (simp only: pend same)
  then show "map_of (pending (loads e file limit f)) = map_of (pending t)"
    using keyed by (intro map_of_mset_cong [symmetric]) (simp_all add: keyed_def)
  show "snd (NewTrafficReporterWithLimit e file limit f) = f" by (simp add: new)
  show "stateFile (loads e file limit f) = file" "maxPendingUsers (loads e file limit f) = limit"
    using buf by (simp_all add: loads_def new t0_def)
qed

text \<open>
  C22: A restart restores what was pending. When the buffer has been written without error,
  a reporter that is started on the file has the same records pending, at least if its limit
  allows as many, and leaves the file in place.
\<close>

theorem restart_restores_pending:
  assumes "keyed (pending t)" and "\<forall>uid \<in> set (map fst (pending t)). fits_int uid"
    and "stateFile t \<noteq> []" and "persistPending e t f = (None, f')"
    and "readErr e' = None" and "0 < limit" and "int (length (pending t)) \<le> limit"
    and "NewTrafficReporterWithLimit e' (stateFile t) limit f' = (t', f'')"
  shows "map_of (pending t') = map_of (pending t) \<and> f'' = f'"
proof -
  have "f' (stateFile t) = Some (state_text t)" using persist_result(1) [OF assms(4,3)] by simp
  note loads = loads_state_text [where f = f', OF assms(1,2,3) this assms(5-7)]
  then show ?thesis using assms(8) by (simp add: loads_def)
qed

section \<open>Delivered traffic that stays in the file\<close>

lemma clear_fails:
  "stateFile t \<noteq> [] \<Longrightarrow> f (stateFile t) = Some s \<Longrightarrow> removeErr e = Some err
    \<Longrightarrow> clearPersistedPending e t f = (Some err, f)"
  by (simp add: clearPersistedPending_def os_Remove_def)

lemma pushed_billed:
  assumes "Report collect (\<lambda>_. None) e now (t, f, c) = (acked, s)" and "keyed (pending t)"
  shows "billed d uid acked = amount d (pending t) uid + reported d uid (fst (fst (collect c)))"
proof -
  obtain t' f' c' where s: "s = (t', f', c')" by (metis prod.exhaust)
  obtain us err where col: "fst (collect c) = (us, err)" by (rule prod.exhaust)
  have bill: "billed d uid (report_payload collect (t, f, c)) = amount d (pending t) uid + reported d uid us"
    using payload_billed [OF assms(2)] by (simp add: report_payload_def col)
  from assms(1) [unfolded s] show ?thesis
    by (cases rule: Report_cases) (use bill col in auto)
qed

text \<open>
  A state file that cannot be removed makes the panel bill twice. The pending records
  are in the state file, the push succeeds, and the removal of the file fails (or the
  process ends before it): a reporter started on that file pushes the same bytes again.
\<close>

theorem undeleted_file_bills_twice:
  assumes keyed: "keyed (pending t)" and fits: "\<forall>uid \<in> set (map fst (pending t)). fits_int uid"
    and disk: "stateFile t \<noteq> []" "f (stateFile t) = Some (state_text t)"
    and room: "0 < maxPendingUsers t" "int (length (pending t)) \<le> maxPendingUsers t"
    and payload: "report_payload collect (t, f, c) \<noteq> []" and stuck: "removeErr e = Some err"
    and first: "Report collect (\<lambda>_. None) e now (t, f, c) = (acked, t1, f1, c1)"
    and restart: "NewTrafficReporterWithLimit io_ok (stateFile t) (maxPendingUsers t) f1 = (t2, f2)"
    and idle: "fst (fst (collect c1)) = []"
    and second: "Report collect (\<lambda>_. None) e' now' (t2, f2, c1) = (acked', s)"
  shows "lastReportOK t1 \<and> pending t1 = []
    \<and> billed d uid acked = amount d (pending t) uid + reported d uid (fst (fst (collect c)))
    \<and> billed d uid acked' = amount d (pending t) uid"
proof (intro conjI)
  from first show pend: "pending t1 = []" by (cases rule: Report_cases) (use payload in auto)
  have f1: "f1 = f" using first
    by (cases rule: Report_cases) (use payload clear_fails [of t f _ e err] disk stuck in auto)
  show "lastReportOK t1"
    using first payload unfolding Report_def report_payload_def
    by (auto simp: Let_def split: prod.splits if_splits option.splits)
  show "billed d uid acked = amount d (pending t) uid + reported d uid (fst (fst (collect c)))"
    by (rule pushed_billed [OF first keyed])
  note loads = loads_state_text [where f = f and e = io_ok, OF keyed fits disk _ room]
  have t2: "loads io_ok (stateFile t) (maxPendingUsers t) f = t2" using restart f1 by (simp add: loads_def)
  have "map_of (pending t2) = map_of (pending t)" "keyed (pending t2)"
    using loads unfolding t2 by (simp_all add: io_ok_def)
  moreover have "billed d uid acked' = amount d (pending t2) uid + reported d uid (fst (fst (collect c1)))"
    by (rule pushed_billed [OF second calculation(2)])
  ultimately show "billed d uid acked' = amount d (pending t) uid"
    using idle by (simp add: amount_def gget_def)
qed

section \<open>Examples\<close>

definition demo_pending :: reporter where
  "demo_pending = demo_reporter\<lparr>maxPendingUsers := 10\<rparr>"

definition demo_disk :: fs where
  "demo_disk = snd (persistPending io_ok demo_pending (\<lambda>_. None))"

definition quiet :: "nat \<Rightarrow> (user_traffic list \<times> string option) \<times> nat" where
  "quiet n = (([], None), n + 1)"

theorem state_file_never_torn_witness:
  "snd (persistPending (io_ok\<lparr>writeErr := Some (''disk full'', Some ''['')\<rparr>) demo_pending demo_disk) ''s'' = demo_disk ''s''"
proof -
  obtain err f' where p: "persistPending (io_ok\<lparr>writeErr := Some (''disk full'', Some ''['')\<rparr>) demo_pending demo_disk = (err, f')"
    by (rule prod.exhaust)
  have sf: "stateFile demo_pending = ''s''" by code_simp
  have "err \<noteq> None" using p by (auto simp: persistPending_def sf Let_def io_ok_def os_WriteFile_def)
  then obtain er where "err = Some er" by blast
  then show ?thesis using state_file_never_torn [OF p] sf p by simp
qed

lemma demo_pending_ok:
  "keyed (pending demo_pending)" "\<forall>uid \<in> set (map fst (pending demo_pending)). fits_int uid"
  "stateFile demo_pending = ''s''" "maxPendingUsers demo_pending = 10" "length (pending demo_pending) = 3"
proof -
  show "keyed (pending demo_pending)" using demo_keyed by (simp add: demo_pending_def)
qed code_simp+

lemma demo_persist: "persistPending io_ok demo_pending (\<lambda>_. None) = (None, demo_disk)"
  by (simp add: demo_disk_def persistPending_def demo_pending_ok Let_def io_ok_def os_WriteFile_def os_Rename_def)

theorem restart_restores_pending_witness:
  "map_of (pending (loads io_ok ''s'' 10 demo_disk)) 7 = Some \<lparr>UID = 7, Upload = 5, Download = 1\<rparr>"
proof -
  obtain t' f'' where new: "NewTrafficReporterWithLimit io_ok (stateFile demo_pending) 10 demo_disk = (t', f'')"
    by (rule prod.exhaust)
  have "map_of (pending t') = map_of (pending demo_pending)"
    using restart_restores_pending [OF demo_pending_ok(1,2) _ demo_persist _ _ _ new] demo_pending_ok
    by (simp add: io_ok_def)
  then show ?thesis using new demo_pending_ok by (simp add: loads_def demo_pending_def demo_reporter_def)
qed

theorem undeleted_file_bills_twice_witness:
  "\<exists>acked t1 f1 c1 t2 f2 acked' s. Report quiet (\<lambda>_. None) (io_ok\<lparr>removeErr := Some ''read-only''\<rparr>) 1 (demo_pending, demo_disk, 0) = (acked, t1, f1, c1)
    \<and> NewTrafficReporterWithLimit io_ok ''s'' 10 f1 = (t2, f2)
    \<and> Report quiet (\<lambda>_. None) io_ok 2 (t2, f2, c1) = (acked', s)
    \<and> billed Up 7 acked = 5 \<and> billed Up 7 acked' = 5"
proof -
  obtain acked t1 f1 c1 where first: "Report quiet (\<lambda>_. None) (io_ok\<lparr>removeErr := Some ''read-only''\<rparr>) 1 (demo_pending, demo_disk, 0) = (acked, t1, f1, c1)"
    by (metis prod.exhaust)
  obtain t2 f2 where restart: "NewTrafficReporterWithLimit io_ok (stateFile demo_pending) (maxPendingUsers demo_pending) f1 = (t2, f2)"
    by (rule prod.exhaust)
  obtain acked' s where second: "Report quiet (\<lambda>_. None) io_ok 2 (t2, f2, c1) = (acked', s)"
    by (rule prod.exhaust)
  have disk: "demo_disk (stateFile demo_pending) = Some (state_text demo_pending)"
    using persist_result(1) [OF demo_persist] demo_pending_ok by simp
  have payload: "report_payload quiet (demo_pending, demo_disk, 0) \<noteq> []"
    by (simp add: report_payload_def quiet_def buildPushPayload_def demo_pending_def demo_reporter_def)
  have "billed Up 7 acked = 5" "billed Up 7 acked' = 5"
    using undeleted_file_bills_twice [OF demo_pending_ok(1,2) _ disk _ _ payload _ first restart _ second, of _ Up 7]
    by (simp_all add: demo_pending_ok quiet_def amount_def) (simp_all add: demo_pending_def demo_reporter_def)
  then show ?thesis using first restart second unfolding demo_pending_ok by (intro exI conjI)
qed

end
