(* ===== verification/Panel.thy ===== *)
theory Panel
  imports Types Decode
begin

text \<open>
  \<open>panel/client.go\<close>: the client of the panel's HTTP interface. First the data it exchanges
  and their decoding, then the requests with their retries, then the operations, which keep
  the last entity tags and answers in the record \<open>client\<close>.

  The network is a record of two functions on a state \<open>'w\<close> of the environment: one performs
  a request, one sleeps. An operation returns an error of the type \<open>panel_error\<close> (one
  constructor for every \<open>fmt.Errorf\<close>) or its
  result. \<open>Panel_Spec\<close> holds what is proved.
\<close>

section \<open>Node configuration\<close>

record tls_settings =
  tlsAllowInsecure :: bool
  tlsServerPort :: string
  tlsServerName :: string
  tlsPublicKey :: string
  tlsPrivateKey :: string
  tlsShortID :: string
  shortIDs :: "string list"

record base_config =
  PushInterval :: int
  PullInterval :: int

text \<open>\<open>Routes\<close> is the raw text of the member, empty when it is absent.\<close>

record node_config =
  Protocol :: string
  ListenIP :: string
  ServerPort :: int
  Network :: string
  TLS :: int
  Flow :: string
  TLSSettings :: tls_settings
  BaseConfig :: base_config
  Routes :: string

definition zero_tls :: tls_settings where
  "zero_tls = \<lparr>tlsAllowInsecure = False, tlsServerPort = [], tlsServerName = [], tlsPublicKey = [],
     tlsPrivateKey = [], tlsShortID = [], shortIDs = []\<rparr>"

definition zero_config :: node_config where
  "zero_config = \<lparr>Protocol = [], ListenIP = [], ServerPort = 0, Network = [], TLS = 0, Flow = [],
     TLSSettings = zero_tls, BaseConfig = \<lparr>PushInterval = 0, PullInterval = 0\<rparr>, Routes = []\<rparr>"

definition cleanShortIDs :: "string list \<Rightarrow> string list" where
  "cleanShortIDs values = filter (\<lambda>v. v \<noteq> []) (map TrimSpace values)"

definition splitShortIDs :: "string \<Rightarrow> string list" where
  "splitShortIDs value =
     (if CHR '','' \<in> set value then cleanShortIDs (Split value (CHR '','')) else cleanShortIDs [value])"

text \<open>The member \<open>short_id\<close>, if there is one: \<open>null\<close>, a string, or a list of strings.\<close>

definition decodeShortIDs :: "json option \<Rightarrow> string list option" where
  "decodeShortIDs raw =
     (case raw of
        None \<Rightarrow> Some []
      | Some JNull \<Rightarrow> Some []
      | Some (JStr single) \<Rightarrow> Some (splitShortIDs single)
      | Some j \<Rightarrow> map_option cleanShortIDs (into_slice into_string [] j []))"

definition ShortIDList :: "tls_settings \<Rightarrow> string list" where
  "ShortIDList t =
     (if shortIDs t \<noteq> [] then shortIDs t
      else if TrimSpace (tlsShortID t) = [] then []
      else [TrimSpace (tlsShortID t)])"

text \<open>
  \<open>TLSSettings.UnmarshalJSON\<close> decodes into a fresh struct (here with the \<open>short_id\<close> member
  beside it) and copies its fields; \<open>ShortID\<close> is set only when there is an id.
\<close>

definition tls_member :: "tls_settings \<times> json option \<Rightarrow> string \<times> json \<Rightarrow> (tls_settings \<times> json option) option" where
  "tls_member r m =
     (case r of (t, raw) \<Rightarrow>
        if EqualFold (fst m) ''allow_insecure''
        then map_option (\<lambda>t. (t, raw)) (set_field into_bool tlsAllowInsecure (\<lambda>v t. t\<lparr>tlsAllowInsecure := v\<rparr>) (snd m) t)
        else if EqualFold (fst m) ''server_port''
        then map_option (\<lambda>t. (t, raw)) (set_field into_string tlsServerPort (\<lambda>v t. t\<lparr>tlsServerPort := v\<rparr>) (snd m) t)
        else if EqualFold (fst m) ''server_name''
        then map_option (\<lambda>t. (t, raw)) (set_field into_string tlsServerName (\<lambda>v t. t\<lparr>tlsServerName := v\<rparr>) (snd m) t)
        else if EqualFold (fst m) ''public_key''
        then map_option (\<lambda>t. (t, raw)) (set_field into_string tlsPublicKey (\<lambda>v t. t\<lparr>tlsPublicKey := v\<rparr>) (snd m) t)
        else if EqualFold (fst m) ''private_key''
        then map_option (\<lambda>t. (t, raw)) (set_field into_string tlsPrivateKey (\<lambda>v t. t\<lparr>tlsPrivateKey := v\<rparr>) (snd m) t)
        else if EqualFold (fst m) ''short_id'' then Some (t, Some (snd m))
        else Some (t, raw))"

definition into_tls :: "tls_settings into" where
  "into_tls j old =
     (case into_struct tls_member j (zero_tls, None) of
        None \<Rightarrow> None
      | Some (raw, short) \<Rightarrow>
          (case decodeShortIDs short of
             None \<Rightarrow> None
           | Some ids \<Rightarrow>
               Some (raw\<lparr>tlsShortID := (if ids \<noteq> [] then hd ids else tlsShortID old), shortIDs := ids\<rparr>)))"

text \<open>\<open>FlexibleInt.UnmarshalJSON\<close>: a number, a string that holds one, or nothing.\<close>

definition into_flexible_int :: "int into" where
  "into_flexible_int j old =
     (case j of
        JNull \<Rightarrow> Some 0
      | JStr s \<Rightarrow> (if TrimSpace s = [] then Some 0 else Atoi (TrimSpace s))
      | JNum n \<Rightarrow> Atoi n
      | _ \<Rightarrow> None)"

definition base_member :: "base_config \<Rightarrow> string \<times> json \<Rightarrow> base_config option" where
  "base_member b m =
     (if EqualFold (fst m) ''push_interval''
      then set_field into_flexible_int PushInterval (\<lambda>v b. b\<lparr>PushInterval := v\<rparr>) (snd m) b
      else if EqualFold (fst m) ''pull_interval''
      then set_field into_flexible_int PullInterval (\<lambda>v b. b\<lparr>PullInterval := v\<rparr>) (snd m) b
      else Some b)"

text \<open>A member of the configuration comes with the text of its value, for \<open>Routes\<close>.\<close>

definition config_member :: "node_config \<Rightarrow> string \<times> string \<times> json \<Rightarrow> node_config option" where
  "config_member c m =
     (case m of (k, raw, j) \<Rightarrow>
        if EqualFold k ''protocol'' then set_field into_string Protocol (\<lambda>v c. c\<lparr>Protocol := v\<rparr>) j c
        else if EqualFold k ''listen_ip'' then set_field into_string ListenIP (\<lambda>v c. c\<lparr>ListenIP := v\<rparr>) j c
        else if EqualFold k ''server_port'' then set_field into_int ServerPort (\<lambda>v c. c\<lparr>ServerPort := v\<rparr>) j c
        else if EqualFold k ''network'' then set_field into_string Network (\<lambda>v c. c\<lparr>Network := v\<rparr>) j c
        else if EqualFold k ''tls'' then set_field into_int TLS (\<lambda>v c. c\<lparr>TLS := v\<rparr>) j c
        else if EqualFold k ''flow'' then set_field into_string Flow (\<lambda>v c. c\<lparr>Flow := v\<rparr>) j c
        else if EqualFold k ''tls_settings'' then set_field into_tls TLSSettings (\<lambda>v c. c\<lparr>TLSSettings := v\<rparr>) j c
        else if EqualFold k ''base_config''
        then set_field (into_struct base_member) BaseConfig (\<lambda>v c. c\<lparr>BaseConfig := v\<rparr>) j c
        else if EqualFold k ''routes'' then Some (c\<lparr>Routes := raw\<rparr>)
        else Some c)"

definition decode_config :: "string \<Rightarrow> node_config option" where
  "decode_config s =
     (case parse_json s of
        Some JNull \<Rightarrow> Some zero_config
      | Some (JObj _) \<Rightarrow> decode_members config_member (object_members s) zero_config
      | _ \<Rightarrow> None)"

section \<open>Users\<close>

definition zero_user :: panel_user where
  "zero_user = \<lparr>uID = 0, uUUID = [], uSpeedLimit = 0, uDeviceLimit = 0\<rparr>"

definition user_member :: "panel_user \<Rightarrow> string \<times> json \<Rightarrow> panel_user option" where
  "user_member u m =
     (if EqualFold (fst m) ''id'' then set_field into_int uID (\<lambda>v u. u\<lparr>uID := v\<rparr>) (snd m) u
      else if EqualFold (fst m) ''uuid'' then set_field into_string uUUID (\<lambda>v u. u\<lparr>uUUID := v\<rparr>) (snd m) u
      else if EqualFold (fst m) ''speed_limit'' then set_field into_int uSpeedLimit (\<lambda>v u. u\<lparr>uSpeedLimit := v\<rparr>) (snd m) u
      else if EqualFold (fst m) ''device_limit'' then set_field into_int uDeviceLimit (\<lambda>v u. u\<lparr>uDeviceLimit := v\<rparr>) (snd m) u
      else Some u)"

definition into_users :: "panel_user list into" where
  "into_users = into_slice (into_struct user_member) zero_user"

definition users_member :: "panel_user list \<Rightarrow> string \<times> json \<Rightarrow> panel_user list option" where
  "users_member us m = (if EqualFold (fst m) ''users'' then into_users (snd m) us else Some us)"

text \<open>The body is an object with a member \<open>users\<close>, or the list itself.\<close>

definition decode_users :: "string \<Rightarrow> panel_user list option" where
  "decode_users body =
     (case Unmarshal (into_struct users_member) body [] of
        Some users \<Rightarrow> Some users
      | None \<Rightarrow> Unmarshal into_users body [])"

section \<open>The alive list\<close>

text \<open>\<open>fmt.Sscanf(key, "%d", &uid)\<close>: leading space, a sign, digits; the rest is ignored.\<close>

function scan_space :: "string \<Rightarrow> string option" where
  "scan_space s =
     (if s \<noteq> [] \<and> hd s = CHR 0x0A then None
      else if s = [] \<or> space_width s = 0 then Some s
      else scan_space (drop (space_width s) s))"
  by pat_completeness auto
termination by (relation "measure length") auto

declare scan_space.simps [simp del]

definition Sscanf_d :: "string \<Rightarrow> int option" where
  "Sscanf_d s =
     (case scan_space s of
        None \<Rightarrow> None
      | Some t \<Rightarrow>
          (case t of
             c # r \<Rightarrow> if c = CHR ''-'' \<or> c = CHR ''+'' then Atoi (c # takeWhile is_digit r) else Atoi (takeWhile is_digit t)
           | [] \<Rightarrow> None))"

definition placeholderAliveIPs :: "int \<Rightarrow> int \<Rightarrow> string list" where
  "placeholderAliveIPs uid n =
     map (\<lambda>i. ''remote-'' @ Itoa uid @ ''-'' @ Itoa (int i)) [0..<nat n]"

definition convertStringIPsMap :: "(string, string list) gomap \<Rightarrow> alive_list" where
  "convertStringIPsMap input =
     foldl (\<lambda>output (key, value).
         case Sscanf_d key of None \<Rightarrow> output | Some uid \<Rightarrow> AList.update uid value output) [] input"

definition convertStringCountMap :: "(string, int) gomap \<Rightarrow> alive_list" where
  "convertStringCountMap input =
     foldl (\<lambda>output (key, value).
         case Sscanf_d key of
           None \<Rightarrow> output
         | Some uid \<Rightarrow> AList.update uid (placeholderAliveIPs uid value) output) [] input"

definition into_ips_map :: "(string, string list) gomap option into" where
  "into_ips_map = into_map (into_slice into_string []) []"

definition into_count_map :: "(string, int) gomap option into" where
  "into_count_map = into_map into_int 0"

definition alive_member :: "'v into \<Rightarrow> 'v \<Rightarrow> string \<times> json \<Rightarrow> 'v option" where
  "alive_member f r m = (if EqualFold (fst m) ''alive'' then f (snd m) r else Some r)"

definition or_empty :: "('k, 'v) gomap option \<Rightarrow> ('k, 'v) gomap" where
  "or_empty m = (case m of None \<Rightarrow> [] | Some m \<Rightarrow> m)"

definition tryDecodeAliveIPs :: "string \<Rightarrow> alive_list option" where
  "tryDecodeAliveIPs body =
     (case Unmarshal into_ips_map body None of
        Some direct \<Rightarrow> Some (convertStringIPsMap (or_empty direct))
      | None \<Rightarrow>
          (case Unmarshal (into_struct (alive_member into_ips_map)) body None of
             Some (Some alive) \<Rightarrow> Some (convertStringIPsMap alive)
           | _ \<Rightarrow> None))"

record alive_count =
  acUID :: int
  acAlive :: int

definition count_member :: "alive_count \<Rightarrow> string \<times> json \<Rightarrow> alive_count option" where
  "count_member r m =
     (if EqualFold (fst m) ''uid'' then set_field into_int acUID (\<lambda>v r. r\<lparr>acUID := v\<rparr>) (snd m) r
      else if EqualFold (fst m) ''alive'' then set_field into_int acAlive (\<lambda>v r. r\<lparr>acAlive := v\<rparr>) (snd m) r
      else Some r)"

definition tryDecodeAliveCounts :: "string \<Rightarrow> alive_list option" where
  "tryDecodeAliveCounts body =
     (if body = [] then None
      else case Unmarshal into_count_map body None of
        Some direct \<Rightarrow> Some (convertStringCountMap (or_empty direct))
      | None \<Rightarrow>
          (case Unmarshal (into_slice (into_struct count_member) \<lparr>acUID = 0, acAlive = 0\<rparr>) body [] of
             Some items \<Rightarrow>
               Some (foldl (\<lambda>alive item.
                   AList.update (acUID item) (placeholderAliveIPs (acUID item) (acAlive item)) alive) [] items)
           | None \<Rightarrow>
               (case Unmarshal (into_struct (alive_member into_count_map)) body None of
                  Some (Some alive) \<Rightarrow> Some (convertStringCountMap alive)
                | _ \<Rightarrow> None)))"

definition decodeAliveList :: "string \<Rightarrow> alive_list option" where
  "decodeAliveList body =
     (if body = [] then Some []
      else case tryDecodeAliveIPs body of
        Some alive \<Rightarrow> Some alive
      | None \<Rightarrow> tryDecodeAliveCounts body)"

section \<open>Requests\<close>

text \<open>
  The entity tag is the only response header that is read, and \<open>If-None-Match\<close> the only
  request header that varies: both are strings here, empty when absent.
\<close>

record request =
  rqMethod :: string
  rqEndpoint :: string
  rqBody :: string
  rqIfNoneMatch :: string

text \<open>
  What a request meets: no response (a malformed request or a transport error), a response
  whose body cannot be read, or a response.
\<close>

datatype http_outcome =
    NoResponse string
  | BrokenBody int string string
  | Response int string string

record 'w network =
  netDo :: "request \<Rightarrow> 'w \<Rightarrow> http_outcome \<times> 'w"
  netSleep :: "duration \<Rightarrow> 'w \<Rightarrow> 'w"

record http_result =
  hrStatus :: int
  hrETag :: string
  hrBody :: "string + string"

definition requestMaxAttempts :: nat where
  "requestMaxAttempts = 3"

definition requestRetryBaseWait :: duration where
  "requestRetryBaseWait = 100 * 1000000"

definition shouldRetry :: "int \<Rightarrow> bool" where
  "shouldRetry statusCode \<longleftrightarrow> statusCode = 429 \<or> statusCode \<ge> 500"

definition backoffDelay :: "nat \<Rightarrow> duration" where
  "backoffDelay attempt =
     (let attempt = (if attempt < 1 then 1 else attempt) in requestRetryBaseWait * 2 ^ (attempt - 1))"

definition outcome_result :: "http_outcome \<Rightarrow> http_result" where
  "outcome_result out =
     (case out of
        NoResponse err \<Rightarrow> \<lparr>hrStatus = 0, hrETag = [], hrBody = Inl err\<rparr>
      | BrokenBody status etag err \<Rightarrow> \<lparr>hrStatus = status, hrETag = etag, hrBody = Inl err\<rparr>
      | Response status etag body \<Rightarrow>
          \<lparr>hrStatus = status, hrETag = etag,
           hrBody = (if status \<noteq> 200 \<and> status \<noteq> 304
                     then Inl (''HTTP '' @ Itoa status @ '': '' @ body) else Inr body)\<rparr>)"

definition doOnce :: "'w network \<Rightarrow> request \<Rightarrow> 'w \<Rightarrow> http_result \<times> 'w" where
  "doOnce net rq w = (case netDo net rq w of (out, w) \<Rightarrow> (outcome_result out, w))"

text \<open>The loop of \<open>doWithHeaders\<close> from a given attempt on.\<close>

function do_attempts :: "'w network \<Rightarrow> request \<Rightarrow> nat \<Rightarrow> 'w \<Rightarrow> http_result \<times> 'w" where
  "do_attempts net rq attempt w =
     (case doOnce net rq w of
        (r, w) \<Rightarrow>
          (case hrBody r of
             Inr _ \<Rightarrow> (r, w)
           | Inl _ \<Rightarrow>
               if attempt \<ge> requestMaxAttempts \<or> \<not> shouldRetry (hrStatus r) then (r, w)
               else do_attempts net rq (Suc attempt) (netSleep net (backoffDelay attempt) w)))"
  by pat_completeness auto
termination by (relation "measure (\<lambda>(net, rq, attempt, w). requestMaxAttempts - attempt)") auto

declare do_attempts.simps [simp del]

definition doWithHeaders :: "'w network \<Rightarrow> request \<Rightarrow> 'w \<Rightarrow> http_result \<times> 'w" where
  "doWithHeaders net rq w = do_attempts net rq 1 w"

section \<open>The client\<close>

record client =
  baseURL :: string
  token :: string
  nodeID :: int
  userETag :: string
  configETag :: string
  cfgCache :: "node_config option"
  usersCache :: "panel_user list"

datatype panel_error =
    FetchConfig string
  | DecodeConfig string
  | FetchUsers string
  | DecodeUsers string
  | FetchAlive string
  | DecodeAlive
  | PushFailed string
  | SendFailed string

text \<open>\<open>url.QueryEscape\<close> and \<open>Values.Encode\<close>, which sorts by key.\<close>

definition unreserved :: "char \<Rightarrow> bool" where
  "unreserved c \<longleftrightarrow>
     (let n = (of_char c :: nat) in 48 \<le> n \<and> n \<le> 57 \<or> 65 \<le> n \<and> n \<le> 90 \<or> 97 \<le> n \<and> n \<le> 122)
     \<or> c \<in> {CHR ''-'', CHR ''_'', CHR ''.'', CHR ''~''}"

definition upper_hex :: "nat \<Rightarrow> char" where
  "upper_hex d = (if d < 10 then char_of (48 + d) else char_of (55 + d))"

definition QueryEscape :: "string \<Rightarrow> string" where
  "QueryEscape s = concat (map (\<lambda>c.
     if unreserved c then [c]
     else if c = CHR '' '' then ''+''
     else [CHR ''%'', upper_hex (of_char c div 16), upper_hex (of_char c mod 16)]) s)"

definition endpoint :: "client \<Rightarrow> string \<Rightarrow> string" where
  "endpoint c path = baseURL c @ path @ ''?node_id='' @ QueryEscape (Itoa (nodeID c)) @
     ''&node_type=vless&token='' @ QueryEscape (token c)"

definition NewClient :: "string \<Rightarrow> string \<Rightarrow> int \<Rightarrow> client" where
  "NewClient url tok nid = \<lparr>
     baseURL = rev (dropWhile (\<lambda>c. c = CHR ''/'') (rev url)), token = tok, nodeID = nid,
     userETag = [], configETag = [], cfgCache = None, usersCache = []\<rparr>"

definition get_request :: "client \<Rightarrow> string \<Rightarrow> string \<Rightarrow> request" where
  "get_request c path etag = \<lparr>rqMethod = ''GET'', rqEndpoint = endpoint c path, rqBody = [], rqIfNoneMatch = etag\<rparr>"

definition post_request :: "client \<Rightarrow> string \<Rightarrow> string \<Rightarrow> request" where
  "post_request c path body = \<lparr>rqMethod = ''POST'', rqEndpoint = endpoint c path, rqBody = body, rqIfNoneMatch = []\<rparr>"

definition config_path :: string where
  "config_path = ''/api/v1/server/UniProxy/config''"

definition user_path :: string where
  "user_path = ''/api/v1/server/UniProxy/user''"

definition alivelist_path :: string where
  "alivelist_path = ''/api/v1/server/UniProxy/alivelist''"

definition push_path :: string where
  "push_path = ''/api/v1/server/UniProxy/push''"

definition alive_path :: string where
  "alive_path = ''/api/v1/server/UniProxy/alive''"

text \<open>The result of \<open>GetNodeConfig\<close> is a pointer, nil when a 304 comes before any answer.\<close>

definition GetNodeConfig ::
  "'w network \<Rightarrow> client \<Rightarrow> 'w \<Rightarrow> (panel_error + node_config option) \<times> client \<times> 'w" where
  "GetNodeConfig net c w =
     (case doWithHeaders net (get_request c config_path (configETag c)) w of
        (r, w) \<Rightarrow>
          (case hrBody r of
             Inl err \<Rightarrow> (Inl (FetchConfig err), c, w)
           | Inr body \<Rightarrow>
               if hrStatus r = 304 then (Inr (cfgCache c), c, w)
               else (case decode_config body of
                       None \<Rightarrow> (Inl (DecodeConfig body), c, w)
                     | Some cfg \<Rightarrow> (Inr (Some cfg), c\<lparr>configETag := hrETag r, cfgCache := Some cfg\<rparr>, w))))"

definition GetUsers ::
  "'w network \<Rightarrow> client \<Rightarrow> 'w \<Rightarrow> (panel_error + panel_user list) \<times> client \<times> 'w" where
  "GetUsers net c w =
     (case doWithHeaders net (get_request c user_path (userETag c)) w of
        (r, w) \<Rightarrow>
          (case hrBody r of
             Inl err \<Rightarrow> (Inl (FetchUsers err), c, w)
           | Inr body \<Rightarrow>
               if hrStatus r = 304 then (Inr (usersCache c), c, w)
               else (case decode_users body of
                       None \<Rightarrow> (Inl (DecodeUsers body), c, w)
                     | Some us \<Rightarrow> (Inr us, c\<lparr>userETag := hrETag r, usersCache := us\<rparr>, w))))"

definition GetUserAlive :: "'w network \<Rightarrow> client \<Rightarrow> 'w \<Rightarrow> (panel_error + alive_list) \<times> 'w" where
  "GetUserAlive net c w =
     (case doWithHeaders net (get_request c alivelist_path []) w of
        (r, w) \<Rightarrow>
          (case hrBody r of
             Inl err \<Rightarrow> (Inl (FetchAlive err), w)
           | Inr body \<Rightarrow>
               (case decodeAliveList body of None \<Rightarrow> (Inl DecodeAlive, w) | Some alive \<Rightarrow> (Inr alive, w))))"

text \<open>\<open>json.Marshal\<close> of a map writes its keys in order.\<close>

definition marshal_map :: "('v \<Rightarrow> json) \<Rightarrow> (string, 'v) gomap \<Rightarrow> string" where
  "marshal_map f m = render (JObj (map (\<lambda>(k, v). (k, f v)) (sort_key fst m)))"

definition push_payload :: "traffic_data list \<Rightarrow> string" where
  "push_payload data =
     marshal_map (\<lambda>(u, d). JArr [JNum (Itoa (sint u)), JNum (Itoa (sint d))])
       (foldl (\<lambda>m t. AList.update (Itoa (UID t)) (Upload t, Download t) m) [] data)"

definition PushTraffic :: "'w network \<Rightarrow> client \<Rightarrow> traffic_data list \<Rightarrow> 'w \<Rightarrow> panel_error option \<times> 'w" where
  "PushTraffic net c data w =
     (case doWithHeaders net (post_request c push_path (push_payload data)) w of
        (r, w) \<Rightarrow> (case hrBody r of Inl err \<Rightarrow> (Some (PushFailed err), w) | Inr _ \<Rightarrow> (None, w)))"

definition alive_payload_text :: "alive_list \<Rightarrow> string" where
  "alive_payload_text onlineUsers =
     marshal_map (\<lambda>ips. JArr (map JStr ips))
       (foldl (\<lambda>m (uid, ips). AList.update (Itoa uid) ips m) [] onlineUsers)"

definition SendAlive :: "'w network \<Rightarrow> client \<Rightarrow> alive_list \<Rightarrow> 'w \<Rightarrow> panel_error option \<times> 'w" where
  "SendAlive net c onlineUsers w =
     (case doWithHeaders net (post_request c alive_path (alive_payload_text onlineUsers)) w of
        (r, w) \<Rightarrow> (case hrBody r of Inl err \<Rightarrow> (Some (SendFailed err), w) | Inr _ \<Rightarrow> (None, w)))"

text \<open>
  The text of an error, as \<open>err.Error()\<close> gives it; \<open>msg\<close> is the decoder's message for a body.
\<close>

primrec panel_error_text :: "(string \<Rightarrow> string) \<Rightarrow> panel_error \<Rightarrow> string" where
  "panel_error_text msg (FetchConfig err) = ''failed to fetch Xboard node config: '' @ err"
| "panel_error_text msg (DecodeConfig body) = ''failed to decode Xboard node config: '' @ msg body"
| "panel_error_text msg (FetchUsers err) = ''failed to fetch Xboard users: '' @ err"
| "panel_error_text msg (DecodeUsers body) = ''failed to decode Xboard users: '' @ msg body"
| "panel_error_text msg (FetchAlive err) = ''failed to fetch Xboard alive list: '' @ err"
| "panel_error_text msg DecodeAlive = ''failed to decode Xboard alive list''"
| "panel_error_text msg (PushFailed err) = ''failed to push traffic to Xboard: '' @ err"
| "panel_error_text msg (SendFailed err) = ''failed to report online users to Xboard: '' @ err"

end
