(* ===== verification/Panel_Text.thy ===== *)
theory Panel_Text
  imports Panel
begin

text \<open>
  The texts that the client sends, read back: the alive report decodes to the addresses that
  were reported, and the traffic payload states each user's two totals once.
\<close>

section \<open>Maps as JSON objects\<close>

definition map_json :: "('v \<Rightarrow> json) \<Rightarrow> (string, 'v) gomap \<Rightarrow> json" where
  "map_json f m = JObj (map (\<lambda>(k, v). (k, f v)) (sort_key fst m))"

lemma parse_marshal_map:
  assumes "\<And>k v. (k, v) \<in> set m \<Longrightarrow> valid_utf8 k \<and> plain_json (max_nesting - 1) (f v)"
  shows "parse_json (marshal_map f m) = Some (map_json f m)"
proof -
  have "plain_json max_nesting (map_json f m)"
    using assms by (auto simp: map_json_def max_nesting_def)
  from parse_json_render [OF this] show ?thesis by (simp only: marshal_map_def map_json_def)
qed

lemma decode_map:
  assumes "\<And>e. e \<in> set es \<Longrightarrow> g (f (snd e)) z = Some (snd e)" and "distinct (map fst es)"
    and "\<And>e. e \<in> set es \<Longrightarrow> fst e \<notin> fst ` set acc"
  shows "decode_members (map_member g z) (map (\<lambda>(k, v). (k, f v)) es) acc = Some (acc @ es)"
  using assms
proof (induction es arbitrary: acc)
  case (Cons e es)
  obtain k v where e: "e = (k, v)" by (cases e)
  have "map_member g z acc (k, f v) = Some (acc @ [(k, v)])"
    using Cons.prems(1) [of e] Cons.prems(3) [of e] e by (simp add: map_member_def update_fresh)
  moreover have "decode_members (map_member g z) (map (\<lambda>(k, v). (k, f v)) es) (acc @ [(k, v)]) = Some ((acc @ [(k, v)]) @ es)"
    using Cons.prems e by (intro Cons.IH) (auto simp: image_iff)
  ultimately show ?case using e by simp
qed simp

lemma into_map_json:
  assumes "gomap_ok m" and "\<And>e. e \<in> set m \<Longrightarrow> g (f (snd e)) z = Some (snd e)"
  shows "into_map g z (map_json f m) None = Some (Some (sort_key fst m))"
  using decode_map [of "sort_key fst m" g f z "[]"] assms map_of_sort_key(2) [OF assms(1), of fst]
  by (simp add: into_map_def map_json_def gomap_ok_def)

section \<open>Keys\<close>

lemma scan_space_Itoa: "scan_space (Itoa i) = Some (Itoa i)"
proof -
  have c: "Itoa i \<noteq> []" by simp
  have "hd (Itoa i) = CHR ''-'' \<or> is_digit (hd (Itoa i))" by (simp add: Itoa_def)
  then have "\<not> ascii_space (hd (Itoa i)) \<and> (\<forall>a b. \<not> space2 (hd (Itoa i)) a) \<and> (\<forall>a b. \<not> space3 (hd (Itoa i)) a b)"
    by (auto simp: ascii_space_def space2_def space3_def is_digit_def)
  moreover from this have "hd (Itoa i) \<noteq> CHR 0x0A" by (auto simp: ascii_space_def)
  moreover have "space_width (Itoa i) = 0" using calculation c
    by (cases "Itoa i" rule: space_width.cases) auto
  ultimately show ?thesis by (subst scan_space.simps) simp
qed

lemma takeWhile_digits [simp]: "takeWhile is_digit (nat_digits 10 n) = nat_digits 10 n"
  using nat_digits_10_digits [of n] by (simp add: list_all_iff takeWhile_eq_all_conv)

lemma Sscanf_Itoa: "fits_int i \<Longrightarrow> Sscanf_d (Itoa i) = Some i"
proof -
  assume fits: "fits_int i"
  show ?thesis
  proof (cases "i < 0")
    case True
    then have "Itoa i = CHR ''-'' # nat_digits 10 (nat (- i))" by (simp add: Itoa_def)
    then show ?thesis using Atoi_Itoa [of i] scan_space_Itoa [of i] fits by (simp add: Sscanf_d_def)
  next
    case False
    then have eq: "Itoa i = nat_digits 10 (nat i)" by (simp add: Itoa_def)
    obtain c r where d: "nat_digits 10 (nat i) = c # r" by (cases "nat_digits 10 (nat i)") auto
    then have "c \<noteq> CHR ''-''" "c \<noteq> CHR ''+''" using hd_nat_digits_sign [of "nat i"] by auto
    then show ?thesis using Atoi_Itoa [of i] scan_space_Itoa [of i] fits eq d takeWhile_digits [of "nat i"]
      by (simp add: Sscanf_d_def split: if_splits)
  qed
qed

definition with_text_keys :: "(int, 'v) gomap \<Rightarrow> (string, 'v) gomap" where
  "with_text_keys m = map (\<lambda>(uid, v). (Itoa uid, v)) m"

lemma with_text_keys_ok: "gomap_ok m \<Longrightarrow> gomap_ok (with_text_keys m)"
  unfolding gomap_ok_def with_text_keys_def by (induction m) (auto simp: Itoa_inject intro: rev_image_eqI)

lemma with_text_keys_fold:
  assumes "gomap_ok m"
  shows "foldl (\<lambda>m (uid, v). AList.update (Itoa uid) v m) [] m = with_text_keys m"
proof -
  have "distinct (map (\<lambda>e. Itoa (fst e)) m)"
    using with_text_keys_ok [OF assms] by (simp add: gomap_ok_def with_text_keys_def case_prod_beta comp_def)
  from foldl_update_fresh [OF this, of "[]" snd] show ?thesis
    by (simp add: with_text_keys_def split_def)
qed

section \<open>The alive report\<close>

definition reportable_ips :: "alive_list \<Rightarrow> bool" where
  "reportable_ips m \<longleftrightarrow> (\<forall>(uid, ips) \<in> set m. fits_int uid \<and> list_all valid_utf8 ips)"

lemma decode_string_list: "decode_elems into_string [] (map JStr ips) [] = Some ips"
  by (induction ips) (simp_all add: into_string_def)

lemma convert_back:
  assumes "gomap_ok m" and "\<And>e. e \<in> set m \<Longrightarrow> fits_int (fst e)"
  shows "convertStringIPsMap (with_text_keys m) = m"
proof -
  have "foldl (\<lambda>output (key, value). case Sscanf_d key of None \<Rightarrow> output | Some uid \<Rightarrow> AList.update uid value output)
      acc (with_text_keys m) = foldl (\<lambda>m e. AList.update (fst e) (snd e) m) acc m" for acc
    using assms(2)
  proof (induction m arbitrary: acc)
    case (Cons e m)
    have "Sscanf_d (Itoa (fst e)) = Some (fst e)" using Cons.prems [of e] by (simp add: Sscanf_Itoa)
    then show ?case using Cons.IH Cons.prems by (simp add: with_text_keys_def split_def)
  qed (simp add: with_text_keys_def)
  then show ?thesis using foldl_update_fresh [of fst m "[]" snd] assms(1)
    by (simp add: convertStringIPsMap_def gomap_ok_def)
qed

lemma sort_text_keys: "\<exists>m'. sort_key fst (with_text_keys m) = with_text_keys m' \<and> mset m' = mset m"
proof -
  let ?key = "\<lambda>e. Itoa (fst e)"
  have "sort_key fst (with_text_keys m) = with_text_keys (sort_key ?key m)"
  proof (rule properties_for_sort_key)
    show "mset (with_text_keys (sort_key ?key m)) = mset (with_text_keys m)"
      by (simp add: with_text_keys_def)
    have "map fst (with_text_keys (sort_key ?key m)) = map ?key (sort_key ?key m)"
      by (simp add: with_text_keys_def case_prod_beta)
    then show "sorted (map fst (with_text_keys (sort_key ?key m)))" by simp
    have split: "filter (\<lambda>x. k = fst x) (with_text_keys xs) = with_text_keys (filter (\<lambda>e. k = ?key e) xs)" for k xs
      by (induction xs) (auto simp: with_text_keys_def)
    show "filter (\<lambda>x. fst k = fst x) (with_text_keys (sort_key ?key m)) = filter (\<lambda>x. fst k = fst x) (with_text_keys m)"
      if "k \<in> set (with_text_keys (sort_key ?key m))" for k
      unfolding split by (metis (mono_tags, lifting) filter_cong sort_key_stable)
  qed
  then show ?thesis by (intro exI [of _ "sort_key ?key m"]) simp
qed

text \<open>
  C26: The alive report reads back. The text that \<open>SendAlive\<close> posts for a report is one that
  \<open>decodeAliveList\<close> understands, and it gives the same addresses for the same users.
\<close>

theorem alive_report_reads_back:
  assumes "gomap_ok m" and "reportable_ips m"
  shows "\<exists>alive. decodeAliveList (alive_payload_text m) = Some alive \<and> map_of alive = map_of m"
proof -
  let ?f = "\<lambda>ips. JArr (map JStr ips)"
  have ok: "gomap_ok (with_text_keys m)" by (rule with_text_keys_ok [OF assms(1)])
  have written: "alive_payload_text m = marshal_map ?f (with_text_keys m)"
    using with_text_keys_fold [OF assms(1)] by (simp add: alive_payload_text_def)
  have parse: "parse_json (alive_payload_text m) = Some (map_json ?f (with_text_keys m))"
    unfolding written
    by (rule parse_marshal_map)
      (use assms(2) in \<open>auto simp: with_text_keys_def reportable_ips_def max_nesting_def list_all_iff\<close>)
  have nonempty: "alive_payload_text m \<noteq> []" by (simp add: written marshal_map_def)
  obtain m' where m': "sort_key fst (with_text_keys m) = with_text_keys m'" "mset m' = mset m"
    using sort_text_keys by blast
  then have ok': "gomap_ok m'" using gomap_ok_mset_cong assms(1) by blast
  have fits: "fits_int (fst e)" if "e \<in> set m'" for e
    using that mset_eq_setD [OF m'(2)] assms(2) by (auto simp: reportable_ips_def)
  have "into_ips_map (map_json ?f (with_text_keys m)) None = Some (Some (with_text_keys m'))"
    unfolding into_ips_map_def m'(1) [symmetric]
    by (rule into_map_json [OF ok]) (simp add: into_slice_def decode_string_list)
  moreover have "convertStringIPsMap (with_text_keys m') = m'"
    using convert_back [OF ok' fits] .
  ultimately have "decodeAliveList (alive_payload_text m) = Some m'"
    using nonempty by (simp add: decodeAliveList_def tryDecodeAliveIPs_def Unmarshal_def parse or_empty_def)
  then show ?thesis using map_of_mset_cong [OF m'(2) ok'] by blast
qed

theorem alive_report_reads_back_witness:
  "\<exists>alive. decodeAliveList (alive_payload_text [(9, [''10.0.0.1'']), (7, [''1.1.1.1'', ''2.2.2.2''])]) = Some alive
     \<and> map_of alive 7 = Some [''1.1.1.1'', ''2.2.2.2'']"
proof -
  let ?m = "[(9, [''10.0.0.1'']), (7, [''1.1.1.1'', ''2.2.2.2''])] :: alive_list"
  have "gomap_ok ?m" by (simp add: gomap_ok_def)
  moreover have "reportable_ips ?m" by code_simp
  ultimately have "\<exists>alive. decodeAliveList (alive_payload_text ?m) = Some alive \<and> map_of alive = map_of ?m"
    by (rule alive_report_reads_back)
  then show ?thesis by auto
qed

section \<open>The traffic payload\<close>

definition amounts_json :: "traffic_data \<Rightarrow> json" where
  "amounts_json t = JArr [JNum (Itoa (sint (Upload t))), JNum (Itoa (sint (Download t)))]"

text \<open>
  The traffic payload states each user once. For records with distinct user ids, as the
  reporter builds them, the posted text is an object with one member per record, in the
  order of the keys, whose value is the record's two totals.
\<close>

theorem push_states_amounts:
  assumes "distinct (map UID ts)"
  shows "\<exists>ms. parse_json (push_payload ts) = Some (JObj ms) \<and> sorted_wrt (<) (map fst ms)
    \<and> set ms = (\<lambda>t. (Itoa (UID t), amounts_json t)) ` set ts"
proof -
  let ?f = "\<lambda>(u :: int64, d :: int64). JArr [JNum (Itoa (sint u)), JNum (Itoa (sint d))]"
  let ?m = "map (\<lambda>t. (Itoa (UID t), (Upload t, Download t))) ts"
  have dist: "distinct (map (\<lambda>t. Itoa (UID t)) ts)"
    using assms by (simp add: distinct_map inj_on_def Itoa_inject)
  have written: "push_payload ts = marshal_map ?f ?m"
    using foldl_update_fresh [OF dist, of "[]" "\<lambda>t. (Upload t, Download t)"] by (simp add: push_payload_def)
  have "parse_json (push_payload ts) = Some (map_json ?f ?m)"
    unfolding written by (rule parse_marshal_map) (auto simp: max_nesting_def)
  moreover have "gomap_ok ?m" using dist by (simp add: gomap_ok_def comp_def)
  then have "distinct (map fst (sort_key fst ?m))" using map_of_sort_key(2) unfolding gomap_ok_def by blast
  then have "sorted_wrt (<) (map fst (sort_key fst ?m))" by (simp only: strict_sorted_iff sorted_sort_key)
  then have "sorted_wrt (<) (map fst (map (\<lambda>(k, v). (k, ?f v)) (sort_key fst ?m)))"
    by (simp only: map_map) (simp add: comp_def case_prod_beta)
  moreover have "set (map (\<lambda>(k, v). (k, ?f v)) (sort_key fst ?m)) = (\<lambda>t. (Itoa (UID t), amounts_json t)) ` set ts"
    by (simp add: image_image amounts_json_def)
  ultimately show ?thesis unfolding map_json_def by (intro exI conjI)
qed

theorem push_states_amounts_witness:
  "parse_json (push_payload [\<lparr>UID = 7, Upload = 5, Download = 1\<rparr>])
    = Some (JObj [(Itoa 7, JArr [JNum (Itoa 5), JNum (Itoa 1)])])"
proof -
  let ?t = "\<lparr>UID = 7, Upload = 5, Download = 1\<rparr>"
  have "distinct (map UID [?t])" by simp
  from push_states_amounts [OF this] obtain ms where parse: "parse_json (push_payload [?t]) = Some (JObj ms)"
    and sorted: "sorted_wrt (<) (map fst ms)" and img: "set ms = (\<lambda>t. (Itoa (UID t), amounts_json t)) ` set [?t]"
    by blast
  have set: "set ms = {(Itoa 7, amounts_json ?t)}" unfolding img by simp
  have "distinct (map fst ms)" using sorted by (simp only: strict_sorted_iff)
  then have "distinct ms" by (simp add: distinct_map)
  then have "length ms = 1" using set distinct_card [of ms] by simp
  then have "ms = [(Itoa 7, amounts_json ?t)]" using set by (cases ms) auto
  then show ?thesis using parse by (simp add: amounts_json_def)
qed

end
