(* ===== verification/Netip_Parse.thy ===== *)
theory Netip_Parse
  imports Netip
begin

text \<open>
  \<open>netip.ParseAddr\<close>: the text of an IPv4 address, or of an IPv6 address with an optional
  zone. The parser of the standard library fills sixteen bytes from the left; here the
  groups read so far are a list, and \<open>ellipsis\<close> is their number where \<open>::\<close> stood.
\<close>

definition parse_v4_field :: "string \<Rightarrow> nat option" where
  "parse_v4_field s =
     (if s = [] \<or> \<not> list_all is_digit s \<or> (hd s = CHR ''0'' \<and> length s > 1) \<or> digits_value 10 s > 255
      then None else Some (digits_value 10 s))"

definition parse_v4_bytes :: "string \<Rightarrow> nat list option" where
  "parse_v4_bytes s =
     (let fields = Split s (CHR ''.'')
      in if length fields = 4 then those (map parse_v4_field fields) else None)"

definition v4_of_bytes :: "nat list \<Rightarrow> 32 word" where
  "v4_of_bytes bs = word_of_int (foldl (\<lambda>v b. 256 * v + int b) 0 bs)"

definition hex_digit :: "char \<Rightarrow> nat option" where
  "hex_digit c =
     (let n = (of_char c :: nat)
      in if 48 \<le> n \<and> n \<le> 57 then Some (n - 48)
         else if 97 \<le> n \<and> n \<le> 102 then Some (n - 87)
         else if 65 \<le> n \<and> n \<le> 70 then Some (n - 55)
         else None)"

definition is_hex :: "char \<Rightarrow> bool" where
  "is_hex c \<longleftrightarrow> hex_digit c \<noteq> None"

definition hex_group :: "string \<Rightarrow> nat" where
  "hex_group s = foldl (\<lambda>v c. 16 * v + (case hex_digit c of Some d \<Rightarrow> d | None \<Rightarrow> 0)) 0 s"

text \<open>The main loop: the groups of 16 bits, and where the ellipsis is.\<close>

function parse_groups :: "string \<Rightarrow> nat list \<Rightarrow> nat option \<Rightarrow> (nat list \<times> nat option) option" where
  "parse_groups s gs ell =
     (if 8 \<le> length gs then (if s = [] then Some (gs, ell) else None)
      else if takeWhile is_hex s = [] \<or> length (takeWhile is_hex s) > 4 then None
      else (case dropWhile is_hex s of
          [] \<Rightarrow> Some (gs @ [hex_group (takeWhile is_hex s)], ell)
        | c # r \<Rightarrow>
            if c = CHR ''.'' then
              (if ell = None \<and> length gs \<noteq> 6 \<or> length gs > 6 then None
               else (case parse_v4_bytes s of
                       Some [b0, b1, b2, b3] \<Rightarrow> Some (gs @ [256 * b0 + b1, 256 * b2 + b3], ell)
                     | _ \<Rightarrow> None))
            else if c \<noteq> CHR '':'' then None
            else (case r of
                    [] \<Rightarrow> None
                  | d # r' \<Rightarrow>
                      if d = CHR '':'' then
                        (if ell \<noteq> None then None
                         else if r' = [] then Some (gs @ [hex_group (takeWhile is_hex s)], Some (Suc (length gs)))
                         else parse_groups r' (gs @ [hex_group (takeWhile is_hex s)]) (Some (Suc (length gs))))
                      else parse_groups r (gs @ [hex_group (takeWhile is_hex s)]) ell)))"
  by pat_completeness auto
termination
  by (relation "measure (\<lambda>(s, gs, ell). 8 - length gs)") auto

declare parse_groups.simps [simp del]

definition v6_of_groups :: "nat list \<Rightarrow> 128 word" where
  "v6_of_groups gs = word_of_int (foldl (\<lambda>v g. 65536 * v + int g) 0 gs)"

definition parse_v6 :: "string \<Rightarrow> netip_addr option" where
  "parse_v6 s0 =
     (let s = takeWhile (\<lambda>c. c \<noteq> CHR ''%'') s0;
          zoned = (CHR ''%'' \<in> set s0);
          zone = drop (Suc (length s)) s0;
          start = (take 2 s = ''::'')
      in if zoned \<and> zone = [] then None
         else if start \<and> length s = 2 then Some (AddrV6 0 zone)
         else (case parse_groups (if start then drop 2 s else s) [] (if start then Some 0 else None) of
                 None \<Rightarrow> None
               | Some (gs, None) \<Rightarrow> (if length gs = 8 then Some (AddrV6 (v6_of_groups gs) zone) else None)
               | Some (gs, Some e) \<Rightarrow>
                   (if length gs < 8
                    then Some (AddrV6 (v6_of_groups (take e gs @ replicate (8 - length gs) 0 @ drop e gs)) zone)
                    else None)))"

definition ParseAddr :: "string \<Rightarrow> netip_addr option" where
  "ParseAddr s =
     (case filter (\<lambda>c. c \<in> {CHR ''.'', CHR '':'', CHR ''%''}) s of
        [] \<Rightarrow> None
      | c # _ \<Rightarrow>
          if c = CHR ''.'' then map_option (\<lambda>bs. AddrV4 (v4_of_bytes bs)) (parse_v4_bytes s)
          else if c = CHR '':'' then parse_v6 s
          else None)"

lemma ParseAddr_examples:
  "ParseAddr ''192.168.0.1'' = Some (AddrV4 0xC0A80001)"
  "ParseAddr ''192.168.00.1'' = None"
  "ParseAddr ''::'' = Some (AddrV6 0 [])"
  "parse_groups ''2001:db8::1'' [] None = Some ([0x2001, 0xdb8, 1], Some 2)"
  "ParseAddr ''1::2::3'' = None"
  by code_simp+

end
