(* ===== verification/Box_Config.thy ===== *)
theory Box_Config
  imports Panel Netip_Parse Limiter
begin

text \<open>
  \<open>singbox/config.go\<close>: the translation of the panel's node configuration into the options
  of sing-box. The option types of sing-box are third-party; the records here have the
  fields that this code sets. Two things about them are parameters: how sing-box reads a
  route object and a list of rules (\<open>route_decoders\<close>), and the type \<open>'r\<close> of the rules it
  reads, with \<open>'o\<close> for the other fields of a route object.
\<close>

section \<open>Options\<close>

record vless_user =
  vName :: string
  vUUID :: string
  vFlow :: string

record raw_rule =
  rProtocol :: "string list"
  rDomain :: "string list"
  rDomainSuffix :: "string list"
  rDomainKeyword :: "string list"
  rDomainRegex :: "string list"
  rIPCIDR :: "string list"
  rGeoIP :: "string list"
  rNetwork :: "string list"
  rPort :: "int list"
  rPortRange :: "string list"
  rIPIsPrivate :: bool

text \<open>An action is unset, routes to an outbound, or rejects with a method.\<close>

datatype rule_action = Unset | RouteTo string | Reject string

datatype 'r rule = Built raw_rule rule_action | Given 'r

record ('r, 'o) route_options =
  rtRules :: "'r rule list"
  rtFinal :: string
  rtAutoDetectInterface :: bool
  rtOther :: "'o option"

record inbound =
  inTag :: string
  inListen :: netip_addr
  inListenPort :: "16 word"
  inReuseAddr :: bool
  inTCPFastOpen :: bool
  inTCPKeepAlive :: duration
  inTCPKeepAliveInterval :: duration
  inSniffEnabled :: bool
  inSniffOverrideDestination :: bool
  inSniffTimeout :: duration
  inUsers :: "vless_user list"
  inServerName :: string
  inHandshakeServer :: string
  inHandshakePort :: "16 word"
  inPrivateKey :: string
  inShortID :: "string list"

record outbound =
  outType :: string
  outTag :: string
  outDomainStrategy :: "string option"

record dns_options =
  dnsServers :: "(string \<times> string \<times> bool) list"
  dnsRejectKeywords :: "(string list \<times> string) list"
  dnsFinal :: string

record ('r, 'o) options =
  opLogLevel :: string
  opInbounds :: "inbound list"
  opOutbounds :: "outbound list"
  opRoute :: "('r, 'o) route_options"
  opDNS :: dns_options
  opClashAPI :: "string option"

datatype config_error =
    NilConfig
  | UnsupportedProtocol string
  | UnsupportedNetwork string
  | MissingServerName
  | MissingPrivateKey
  | InvalidServerPort string
  | ServerPortOutOfRange int
  | InvalidListenIP string
  | InvalidRoutes

definition defaultVLESSFlow :: string where
  "defaultVLESSFlow = ''xtls-rprx-vision''"

definition inboundTag :: string where "inboundTag = ''vless-in''"

definition directOutboundTag :: string where "directOutboundTag = ''direct''"

definition directIPv6OutboundTag :: string where "directIPv6OutboundTag = ''direct-v6''"

definition localDNSOutboundTag :: string where "localDNSOutboundTag = ''local-dns''"

section \<open>Rules\<close>

definition empty_rule :: raw_rule where
  "empty_rule = \<lparr>rProtocol = [], rDomain = [], rDomainSuffix = [], rDomainKeyword = [], rDomainRegex = [],
     rIPCIDR = [], rGeoIP = [], rNetwork = [], rPort = [], rPortRange = [], rIPIsPrivate = False\<rparr>"

definition rejectRule :: "raw_rule \<Rightarrow> 'r rule" where
  "rejectRule raw = Built raw (Reject ''default'')"

definition routeRule :: "raw_rule \<Rightarrow> 'r rule" where
  "routeRule raw = Built raw (RouteTo directOutboundTag)"

definition defaultSafetyRules :: "'r rule list" where
  "defaultSafetyRules =
     [rejectRule (empty_rule\<lparr>rProtocol := [''bittorrent'']\<rparr>),
      routeRule (empty_rule\<lparr>rIPIsPrivate := True\<rparr>),
      rejectRule (empty_rule\<lparr>rPort := [25]\<rparr>),
      rejectRule (empty_rule\<lparr>rPort := [445, 3389], rPortRange := [''135:139'']\<rparr>)]"

definition googleIPv6Outbound :: outbound where
  "googleIPv6Outbound = \<lparr>outType = ''direct'', outTag = directIPv6OutboundTag, outDomainStrategy = Some ''prefer_ipv6''\<rparr>"

definition googleIPv6Rule :: "'r rule" where
  "googleIPv6Rule = Built
     (empty_rule\<lparr>rDomainSuffix := [''google.com'', ''googleapis.com'', ''gstatic.com'', ''googleusercontent.com'',
        ''youtube.com'', ''ytimg.com'', ''ggpht.com'', ''googlevideo.com'']\<rparr>)
     (RouteTo directIPv6OutboundTag)"

definition buildDefaultDNSOptions :: dns_options where
  "buildDefaultDNSOptions = \<lparr>
     dnsServers = [(''local'', localDNSOutboundTag, True)],
     dnsRejectKeywords = [([''ads'', ''tracker''], ''default'')],
     dnsFinal = localDNSOutboundTag\<rparr>"

section \<open>Routes\<close>

record legacy_rule =
  lgType :: string
  lgProtocol :: "string list"
  lgDomain :: "string list"
  lgDomainSuffix :: "string list"
  lgDomainKeyword :: "string list"
  lgDomainRegex :: "string list"
  lgIPCIDR :: "string list"
  lgGeoIP :: "string list"
  lgNetwork :: "string list"
  lgPort :: "int list"
  lgOutbound :: string
  lgFinal :: string

definition zero_legacy :: legacy_rule where
  "zero_legacy = \<lparr>lgType = [], lgProtocol = [], lgDomain = [], lgDomainSuffix = [], lgDomainKeyword = [],
     lgDomainRegex = [], lgIPCIDR = [], lgGeoIP = [], lgNetwork = [], lgPort = [], lgOutbound = [], lgFinal = []\<rparr>"

definition into_uint16 :: "int into" where
  "into_uint16 j old =
     (case j of
        JNull \<Rightarrow> Some old
      | JNum n \<Rightarrow> (case Atoi_digits n of None \<Rightarrow> None | Some v \<Rightarrow> if v \<le> 65535 then Some (int v) else None)
      | _ \<Rightarrow> None)"

definition into_strings :: "string list into" where
  "into_strings = into_slice into_string []"

definition legacy_member :: "legacy_rule \<Rightarrow> string \<times> json \<Rightarrow> legacy_rule option" where
  "legacy_member r m =
     (let k = fst m; j = snd m
      in if EqualFold k ''type'' then set_field into_string lgType (\<lambda>v r. r\<lparr>lgType := v\<rparr>) j r
         else if EqualFold k ''protocol'' then set_field into_strings lgProtocol (\<lambda>v r. r\<lparr>lgProtocol := v\<rparr>) j r
         else if EqualFold k ''domain'' then set_field into_strings lgDomain (\<lambda>v r. r\<lparr>lgDomain := v\<rparr>) j r
         else if EqualFold k ''domain_suffix'' then set_field into_strings lgDomainSuffix (\<lambda>v r. r\<lparr>lgDomainSuffix := v\<rparr>) j r
         else if EqualFold k ''domain_keyword'' then set_field into_strings lgDomainKeyword (\<lambda>v r. r\<lparr>lgDomainKeyword := v\<rparr>) j r
         else if EqualFold k ''domain_regex'' then set_field into_strings lgDomainRegex (\<lambda>v r. r\<lparr>lgDomainRegex := v\<rparr>) j r
         else if EqualFold k ''ip_cidr'' then set_field into_strings lgIPCIDR (\<lambda>v r. r\<lparr>lgIPCIDR := v\<rparr>) j r
         else if EqualFold k ''geoip'' then set_field into_strings lgGeoIP (\<lambda>v r. r\<lparr>lgGeoIP := v\<rparr>) j r
         else if EqualFold k ''network'' then set_field into_strings lgNetwork (\<lambda>v r. r\<lparr>lgNetwork := v\<rparr>) j r
         else if EqualFold k ''port'' then set_field (into_slice into_uint16 0) lgPort (\<lambda>v r. r\<lparr>lgPort := v\<rparr>) j r
         else if EqualFold k ''outbound'' then set_field into_string lgOutbound (\<lambda>v r. r\<lparr>lgOutbound := v\<rparr>) j r
         else if EqualFold k ''final'' then set_field into_string lgFinal (\<lambda>v r. r\<lparr>lgFinal := v\<rparr>) j r
         else Some r)"

text \<open>The rule that the \<open>switch\<close> of \<open>convertLegacyRouteRules\<close> makes of an entry, if any.\<close>

definition legacy_to_rule :: "legacy_rule \<Rightarrow> 'r rule option" where
  "legacy_to_rule item =
     (let ty = ToLower (TrimSpace (lgType item))
      in if ty = [] \<or> ty = ''field'' then
           Some (Built (empty_rule\<lparr>rProtocol := lgProtocol item, rDomain := lgDomain item,
             rDomainSuffix := lgDomainSuffix item, rDomainKeyword := lgDomainKeyword item,
             rDomainRegex := lgDomainRegex item, rIPCIDR := lgIPCIDR item, rGeoIP := lgGeoIP item,
             rNetwork := lgNetwork item, rPort := lgPort item\<rparr>) Unset)
         else if ty = ''reject'' then
           Some (Built (empty_rule\<lparr>rProtocol := lgProtocol item, rDomain := lgDomain item\<rparr>) (Reject ''default''))
         else None)"

definition legacy_step :: "'r rule list \<times> string \<Rightarrow> legacy_rule \<Rightarrow> 'r rule list \<times> string" where
  "legacy_step acc item =
     (case acc of (rules, final) \<Rightarrow>
        let final = (if final = [] \<and> TrimSpace (lgFinal item) \<noteq> [] then TrimSpace (lgFinal item) else final)
        in case legacy_to_rule item of
             None \<Rightarrow> (rules, final)
           | Some rule \<Rightarrow>
               (rules @ [rule],
                if TrimSpace (lgOutbound item) \<noteq> [] \<and> final = [] then TrimSpace (lgOutbound item) else final))"

definition convertLegacyRouteRules :: "legacy_rule list \<Rightarrow> ('r, 'o) route_options option" where
  "convertLegacyRouteRules rules =
     (if rules = [] then None
      else case foldl legacy_step ([], []) rules of
             (out, final) \<Rightarrow>
               if out = [] \<and> final = [] then None
               else Some \<lparr>rtRules = out, rtFinal = (if final = [] then directOutboundTag else final),
                          rtAutoDetectInterface = False, rtOther = None\<rparr>)"

text \<open>
  sing-box's decoders: a route object gives its rules, its final outbound and the rest; a
  list of rules gives the rules.
\<close>

record ('r, 'o) route_decoders =
  decRoute :: "string \<Rightarrow> ('r list \<times> string \<times> 'o) option"
  decRules :: "string \<Rightarrow> 'r list option"

definition parseRouteOptions ::
  "('r, 'o) route_decoders \<Rightarrow> string \<Rightarrow> config_error + ('r, 'o) route_options option" where
  "parseRouteOptions dec raw =
     (if raw = [] \<or> TrimSpace raw = [] \<or> TrimSpace raw = ''null'' then Inr None
      else case decRoute dec raw of
        Some (rules, final, other) \<Rightarrow>
          Inr (Some \<lparr>rtRules = map Given rules, rtFinal = final, rtAutoDetectInterface = False, rtOther = Some other\<rparr>)
      | None \<Rightarrow>
          (case decRules dec raw of
             Some rules \<Rightarrow>
               Inr (Some \<lparr>rtRules = map Given rules, rtFinal = [], rtAutoDetectInterface = False, rtOther = None\<rparr>)
           | None \<Rightarrow>
               (case Unmarshal (into_slice (into_struct legacy_member) zero_legacy) raw [] of
                  None \<Rightarrow> Inl InvalidRoutes
                | Some legacy \<Rightarrow>
                    (case convertLegacyRouteRules legacy of
                       None \<Rightarrow> Inl InvalidRoutes
                     | Some route \<Rightarrow> Inr (Some route)))))"

definition mergeDefaultRouteOptions :: "('r, 'o) route_options option \<Rightarrow> ('r, 'o) route_options" where
  "mergeDefaultRouteOptions route =
     (let route = (case route of
           None \<Rightarrow> \<lparr>rtRules = [], rtFinal = [], rtAutoDetectInterface = False, rtOther = None\<rparr>
         | Some r \<Rightarrow> r)
      in route\<lparr>rtAutoDetectInterface := True,
               rtRules := defaultSafetyRules @ rtRules route,
               rtFinal := (if rtFinal route = [] then directOutboundTag else rtFinal route)\<rparr>)"

section \<open>Checks of the fields\<close>

definition validateSupportedNetwork :: "string \<Rightarrow> config_error option" where
  "validateSupportedNetwork raw =
     (let network = ToLower (TrimSpace raw)
      in if network = [] \<or> network = ''tcp'' then None else Some (UnsupportedNetwork raw))"

definition parseRealityDestPort :: "string \<Rightarrow> config_error + 16 word" where
  "parseRealityDestPort raw =
     (if TrimSpace raw = [] then Inr 443
      else case Atoi raw of
             None \<Rightarrow> Inl (InvalidServerPort raw)
           | Some port \<Rightarrow> if port < 1 \<or> port > 65535 then Inl (ServerPortOutOfRange port) else Inr (word_of_int port))"

definition resolveListenAddr :: "string \<Rightarrow> config_error + netip_addr" where
  "resolveListenAddr raw =
     (if TrimSpace raw = [] then Inr (AddrV6 0 [])
      else case ParseAddr (TrimSpace raw) of None \<Rightarrow> Inl (InvalidListenIP raw) | Some addr \<Rightarrow> Inr addr)"

section \<open>The configuration\<close>

definition build_inbound :: "node_config \<Rightarrow> panel_user list \<Rightarrow> string \<Rightarrow> 16 word \<Rightarrow> netip_addr \<Rightarrow> inbound" where
  "build_inbound c users flow destPort listenAddr = \<lparr>
     inTag = inboundTag, inListen = listenAddr, inListenPort = word_of_int (ServerPort c),
     inReuseAddr = True, inTCPFastOpen = True,
     inTCPKeepAlive = 300 * second_ns, inTCPKeepAliveInterval = 75 * second_ns,
     inSniffEnabled = True, inSniffOverrideDestination = False, inSniffTimeout = second_ns,
     inUsers = map (\<lambda>u. \<lparr>vName = ''user-'' @ Itoa (uID u), vUUID = uUUID u, vFlow = flow\<rparr>) users,
     inServerName = tlsServerName (TLSSettings c), inHandshakeServer = tlsServerName (TLSSettings c),
     inHandshakePort = destPort, inPrivateKey = tlsPrivateKey (TLSSettings c),
     inShortID = ShortIDList (TLSSettings c)\<rparr>"

definition BuildConfig ::
  "('r, 'o) route_decoders \<Rightarrow> node_config option \<Rightarrow> panel_user list \<Rightarrow> string \<Rightarrow> string \<Rightarrow> bool
     \<Rightarrow> config_error + ('r, 'o) options" where
  "BuildConfig dec nodeConfig users logLevel clashAPIListenAddr googleIPv6 =
     (case nodeConfig of
        None \<Rightarrow> Inl NilConfig
      | Some c \<Rightarrow>
          if TrimSpace (Protocol c) \<noteq> [] \<and> \<not> EqualFold (TrimSpace (Protocol c)) ''vless''
          then Inl (UnsupportedProtocol (Protocol c))
          else case validateSupportedNetwork (Network c) of
            Some err \<Rightarrow> Inl err
          | None \<Rightarrow>
              if TrimSpace (tlsServerName (TLSSettings c)) = [] then Inl MissingServerName
              else if TrimSpace (tlsPrivateKey (TLSSettings c)) = [] then Inl MissingPrivateKey
              else
                let flow = (if TrimSpace (Flow c) = [] then defaultVLESSFlow else TrimSpace (Flow c))
                in case parseRealityDestPort (tlsServerPort (TLSSettings c)) of
                  Inl err \<Rightarrow> Inl err
                | Inr destPort \<Rightarrow>
                    (case resolveListenAddr (ListenIP c) of
                       Inl err \<Rightarrow> Inl err
                     | Inr listenAddr \<Rightarrow>
                         (case parseRouteOptions dec (Routes c) of
                            Inl err \<Rightarrow> Inl err
                          | Inr parsed \<Rightarrow>
                              let routes = mergeDefaultRouteOptions parsed;
                                  opts = \<lparr>
                                    opLogLevel = logLevel,
                                    opInbounds = [build_inbound c users flow destPort listenAddr],
                                    opOutbounds = [\<lparr>outType = ''direct'', outTag = directOutboundTag, outDomainStrategy = None\<rparr>],
                                    opRoute = routes, opDNS = buildDefaultDNSOptions,
                                    opClashAPI = (if TrimSpace clashAPIListenAddr \<noteq> []
                                                  then Some (TrimSpace clashAPIListenAddr) else None)\<rparr>
                              in Inr (if googleIPv6
                                      then opts\<lparr>opOutbounds := opOutbounds opts @ [googleIPv6Outbound],
                                                opRoute := routes\<lparr>rtRules := rtRules routes @ [googleIPv6Rule]\<rparr>\<rparr>
                                      else opts))))"

end
