(* ===== verification/Engine.thy ===== *)
theory Engine
  imports Box_Config Stats
begin

text \<open>
  \<open>singbox/engine.go\<close>: the life cycle of the embedded sing-box instance. sing-box is
  third-party: its calls are the record \<open>box_api\<close> on a state \<open>'w\<close> of the environment, with
  instances of a type \<open>'b\<close>. \<open>createBox\<close> reads only fields that never change; the other
  operations have critical sections under the engine's mutex, with calls to sing-box
  between them. \<open>ReloadUsers\<close> is split at them (\<open>reload_swap\<close>, \<open>reload_finish\<close>), so that an
  interleaving with \<open>Close\<close> can be stated.
\<close>

section \<open>State and calls\<close>

record ('b, 'w, 'r, 'o) box_api =
  boxNew :: "('r, 'o) options \<Rightarrow> 'w \<Rightarrow> (string + 'b) \<times> 'w"
  boxAppendTracker :: "'b \<Rightarrow> 'w \<Rightarrow> 'w"
  boxStart :: "'b \<Rightarrow> 'w \<Rightarrow> string option \<times> 'w"
  boxClose :: "'b \<Rightarrow> 'w \<Rightarrow> string option \<times> 'w"
  boxDecoders :: "('r, 'o) route_decoders"

record 'b engine =
  instance_box :: "'b option"
  engUsers :: "panel_user list"
  engStats :: stats_tracker
  currentConfig :: "node_config option"
  engLogLevel :: string
  clashAPIListenAddr :: string
  googleIPv6 :: bool
  engHasLimiter :: bool

definition NewEngine :: "string \<Rightarrow> bool \<Rightarrow> bool \<Rightarrow> 'b engine" where
  "NewEngine clash ipv6 limiter = \<lparr>
     instance_box = None, engUsers = [], engStats = NewStatsTracker, currentConfig = None,
     engLogLevel = [], clashAPIListenAddr = clash, googleIPv6 = ipv6, engHasLimiter = limiter\<rparr>"

datatype create_error = GenerateFailed config_error | NewFailed string

datatype restore_error = NoPreviousConfig | RebuildFailed create_error | RestartFailed string

datatype engine_error =
    CreateFailed create_error
  | StartFailed string
  | BuildNewFailed create_error
  | RolledBack string
  | RollbackFailed string restore_error

section \<open>Creating and starting\<close>

definition createBox ::
  "('b, 'w, 'r, 'o) box_api \<Rightarrow> 'b engine \<Rightarrow> node_config option \<Rightarrow> panel_user list \<Rightarrow> string \<Rightarrow> 'w
     \<Rightarrow> (create_error + 'b) \<times> 'w" where
  "createBox api e cfg users logLevel w =
     (case BuildConfig (boxDecoders api) cfg users logLevel (clashAPIListenAddr e) (googleIPv6 e) of
        Inl err \<Rightarrow> (Inl (GenerateFailed err), w)
      | Inr opts \<Rightarrow>
          (case boxNew api opts w of
             (Inl err, w) \<Rightarrow> (Inl (NewFailed err), w)
           | (Inr b, w) \<Rightarrow> (Inr b, if engHasLimiter e then boxAppendTracker api b w else w)))"

text \<open>The critical section that installs a started instance.\<close>

definition install :: "'b \<Rightarrow> node_config option \<Rightarrow> panel_user list \<Rightarrow> string \<Rightarrow> 'b engine \<Rightarrow> 'b engine" where
  "install b cfg users logLevel e =
     e\<lparr>instance_box := Some b, engUsers := users, currentConfig := cfg, engLogLevel := logLevel\<rparr>"

definition engine_Start ::
  "('b, 'w, 'r, 'o) box_api \<Rightarrow> node_config option \<Rightarrow> panel_user list \<Rightarrow> string \<Rightarrow> 'b engine \<times> 'w
     \<Rightarrow> engine_error option \<times> 'b engine \<times> 'w" where
  "engine_Start api cfg users logLevel ew =
     (case ew of (e, w) \<Rightarrow>
        case createBox api e cfg users logLevel w of
          (Inl err, w) \<Rightarrow> (Some (CreateFailed err), e, w)
        | (Inr b, w) \<Rightarrow>
            (case boxStart api b w of
               (Some err, w) \<Rightarrow> (Some (StartFailed err), e, snd (boxClose api b w))
             | (None, w) \<Rightarrow> (None, install b cfg users logLevel e, w)))"

definition restorePreviousInstance ::
  "('b, 'w, 'r, 'o) box_api \<Rightarrow> node_config option \<Rightarrow> panel_user list \<Rightarrow> string \<Rightarrow> 'b engine \<times> 'w
     \<Rightarrow> restore_error option \<times> 'b engine \<times> 'w" where
  "restorePreviousInstance api cfg users logLevel ew =
     (case ew of (e, w) \<Rightarrow>
        if cfg = None then (Some NoPreviousConfig, e, w)
        else case createBox api e cfg users logLevel w of
               (Inl err, w) \<Rightarrow> (Some (RebuildFailed err), e, w)
             | (Inr b, w) \<Rightarrow>
                 (case boxStart api b w of
                    (Some err, w) \<Rightarrow> (Some (RestartFailed err), e, snd (boxClose api b w))
                  | (None, w) \<Rightarrow> (None, install b cfg users logLevel e, w)))"

section \<open>Reloading\<close>

record 'b previous =
  oldInstance :: "'b option"
  oldUsers :: "panel_user list"
  oldConfig :: "node_config option"
  oldLogLevel :: string

definition reload_swap :: "'b engine \<Rightarrow> 'b previous \<times> 'b engine" where
  "reload_swap e =
     (\<lparr>oldInstance = instance_box e, oldUsers = engUsers e, oldConfig = currentConfig e,
       oldLogLevel = engLogLevel e\<rparr>, e\<lparr>instance_box := None\<rparr>)"

definition reload_finish ::
  "('b, 'w, 'r, 'o) box_api \<Rightarrow> node_config option \<Rightarrow> panel_user list \<Rightarrow> string \<Rightarrow> 'b \<Rightarrow> 'b previous
     \<Rightarrow> 'b engine \<times> 'w \<Rightarrow> engine_error option \<times> 'b engine \<times> 'w" where
  "reload_finish api cfg users logLevel newInstance old ew =
     (case ew of (e, w) \<Rightarrow>
        let w = (case oldInstance old of None \<Rightarrow> w | Some b \<Rightarrow> snd (boxClose api b w))
        in case boxStart api newInstance w of
             (Some err, w) \<Rightarrow>
               let w = snd (boxClose api newInstance w)
               in (case restorePreviousInstance api (oldConfig old) (oldUsers old) (oldLogLevel old) (e, w) of
                     (Some rollbackErr, ew) \<Rightarrow> (Some (RollbackFailed err rollbackErr), ew)
                   | (None, ew) \<Rightarrow> (Some (RolledBack err), ew))
           | (None, w) \<Rightarrow> (None, install newInstance cfg users logLevel e, w))"

definition ReloadUsers ::
  "('b, 'w, 'r, 'o) box_api \<Rightarrow> node_config option \<Rightarrow> panel_user list \<Rightarrow> string \<Rightarrow> 'b engine \<times> 'w
     \<Rightarrow> engine_error option \<times> 'b engine \<times> 'w" where
  "ReloadUsers api cfg users logLevel ew =
     (case ew of (e, w) \<Rightarrow>
        case createBox api e cfg users logLevel w of
          (Inl err, w) \<Rightarrow> (Some (BuildNewFailed err), e, w)
        | (Inr b, w) \<Rightarrow>
            (case reload_swap e of (old, e) \<Rightarrow> reload_finish api cfg users logLevel b old (e, w)))"

section \<open>Closing and reading\<close>

definition close_take :: "'b engine \<Rightarrow> 'b option \<times> 'b engine" where
  "close_take e =
     (instance_box e, e\<lparr>instance_box := None, engUsers := [], currentConfig := None, engLogLevel := []\<rparr>)"

definition engine_Close :: "('b, 'w, 'r, 'o) box_api \<Rightarrow> 'b engine \<times> 'w \<Rightarrow> string option \<times> 'b engine \<times> 'w" where
  "engine_Close api ew =
     (case ew of (e, w) \<Rightarrow> case close_take e of
        (None, e) \<Rightarrow> (None, e, w)
      | (Some b, e) \<Rightarrow> (case boxClose api b w of (err, w) \<Rightarrow> (err, e, w)))"

definition engine_CollectTraffic :: "'b engine \<Rightarrow> (user_traffic list \<times> string option) \<times> 'b engine" where
  "engine_CollectTraffic e =
     (case CollectTraffic (engStats e) of (res, s) \<Rightarrow> (res, e\<lparr>engStats := s\<rparr>))"

definition engine_GetOnlineCount :: "'b engine \<Rightarrow> int" where
  "engine_GetOnlineCount e = GetOnlineCount (engStats e)"

text \<open>The text of an error; \<open>msg\<close> is that of a configuration error.\<close>

primrec create_error_text :: "(config_error \<Rightarrow> string) \<Rightarrow> create_error \<Rightarrow> string" where
  "create_error_text msg (GenerateFailed err) = ''failed to generate sing-box config: '' @ msg err"
| "create_error_text msg (NewFailed err) = ''failed to create sing-box instance: '' @ err"

primrec restore_error_text :: "(config_error \<Rightarrow> string) \<Rightarrow> restore_error \<Rightarrow> string" where
  "restore_error_text msg NoPreviousConfig = ''previous config is missing, cannot roll back''"
| "restore_error_text msg (RebuildFailed err) =
     ''failed to rebuild previous sing-box instance: '' @ create_error_text msg err"
| "restore_error_text msg (RestartFailed err) = ''failed to restart previous sing-box instance: '' @ err"

primrec engine_error_text :: "(config_error \<Rightarrow> string) \<Rightarrow> engine_error \<Rightarrow> string" where
  "engine_error_text msg (CreateFailed err) = create_error_text msg err"
| "engine_error_text msg (StartFailed err) = ''failed to start sing-box: '' @ err"
| "engine_error_text msg (BuildNewFailed err) =
     ''failed to build new sing-box instance: '' @ create_error_text msg err"
| "engine_error_text msg (RolledBack err) =
     ''failed to start new sing-box instance, rolled back to the previous config: '' @ err"
| "engine_error_text msg (RollbackFailed err rollbackErr) =
     ''failed to start new sing-box instance: '' @ err @ ''; rollback also failed: ''
       @ restore_error_text msg rollbackErr"

end
