(* ===== verification/Env.thy ===== *)
theory Env
  imports GoStrings Files
begin

text \<open>
  \<open>config/env.go\<close>: the runtime configuration, read from environment variables after an
  optional file of assignments. The process environment is a map; the operating system is
  known by its name and, for Windows, the default path of the state file there. The text of
  an error is left out; its constructor has the key it is about.
\<close>

section \<open>The environment\<close>

type_synonym environ = "string \<Rightarrow> string option"

definition Getenv :: "environ \<Rightarrow> string \<Rightarrow> string" where
  "Getenv env key = (case env key of None \<Rightarrow> [] | Some v \<Rightarrow> v)"

text \<open>\<open>os.Setenv\<close> refuses an empty key, a key with \<open>=\<close> or NUL, and a value with NUL.\<close>

definition Setenv :: "string \<Rightarrow> string \<Rightarrow> environ \<Rightarrow> environ" where
  "Setenv key val env =
     (if key = [] \<or> CHR ''='' \<in> set key \<or> CHR 0x00 \<in> set key \<or> CHR 0x00 \<in> set val then env
      else env(key := Some val))"

definition lookupTrimmedEnv :: "environ \<Rightarrow> string \<Rightarrow> string option" where
  "lookupTrimmedEnv env key =
     (case env key of
        None \<Rightarrow> None
      | Some value \<Rightarrow> if TrimSpace value = [] then None else Some (TrimSpace value))"

section \<open>The environment file\<close>

definition quoted_by :: "char \<Rightarrow> string \<Rightarrow> bool" where
  "quoted_by q v \<longleftrightarrow> v \<noteq> [] \<and> hd v = q \<and> last v = q"

definition unquote :: "string \<Rightarrow> string" where
  "unquote v =
     (if (quoted_by (CHR 0x22) v \<or> quoted_by (CHR 0x27) v) \<and> length v \<ge> 2 then butlast (tl v) else v)"

text \<open>A line as an assignment: blank lines, comments and lines without \<open>=\<close> give none.\<close>

definition env_line :: "string \<Rightarrow> (string \<times> string) option" where
  "env_line line =
     (let line = TrimSpace line
      in if line = [] \<or> hd line = CHR ''#'' \<or> CHR ''='' \<notin> set line then None
         else Some (TrimSpace (takeWhile (\<lambda>c. c \<noteq> CHR ''='') line),
                    unquote (TrimSpace (tl (dropWhile (\<lambda>c. c \<noteq> CHR ''='') line)))))"

definition env_assign :: "environ \<Rightarrow> string \<Rightarrow> environ" where
  "env_assign env line =
     (case env_line line of
        None \<Rightarrow> env
      | Some (key, val) \<Rightarrow> if Getenv env key = [] then Setenv key val env else env)"

definition tryLoadEnvFile :: "string option \<Rightarrow> path \<Rightarrow> fs \<Rightarrow> environ \<Rightarrow> environ" where
  "tryLoadEnvFile err path f env =
     (case os_ReadFile err path f of
        Contents content \<Rightarrow> foldl env_assign env (Split content (CHR 0x0A))
      | _ \<Rightarrow> env)"

section \<open>Values\<close>

datatype env_error =
    EnvRequired string
  | EnvNotInteger string
  | EnvNotPositive string
  | NodeIDNotInteger string
  | NodeIDNotPositive
  | NoNodeID
  | EnvBadLogLevel string

definition requireEnv :: "environ \<Rightarrow> string \<Rightarrow> env_error + string" where
  "requireEnv env key =
     (case lookupTrimmedEnv env key of None \<Rightarrow> Inl (EnvRequired key) | Some v \<Rightarrow> Inr v)"

definition loadOptionalPositiveIntEnv :: "environ \<Rightarrow> string \<Rightarrow> int \<Rightarrow> env_error + int \<times> bool" where
  "loadOptionalPositiveIntEnv env key defaultVal =
     (case lookupTrimmedEnv env key of
        None \<Rightarrow> Inr (defaultVal, False)
      | Some raw \<Rightarrow>
          (case Atoi raw of
             None \<Rightarrow> Inl (EnvNotInteger key)
           | Some value \<Rightarrow> if value \<le> 0 then Inl (EnvNotPositive key) else Inr (value, True)))"

definition loadOptionalPositiveIntEnvValue :: "environ \<Rightarrow> string \<Rightarrow> int \<Rightarrow> env_error + int" where
  "loadOptionalPositiveIntEnvValue env key defaultVal =
     map_sum id fst (loadOptionalPositiveIntEnv env key defaultVal)"

definition loadOptionalIntEnvValue :: "environ \<Rightarrow> string \<Rightarrow> int \<Rightarrow> env_error + int" where
  "loadOptionalIntEnvValue env key defaultVal =
     (case lookupTrimmedEnv env key of
        None \<Rightarrow> Inr defaultVal
      | Some raw \<Rightarrow> (case Atoi raw of None \<Rightarrow> Inl (EnvNotInteger key) | Some value \<Rightarrow> Inr value))"

definition loadOptionalLogLevelEnv :: "environ \<Rightarrow> string \<Rightarrow> string \<Rightarrow> env_error + string" where
  "loadOptionalLogLevelEnv env key defaultVal =
     (case lookupTrimmedEnv env key of
        None \<Rightarrow> Inr defaultVal
      | Some raw \<Rightarrow>
          if ToLower raw \<in> {''debug'', ''info'', ''warn'', ''error''} then Inr (ToLower raw)
          else Inl (EnvBadLogLevel key))"

definition loadOptionalStringEnv :: "environ \<Rightarrow> string \<Rightarrow> string \<Rightarrow> string" where
  "loadOptionalStringEnv env key defaultVal =
     (case lookupTrimmedEnv env key of None \<Rightarrow> defaultVal | Some raw \<Rightarrow> raw)"

definition loadOptionalBoolEnv :: "environ \<Rightarrow> string \<Rightarrow> bool" where
  "loadOptionalBoolEnv env key =
     (case lookupTrimmedEnv env key of
        None \<Rightarrow> False
      | Some raw \<Rightarrow> ToLower raw \<in> {''true'', ''1'', ''yes''})"

definition defaultTrafficStateFile :: "string \<Rightarrow> path \<Rightarrow> path" where
  "defaultTrafficStateFile goos windowsPath =
     (if goos = ''windows'' then windowsPath else ''/var/lib/singbox-bridge/pending-traffic.json'')"

text \<open>The loop over the parts of \<open>NODE_ID\<close>; \<open>ids\<close> are the numbers so far.\<close>

fun parse_node_ids :: "string list \<Rightarrow> int list \<Rightarrow> env_error + int list" where
  "parse_node_ids [] ids = Inr ids"
| "parse_node_ids (part # parts) ids =
     (if TrimSpace part = [] then parse_node_ids parts ids
      else case Atoi (TrimSpace part) of
             None \<Rightarrow> Inl (NodeIDNotInteger (TrimSpace part))
           | Some i \<Rightarrow> if i \<le> 0 then Inl NodeIDNotPositive else parse_node_ids parts (ids @ [i]))"

section \<open>The configuration\<close>

record config =
  PanelHost :: string
  PanelToken :: string
  NodeID :: int
  NodeIDs :: "int list"
  SyncInterval :: int
  ReportInterval :: int
  LogLevel :: string
  ClashAPIListenAddr :: string
  TrafficStateFile :: path
  cfgMaxConnPerUser :: int
  cfgMaxConnPerIP :: int
  cfgMaxNewConnPerUserPerMin :: int
  cfgMaxNewConnPerIPPerMin :: int
  TrafficPendingMaxUsers :: int
  GoogleIPv6 :: bool
  SyncIntervalExplicit :: bool
  ReportIntervalExplicit :: bool

definition env_bind :: "env_error + 'a \<Rightarrow> ('a \<Rightarrow> env_error + 'b) \<Rightarrow> env_error + 'b" where
  "env_bind r f = (case r of Inl err \<Rightarrow> Inl err | Inr v \<Rightarrow> f v)"

lemma env_bind_Inr [simp]: "env_bind r f = Inr b \<longleftrightarrow> (\<exists>a. r = Inr a \<and> f a = Inr b)"
  by (cases r) (simp_all add: env_bind_def)

definition load_env :: "string \<Rightarrow> path \<Rightarrow> environ \<Rightarrow> env_error + config" where
  "load_env goos windowsPath env =
     env_bind (requireEnv env ''PANEL_HOST'') (\<lambda>panelHost.
     env_bind (requireEnv env ''PANEL_TOKEN'') (\<lambda>panelToken.
     env_bind (requireEnv env ''NODE_ID'') (\<lambda>nodeIDsRaw.
     env_bind (parse_node_ids (Split nodeIDsRaw (CHR '','')) []) (\<lambda>nodeIDs.
     if nodeIDs = [] then Inl NoNodeID else
     env_bind (loadOptionalPositiveIntEnv env ''SYNC_INTERVAL'' 60) (\<lambda>(syncInterval, syncExplicit).
     env_bind (loadOptionalPositiveIntEnv env ''REPORT_INTERVAL'' 60) (\<lambda>(reportInterval, reportExplicit).
     env_bind (loadOptionalLogLevelEnv env ''LOG_LEVEL'' ''info'') (\<lambda>logLevel.
     env_bind (loadOptionalPositiveIntEnvValue env ''MAX_CONN_PER_USER'' 128) (\<lambda>maxConnPerUser.
     env_bind (loadOptionalIntEnvValue env ''MAX_CONN_PER_IP'' 0) (\<lambda>maxConnPerIP.
     env_bind (loadOptionalPositiveIntEnvValue env ''MAX_NEW_CONN_PER_USER_PER_MIN'' 600) (\<lambda>maxNewConnPerUser.
     env_bind (loadOptionalIntEnvValue env ''MAX_NEW_CONN_PER_IP_PER_MIN'' 0) (\<lambda>maxNewConnPerIP.
     env_bind (loadOptionalPositiveIntEnvValue env ''TRAFFIC_PENDING_MAX_USERS'' 10000) (\<lambda>trafficPendingMaxUsers.
     Inr \<lparr>PanelHost = panelHost, PanelToken = panelToken, NodeID = hd nodeIDs, NodeIDs = nodeIDs,
          SyncInterval = syncInterval, ReportInterval = reportInterval, LogLevel = logLevel,
          ClashAPIListenAddr = loadOptionalStringEnv env ''CLASH_API_LISTEN_ADDR'' [],
          TrafficStateFile = loadOptionalStringEnv env ''TRAFFIC_STATE_FILE'' (defaultTrafficStateFile goos windowsPath),
          cfgMaxConnPerUser = maxConnPerUser, cfgMaxConnPerIP = maxConnPerIP,
          cfgMaxNewConnPerUserPerMin = maxNewConnPerUser, cfgMaxNewConnPerIPPerMin = maxNewConnPerIP,
          TrafficPendingMaxUsers = trafficPendingMaxUsers,
          GoogleIPv6 = loadOptionalBoolEnv env ''GOOGLE_IPV6'',
          SyncIntervalExplicit = syncExplicit, ReportIntervalExplicit = reportExplicit\<rparr>))))))))))))"

definition Load :: "string \<Rightarrow> path \<Rightarrow> string option \<Rightarrow> fs \<Rightarrow> environ \<Rightarrow> env_error + config" where
  "Load goos windowsPath err f env =
     load_env goos windowsPath (tryLoadEnvFile err ''/etc/singbox-bridge.env'' f env)"

end
