(* ===== verification/Sha256.thy ===== *)
theory Sha256
  imports GoStrings
begin

text \<open>
  \<open>crypto/sha256\<close> as the program uses it: the digest of a byte string, and its first eight
  bytes in hexadecimal, which is how configurations and user lists are compared.
\<close>

unbundle bit_operations_syntax

type_synonym w32 = "32 word"

definition sha_K :: "w32 list" where
  "sha_K = [
     0x428A2F98, 0x71374491, 0xB5C0FBCF, 0xE9B5DBA5, 0x3956C25B, 0x59F111F1,
     0x923F82A4, 0xAB1C5ED5, 0xD807AA98, 0x12835B01, 0x243185BE, 0x550C7DC3,
     0x72BE5D74, 0x80DEB1FE, 0x9BDC06A7, 0xC19BF174, 0xE49B69C1, 0xEFBE4786,
     0x0FC19DC6, 0x240CA1CC, 0x2DE92C6F, 0x4A7484AA, 0x5CB0A9DC, 0x76F988DA,
     0x983E5152, 0xA831C66D, 0xB00327C8, 0xBF597FC7, 0xC6E00BF3, 0xD5A79147,
     0x06CA6351, 0x14292967, 0x27B70A85, 0x2E1B2138, 0x4D2C6DFC, 0x53380D13,
     0x650A7354, 0x766A0ABB, 0x81C2C92E, 0x92722C85, 0xA2BFE8A1, 0xA81A664B,
     0xC24B8B70, 0xC76C51A3, 0xD192E819, 0xD6990624, 0xF40E3585, 0x106AA070,
     0x19A4C116, 0x1E376C08, 0x2748774C, 0x34B0BCB5, 0x391C0CB3, 0x4ED8AA4A,
     0x5B9CCA4F, 0x682E6FF3, 0x748F82EE, 0x78A5636F, 0x84C87814, 0x8CC70208,
     0x90BEFFFA, 0xA4506CEB, 0xBEF9A3F7, 0xC67178F2]"

definition sha_H :: "w32 list" where
  "sha_H = [
     0x6A09E667, 0xBB67AE85, 0x3C6EF372, 0xA54FF53A, 0x510E527F, 0x9B05688C,
     0x1F83D9AB, 0x5BE0CD19]"

definition rotr32 :: "nat \<Rightarrow> w32 \<Rightarrow> w32" where
  "rotr32 n w = drop_bit n w OR push_bit (32 - n) w"

definition bytes_word :: "string \<Rightarrow> w32" where
  "bytes_word s = foldl (\<lambda>w c. push_bit 8 w OR word_of_nat (of_char c)) 0 s"

definition word_bytes :: "w32 \<Rightarrow> string" where
  "word_bytes w = map (\<lambda>i. char_of (unat (take_bit 8 (drop_bit (24 - 8 * i) w)))) [0..<4]"

text \<open>Big-endian, as \<open>binary.BigEndian.PutUint64\<close> writes it.\<close>

definition be64 :: "uint64 \<Rightarrow> string" where
  "be64 w = map (\<lambda>i. char_of (unat (take_bit 8 (drop_bit (56 - 8 * i) w)))) [0..<8]"

fun chunks :: "nat \<Rightarrow> 'a list \<Rightarrow> 'a list list" where
  "chunks n xs = (if n = 0 \<or> xs = [] then [] else take n xs # chunks n (drop n xs))"

declare chunks.simps [simp del]

definition sha_pad :: "string \<Rightarrow> string" where
  "sha_pad s = s @ [CHR 0x80] @ replicate ((55 + 63 * length s) mod 64) (CHR 0x00) @ be64 (word_of_nat (8 * length s))"

text \<open>The message schedule, the newest word first.\<close>

definition sha_extend :: "w32 list \<Rightarrow> w32 list" where
  "sha_extend ws =
     (let x = ws ! 14; y = ws ! 1;
          s0 = rotr32 7 x XOR rotr32 18 x XOR drop_bit 3 x;
          s1 = rotr32 17 y XOR rotr32 19 y XOR drop_bit 10 y
      in (ws ! 15 + s0 + ws ! 6 + s1) # ws)"

definition sha_schedule :: "string \<Rightarrow> w32 list" where
  "sha_schedule block = rev ((sha_extend ^^ 48) (rev (map bytes_word (chunks 4 block))))"

fun sha_round :: "w32 list \<Rightarrow> w32 \<times> w32 \<Rightarrow> w32 list" where
  "sha_round [a, b, c, d, e, f, g, h] (k, w) =
     (let S1 = rotr32 6 e XOR rotr32 11 e XOR rotr32 25 e;
          ch = (e AND f) XOR (NOT e AND g);
          t1 = h + S1 + ch + k + w;
          S0 = rotr32 2 a XOR rotr32 13 a XOR rotr32 22 a;
          maj = (a AND b) XOR (a AND c) XOR (b AND c)
      in [t1 + (S0 + maj), a, b, c, d + t1, e, f, g])"
| "sha_round st _ = st"

definition sha_block :: "w32 list \<Rightarrow> string \<Rightarrow> w32 list" where
  "sha_block st block = map2 (+) st (foldl sha_round st (zip sha_K (sha_schedule block)))"

definition sha256 :: "string \<Rightarrow> string" where
  "sha256 s = concat (map word_bytes (foldl sha_block sha_H (chunks 64 (sha_pad s))))"

definition hex_string :: "string \<Rightarrow> string" where
  "hex_string s = concat (map (\<lambda>c. [digit_char (of_char c div 16), digit_char (of_char c mod 16)]) s)"

text \<open>\<open>fmt.Sprintf("%x", hash[:8])\<close>\<close>

definition digest8 :: "string \<Rightarrow> string" where
  "digest8 s = hex_string (take 8 (sha256 s))"

end
