(* ===== verification/Sync.thy ===== *)
theory Sync
  imports Panel Sha256
begin

text \<open>
  \<open>core/sync.go\<close> and \<open>core/alive.go\<close>: the periodic synchronisation with the panel. The
  digests of the users and of the configuration decide whether the engine is reloaded.

  The syncer's neighbours (clock, panel client, limiter, traffic reporter, engine) are
  operations on a state \<open>'w\<close> of their own, collected in the record \<open>sync_env\<close>. \<open>Sync\<close> runs
  on one goroutine; its mutex only protects the fields from \<open>Snapshot\<close>, so the whole
  call is one function here. Logging is left out.
\<close>

section \<open>JSON values as Go sees them\<close>

text \<open>\<open>any\<close> after \<open>json.Unmarshal\<close>: numbers are the bits of a \<open>float64\<close>.\<close>

datatype any_value =
    ANull
  | ABool bool
  | AFloat uint64
  | AString string
  | AArray "any_value list"
  | AObject "(string \<times> any_value) list"

text \<open>\<open>strconv.ParseFloat\<close> of a JSON number: the nearest double, ties to even; none if it is infinite.\<close>

fun bit_length :: "nat \<Rightarrow> nat" where
  "bit_length n = (if n = 0 then 0 else Suc (bit_length (n div 2)))"

declare bit_length.simps [simp del]

definition round_div :: "nat \<Rightarrow> nat \<Rightarrow> nat" where
  "round_div n d =
     (let q = n div d; r = n mod d
      in if 2 * r < d \<or> 2 * r = d \<and> even q then q else Suc q)"

definition nearest_double :: "nat \<Rightarrow> nat \<Rightarrow> nat" where
  "nearest_double num den =
     (let k0 = int (bit_length num) - int (bit_length den);
          k = (if den * 2 ^ nat k0 \<le> num * 2 ^ nat (- k0) then k0 else k0 - 1);
          e = max (- 1074) (k - 52);
          q = (if 0 \<le> e then round_div num (den * 2 ^ nat e) else round_div (num * 2 ^ nat (- e)) den)
      in nat (e + 1074) * 2 ^ 52 + q)"

definition float_bits :: "bool \<Rightarrow> nat \<Rightarrow> nat \<Rightarrow> uint64 option" where
  "float_bits neg num den =
     (let bits = (if num = 0 then 0 else nearest_double num den)
      in if 2047 * 2 ^ 52 \<le> bits then None
         else Some (word_of_nat (if neg then 2 ^ 63 + bits else bits)))"

definition ParseFloat :: "string \<Rightarrow> uint64 option" where
  "ParseFloat s =
     (let neg = (s \<noteq> [] \<and> hd s = CHR ''-'');
          body = (if neg then tl s else s);
          ints = takeWhile is_digit body;
          rest = dropWhile is_digit body;
          fracs = (case rest of c # r \<Rightarrow> if c = CHR ''.'' then takeWhile is_digit r else [] | [] \<Rightarrow> []);
          rest = (if fracs = [] then rest else drop (Suc (length fracs)) rest);
          e = (case rest of _ # r \<Rightarrow>
                 (case r of
                    c # ds \<Rightarrow> if c = CHR ''-'' then - int (digits_value 10 ds)
                             else if c = CHR ''+'' then int (digits_value 10 ds)
                             else int (digits_value 10 r)
                  | [] \<Rightarrow> 0)
               | [] \<Rightarrow> 0);
          scale = e - int (length fracs)
      in float_bits neg (digits_value 10 (ints @ fracs) * 10 ^ nat scale) (10 ^ nat (- scale)))"

fun decode_any :: "json \<Rightarrow> any_value option" where
  "decode_any JNull = Some ANull"
| "decode_any (JBool b) = Some (ABool b)"
| "decode_any (JNum n) = map_option AFloat (ParseFloat n)"
| "decode_any (JStr s) = Some (AString s)"
| "decode_any (JArr js) = map_option AArray (those (map decode_any js))"
| "decode_any (JObj ms) =
     map_option (\<lambda>es. AObject (foldl (\<lambda>m e. AList.update (fst e) (snd e) m) [] es))
       (those (map (\<lambda>(k, v). map_option (Pair k) (decode_any v)) ms))"

section \<open>Digests\<close>

definition NUL :: string where
  "NUL = [CHR 0x00]"

text \<open>\<open>hashGenericValue\<close>: the bytes that it writes.\<close>

fun hashGenericValue :: "any_value \<Rightarrow> string" where
  "hashGenericValue ANull = ''null''"
| "hashGenericValue (ABool b) = (if b then ''true'' else ''false'')"
| "hashGenericValue (AFloat w) = be64 w"
| "hashGenericValue (AString s) = s @ NUL"
| "hashGenericValue (AArray vs) = ''['' @ concat (map (\<lambda>v. hashGenericValue v @ '','') vs) @ '']''"
| "hashGenericValue (AObject es) =
     ''{'' @ concat (map (\<lambda>(k, t). k @ NUL @ '':'' @ t @ '','')
       (sort_key fst (map (\<lambda>(k, v). (k, hashGenericValue v)) es))) @ ''}''"

definition user_text :: "panel_user \<Rightarrow> string" where
  "user_text u = be64 (word_of_int (uID u)) @ be64 (word_of_int (uSpeedLimit u)) @ uUUID u @ ''|''"

text \<open>
  \<open>sort.Slice\<close> is not stable: the order of users with equal ids, here that of the list, is
  not determined. The panel's ids are distinct.
\<close>

definition users_text :: "panel_user list \<Rightarrow> string" where
  "users_text users = concat (map user_text (sort_key uID users))"

definition hashUsers :: "panel_user list \<Rightarrow> string" where
  "hashUsers users = (if users = [] then ''empty'' else digest8 (users_text users))"

definition short_ids_text :: "tls_settings \<Rightarrow> string" where
  "short_ids_text t = (if ShortIDList t \<noteq> [] then concat (sort (ShortIDList t)) else tlsShortID t)"

definition routes_text :: "string \<Rightarrow> string" where
  "routes_text raw =
     (if raw = [] \<or> raw = ''null'' then []
      else case parse_json raw of
             None \<Rightarrow> raw
           | Some j \<Rightarrow> (case decode_any j of None \<Rightarrow> raw | Some v \<Rightarrow> hashGenericValue v))"

definition config_text :: "node_config \<Rightarrow> string" where
  "config_text c =
     Protocol c @ NUL @ ListenIP c @ NUL @ be64 (word_of_int (ServerPort c)) @
     Network c @ NUL @ be64 (word_of_int (TLS c)) @ Flow c @ NUL @
     be64 (if tlsAllowInsecure (TLSSettings c) then 1 else 0) @
     tlsServerPort (TLSSettings c) @ NUL @ tlsServerName (TLSSettings c) @ NUL @
     tlsPublicKey (TLSSettings c) @ NUL @ tlsPrivateKey (TLSSettings c) @ NUL @
     short_ids_text (TLSSettings c) @
     be64 (word_of_int (PushInterval (BaseConfig c))) @ be64 (word_of_int (PullInterval (BaseConfig c))) @
     routes_text (Routes c)"

definition hashConfig :: "node_config option \<Rightarrow> string" where
  "hashConfig config = (case config of None \<Rightarrow> ''nil'' | Some c \<Rightarrow> digest8 (config_text c))"

section \<open>The syncer\<close>

text \<open>\<open>hasReporter\<close> and \<open>hasLimiter\<close> say that the pointers are not nil.\<close>

record syncer =
  nodeConfig :: "node_config option"
  syLogLevel :: string
  currentUserHash :: string
  currentConfigHash :: string
  hasReporter :: bool
  hasLimiter :: bool
  lastSyncAt :: gotime
  lastSyncOK :: bool
  lastSyncError :: string
  lastReloadAt :: gotime
  lastReloadOK :: bool
  lastReloadError :: string
  lastUserCount :: int
  lastConfigHash :: string

record 'w sync_env =
  envNow :: "'w \<Rightarrow> gotime \<times> 'w"
  envGetUsers :: "'w \<Rightarrow> (string + panel_user list) \<times> 'w"
  envGetNodeConfig :: "'w \<Rightarrow> (string + node_config option) \<times> 'w"
  envGetUserAlive :: "'w \<Rightarrow> (string + alive_list) \<times> 'w"
  envUpdateUsers :: "panel_user list \<Rightarrow> 'w \<Rightarrow> 'w"
  envUpdateAliveList :: "alive_list \<Rightarrow> 'w \<Rightarrow> 'w"
  envReport :: "'w \<Rightarrow> 'w"
  envReloadUsers :: "node_config option \<Rightarrow> panel_user list \<Rightarrow> string \<Rightarrow> 'w \<Rightarrow> string option \<times> 'w"

definition NewUserSyncer :: "node_config option \<Rightarrow> string \<Rightarrow> bool \<Rightarrow> syncer" where
  "NewUserSyncer cfg level reporter = \<lparr>
     nodeConfig = cfg, syLogLevel = level, currentUserHash = [], currentConfigHash = [],
     hasReporter = reporter, hasLimiter = False,
     lastSyncAt = 0, lastSyncOK = False, lastSyncError = [],
     lastReloadAt = 0, lastReloadOK = False, lastReloadError = [],
     lastUserCount = 0, lastConfigHash = []\<rparr>"

definition SetInitialHash :: "panel_user list \<Rightarrow> syncer \<Rightarrow> syncer" where
  "SetInitialHash users s = s\<lparr>
     currentUserHash := hashUsers users, currentConfigHash := hashConfig (nodeConfig s),
     lastUserCount := int (length users), lastConfigHash := hashConfig (nodeConfig s)\<rparr>"

definition SetLimiter :: "bool \<Rightarrow> syncer \<Rightarrow> syncer" where
  "SetLimiter present s = s\<lparr>hasLimiter := present\<rparr>"

definition markSync ::
  "'w sync_env \<Rightarrow> bool \<Rightarrow> string \<Rightarrow> int \<Rightarrow> string \<Rightarrow> syncer \<times> 'w \<Rightarrow> syncer \<times> 'w" where
  "markSync env ok err userCount configHash sw =
     (case sw of (s, w) \<Rightarrow> case envNow env w of (now, w) \<Rightarrow>
        (s\<lparr>lastSyncAt := now, lastSyncOK := ok, lastSyncError := err,
           lastUserCount := (if userCount \<ge> 0 then userCount else lastUserCount s),
           lastConfigHash := (if configHash \<noteq> [] then configHash else lastConfigHash s)\<rparr>, w))"

definition markReload :: "'w sync_env \<Rightarrow> bool \<Rightarrow> string \<Rightarrow> syncer \<times> 'w \<Rightarrow> syncer \<times> 'w" where
  "markReload env ok err sw =
     (case sw of (s, w) \<Rightarrow> case envNow env w of (now, w) \<Rightarrow>
        (s\<lparr>lastReloadAt := now, lastReloadOK := ok, lastReloadError := err\<rparr>, w))"

text \<open>A call returns, or dies with a nil dereference.\<close>

datatype 'a outcome = Returns (state: 'a) | Panics (state: 'a)

text \<open>
  \<open>refreshAliveCounts\<close> gets its updater as an interface. It is nil, or it holds a pointer to
  a limiter that may be nil itself: then the test for nil does not catch it.
\<close>

datatype updater_arg = NilInterface | NilLimiter | LimiterPointer

definition refreshAliveCounts :: "'w sync_env \<Rightarrow> updater_arg \<Rightarrow> 'w \<Rightarrow> 'w outcome" where
  "refreshAliveCounts env updater w =
     (if updater = NilInterface then Returns w
      else case envGetUserAlive env w of
             (Inl err, w) \<Rightarrow> Returns w
           | (Inr alive, w) \<Rightarrow>
               (if updater = NilLimiter then Panics w else Returns (envUpdateAliveList env alive w)))"

definition Sync :: "'w sync_env \<Rightarrow> syncer \<times> 'w \<Rightarrow> (syncer \<times> 'w) outcome" where
  "Sync env sw =
     (case sw of (s, w) \<Rightarrow>
        case envGetUsers env w of
          (Inl err, w) \<Rightarrow> Returns (markSync env False err (- 1) [] (s, w))
        | (Inr newUsers, w) \<Rightarrow>
            let w = (if hasLimiter s then envUpdateUsers env newUsers w else w)
            in case envGetNodeConfig env w of (fetched, w) \<Rightarrow>
              let newConfig = (case fetched of Inl _ \<Rightarrow> nodeConfig s | Inr cfg \<Rightarrow> cfg)
              in if newConfig = None
                 then Returns (markSync env False ''node config is nil'' (int (length newUsers)) [] (s, w))
                 else
                   let newUserHash = hashUsers newUsers;
                       newConfigHash = hashConfig newConfig;
                       usersChanged = (newUserHash \<noteq> currentUserHash s);
                       configChanged = (newConfigHash \<noteq> currentConfigHash s)
                   in if \<not> usersChanged \<and> \<not> configChanged
                      then Returns (markSync env True [] (int (length newUsers)) newConfigHash (s, w))
                      else
                        let w = (if hasReporter s then envReport env w else w)
                        in case refreshAliveCounts env (if hasLimiter s then LimiterPointer else NilLimiter) w of
                             Panics w \<Rightarrow> Panics (s, w)
                           | Returns w \<Rightarrow>
                               (case envReloadUsers env newConfig newUsers (syLogLevel s) w of
                                  (Some err, w) \<Rightarrow>
                                    Returns (markReload env False err
                                      (markSync env False err (int (length newUsers)) newConfigHash (s, w)))
                                | (None, w) \<Rightarrow>
                                    let s = s\<lparr>currentUserHash := newUserHash,
                                              currentConfigHash := newConfigHash,
                                              nodeConfig := newConfig\<rparr>
                                    in Returns (markReload env True []
                                         (markSync env True [] (int (length newUsers)) newConfigHash (s, w)))))"

record sync_snapshot =
  ssLastSyncAt :: gotime
  ssLastSyncOK :: bool
  ssLastSyncError :: string
  ssLastReloadAt :: gotime
  ssLastReloadOK :: bool
  ssLastReloadError :: string
  ssUserCount :: int
  ssConfigHash :: string

definition sync_Snapshot :: "syncer \<Rightarrow> sync_snapshot" where
  "sync_Snapshot s = \<lparr>
     ssLastSyncAt = lastSyncAt s, ssLastSyncOK = lastSyncOK s, ssLastSyncError = lastSyncError s,
     ssLastReloadAt = lastReloadAt s, ssLastReloadOK = lastReloadOK s, ssLastReloadError = lastReloadError s,
     ssUserCount = lastUserCount s, ssConfigHash = lastConfigHash s\<rparr>"

end
