(* ===== verification/Node.thy ===== *)
theory Node
  imports Engine Env Limiter Traffic Sync
begin

text \<open>
  \<open>core/node.go\<close>, \<open>core/doctor.go\<close> and the node handling of \<open>main.go\<close>: one node puts the
  components together. What lies outside the program is the record \<open>platform\<close>: the network,
  sing-box, the clock, the errors of the file system and the texts of foreign errors. The
  environment's state, of type \<open>'w\<close>, is threaded through every call.

  The tickers fire on one goroutine, so a tick is one step. Logging is left out.
\<close>

section \<open>State\<close>

record ('b, 'w, 'r, 'o) platform =
  plNet :: "'w network"
  plBox :: "('b, 'w, 'r, 'o) box_api"
  plNow :: "'w \<Rightarrow> gotime \<times> 'w"
  plIO :: "'w \<Rightarrow> io \<times> 'w"
  plDecodeText :: "string \<Rightarrow> string"
  plConfigText :: "config_error \<Rightarrow> string"

text \<open>\<open>ndFiles\<close> and \<open>ndWorld\<close> are the file system and the environment that the node runs in.\<close>

record ('b, 'w) node =
  ndCfg :: config
  ndEngine :: "'b engine"
  ndClient :: client
  ndLimiter :: limiter
  ndReporter :: "reporter option"
  ndSyncer :: "syncer option"
  ndFiles :: fs
  ndWorld :: 'w

definition NewNode :: "config \<Rightarrow> fs \<Rightarrow> 'w \<Rightarrow> ('b, 'w) node" where
  "NewNode cfg f w = \<lparr>
     ndCfg = cfg,
     ndEngine = NewEngine (ClashAPIListenAddr cfg) (GoogleIPv6 cfg) True,
     ndClient = NewClient (PanelHost cfg) (PanelToken cfg) (NodeID cfg),
     ndLimiter = NewLimiterWithConfig \<lparr>
       MaxConnPerUser = cfgMaxConnPerUser cfg, MaxConnPerIP = cfgMaxConnPerIP cfg,
       MaxNewConnPerUserPerMin = cfgMaxNewConnPerUserPerMin cfg,
       MaxNewConnPerIPPerMin = cfgMaxNewConnPerIPPerMin cfg\<rparr>,
     ndReporter = None, ndSyncer = None, ndFiles = f, ndWorld = w\<rparr>"

section \<open>The components as the node calls them\<close>

definition node_now :: "('b, 'w, 'r, 'o) platform \<Rightarrow> ('b, 'w) node \<Rightarrow> gotime \<times> ('b, 'w) node" where
  "node_now p n = (case plNow p (ndWorld n) of (now, w) \<Rightarrow> (now, n\<lparr>ndWorld := w\<rparr>))"

definition node_GetUsers ::
  "('b, 'w, 'r, 'o) platform \<Rightarrow> ('b, 'w) node \<Rightarrow> (panel_error + panel_user list) \<times> ('b, 'w) node" where
  "node_GetUsers p n =
     (case GetUsers (plNet p) (ndClient n) (ndWorld n) of (r, c, w) \<Rightarrow> (r, n\<lparr>ndClient := c, ndWorld := w\<rparr>))"

definition node_GetNodeConfig ::
  "('b, 'w, 'r, 'o) platform \<Rightarrow> ('b, 'w) node \<Rightarrow> (panel_error + node_config option) \<times> ('b, 'w) node" where
  "node_GetNodeConfig p n =
     (case GetNodeConfig (plNet p) (ndClient n) (ndWorld n) of (r, c, w) \<Rightarrow> (r, n\<lparr>ndClient := c, ndWorld := w\<rparr>))"

definition node_GetUserAlive ::
  "('b, 'w, 'r, 'o) platform \<Rightarrow> ('b, 'w) node \<Rightarrow> (panel_error + alive_list) \<times> ('b, 'w) node" where
  "node_GetUserAlive p n =
     (case GetUserAlive (plNet p) (ndClient n) (ndWorld n) of (r, w) \<Rightarrow> (r, n\<lparr>ndWorld := w\<rparr>))"

definition node_SendAlive ::
  "('b, 'w, 'r, 'o) platform \<Rightarrow> alive_list \<Rightarrow> ('b, 'w) node \<Rightarrow> panel_error option \<times> ('b, 'w) node" where
  "node_SendAlive p alive n =
     (case SendAlive (plNet p) (ndClient n) alive (ndWorld n) of (r, w) \<Rightarrow> (r, n\<lparr>ndWorld := w\<rparr>))"

definition node_UpdateUsers ::
  "('b, 'w, 'r, 'o) platform \<Rightarrow> panel_user list \<Rightarrow> ('b, 'w) node \<Rightarrow> ('b, 'w) node" where
  "node_UpdateUsers p users n =
     (case node_now p n of (now, n) \<Rightarrow> n\<lparr>ndLimiter := UpdateUsers now users (ndLimiter n)\<rparr>)"

definition node_ReloadUsers ::
  "('b, 'w, 'r, 'o) platform \<Rightarrow> node_config option \<Rightarrow> panel_user list \<Rightarrow> string \<Rightarrow> ('b, 'w) node
     \<Rightarrow> engine_error option \<times> ('b, 'w) node" where
  "node_ReloadUsers p cfg users level n =
     (case ReloadUsers (plBox p) cfg users level (ndEngine n, ndWorld n) of
        (r, e, w) \<Rightarrow> (r, n\<lparr>ndEngine := e, ndWorld := w\<rparr>))"

text \<open>
  A report. What is pushed is known before \<open>Report\<close> asks for it, so the push, which changes
  the environment, is made here. The result beside the node is what the panel acknowledged.
\<close>

definition node_Report ::
  "('b, 'w, 'r, 'o) platform \<Rightarrow> ('b, 'w) node \<Rightarrow> traffic_data list \<times> ('b, 'w) node" where
  "node_Report p n =
     (case ndReporter n of
        None \<Rightarrow> ([], n)
      | Some t \<Rightarrow>
          let data = fst (buildPushPayload (fst (fst (engine_CollectTraffic (ndEngine n)))) t)
          in case (if data = [] then (None, ndWorld n) else PushTraffic (plNet p) (ndClient n) data (ndWorld n)) of
               (err, w) \<Rightarrow>
             case plIO p w of (io, w) \<Rightarrow>
             case plNow p w of (now, w) \<Rightarrow>
             case Report engine_CollectTraffic (\<lambda>_. map_option (panel_error_text (plDecodeText p)) err) io now
                    (t, ndFiles n, ndEngine n) of
               (acked, t, f, e) \<Rightarrow>
                 (acked, n\<lparr>ndReporter := Some t, ndFiles := f, ndEngine := e, ndWorld := w\<rparr>))"

definition node_env :: "('b, 'w, 'r, 'o) platform \<Rightarrow> ('b, 'w) node sync_env" where
  "node_env p = \<lparr>
     envNow = node_now p,
     envGetUsers = (\<lambda>n. map_prod (map_sum (panel_error_text (plDecodeText p)) id) id (node_GetUsers p n)),
     envGetNodeConfig = (\<lambda>n. map_prod (map_sum (panel_error_text (plDecodeText p)) id) id (node_GetNodeConfig p n)),
     envGetUserAlive = (\<lambda>n. map_prod (map_sum (panel_error_text (plDecodeText p)) id) id (node_GetUserAlive p n)),
     envUpdateUsers = node_UpdateUsers p,
     envUpdateAliveList = (\<lambda>alive n. n\<lparr>ndLimiter := UpdateAliveList alive (ndLimiter n)\<rparr>),
     envReport = (\<lambda>n. snd (node_Report p n)),
     envReloadUsers = (\<lambda>cfg users level n.
       map_prod (map_option (engine_error_text (plConfigText p))) id (node_ReloadUsers p cfg users level n))\<rparr>"

section \<open>Starting\<close>

datatype node_error = PanelFailed panel_error | EngineFailed engine_error

definition choose_intervals :: "node_config \<Rightarrow> config \<Rightarrow> config" where
  "choose_intervals nc cfg =
     (let cfg = (if PullInterval (BaseConfig nc) > 0 \<and> \<not> SyncIntervalExplicit cfg
                 then cfg\<lparr>SyncInterval := PullInterval (BaseConfig nc)\<rparr> else cfg)
      in if PushInterval (BaseConfig nc) > 0 \<and> \<not> ReportIntervalExplicit cfg
         then cfg\<lparr>ReportInterval := PushInterval (BaseConfig nc)\<rparr> else cfg)"

definition build_alive :: "('b, 'w) node \<Rightarrow> alive_list \<times> ('b, 'w) node" where
  "build_alive n = (case BuildAlivePayload (ndLimiter n) of (payload, l) \<Rightarrow> (payload, n\<lparr>ndLimiter := l\<rparr>))"

text \<open>What \<open>Start\<close> does once sing-box runs.\<close>

definition node_attach ::
  "('b, 'w, 'r, 'o) platform \<Rightarrow> node_config \<Rightarrow> panel_user list \<Rightarrow> ('b, 'w) node \<Rightarrow> ('b, 'w) node" where
  "node_attach p nc users n =
     (case build_alive n of (payload, n) \<Rightarrow>
      case node_SendAlive p payload n of (_, n) \<Rightarrow>
      case plIO p (ndWorld n) of (io, w) \<Rightarrow>
      case NewTrafficReporterWithLimit io (TrafficStateFile (ndCfg n)) (TrafficPendingMaxUsers (ndCfg n)) (ndFiles n) of
        (t, f) \<Rightarrow>
          n\<lparr>ndReporter := Some t, ndFiles := f, ndWorld := w,
            ndSyncer := Some (SetLimiter True (SetInitialHash users
              (NewUserSyncer (Some nc) (LogLevel (ndCfg n)) True)))\<rparr>)"

text \<open>A configuration that is nil, which a 304 to the first request gives, is dereferenced.\<close>

definition node_Start ::
  "('b, 'w, 'r, 'o) platform \<Rightarrow> ('b, 'w) node \<Rightarrow> (node_error option \<times> ('b, 'w) node) outcome" where
  "node_Start p n =
     (case node_GetNodeConfig p n of
        (Inl err, n) \<Rightarrow> Returns (Some (PanelFailed err), n)
      | (Inr None, n) \<Rightarrow> Panics (None, n)
      | (Inr (Some nc), n) \<Rightarrow>
          let n = n\<lparr>ndCfg := choose_intervals nc (ndCfg n)\<rparr>
          in case node_GetUsers p n of
               (Inl err, n) \<Rightarrow> Returns (Some (PanelFailed err), n)
             | (Inr users, n) \<Rightarrow>
                 (case refreshAliveCounts (node_env p) LimiterPointer (node_UpdateUsers p users n) of
                    Panics n \<Rightarrow> Panics (None, n)
                  | Returns n \<Rightarrow>
                      (case engine_Start (plBox p) (Some nc) users (LogLevel (ndCfg n)) (ndEngine n, ndWorld n) of
                         (Some err, e, w) \<Rightarrow>
                           Returns (Some (EngineFailed err), n\<lparr>ndEngine := e, ndWorld := w\<rparr>)
                       | (None, e, w) \<Rightarrow>
                           Returns (None, node_attach p nc users (n\<lparr>ndEngine := e, ndWorld := w\<rparr>)))))"

section \<open>Running\<close>

datatype tick = SyncTick | ReportTick | AliveTick

definition node_sync :: "('b, 'w, 'r, 'o) platform \<Rightarrow> ('b, 'w) node \<Rightarrow> ('b, 'w) node outcome" where
  "node_sync p n =
     (case ndSyncer n of
        None \<Rightarrow> Returns n
      | Some s \<Rightarrow>
          (case Sync (node_env p) (s, n) of
             Returns (s, n) \<Rightarrow> Returns (n\<lparr>ndSyncer := Some s\<rparr>)
           | Panics (s, n) \<Rightarrow> Panics (n\<lparr>ndSyncer := Some s\<rparr>)))"

definition node_alive :: "('b, 'w, 'r, 'o) platform \<Rightarrow> ('b, 'w) node \<Rightarrow> ('b, 'w) node" where
  "node_alive p n = (case build_alive n of (payload, n) \<Rightarrow> snd (node_SendAlive p payload n))"

primrec node_tick :: "('b, 'w, 'r, 'o) platform \<Rightarrow> tick \<Rightarrow> ('b, 'w) node \<Rightarrow> ('b, 'w) node outcome" where
  "node_tick p SyncTick n = node_sync p n"
| "node_tick p ReportTick n = Returns (snd (node_Report p n))"
| "node_tick p AliveTick n = Returns (node_alive p n)"

definition node_Shutdown :: "('b, 'w, 'r, 'o) platform \<Rightarrow> ('b, 'w) node \<Rightarrow> traffic_data list \<times> ('b, 'w) node" where
  "node_Shutdown p n =
     (case node_Report p n of (acked, n) \<Rightarrow>
      case engine_Close (plBox p) (ndEngine n, ndWorld n) of
        (_, e, w) \<Rightarrow> (acked, n\<lparr>ndEngine := e, ndWorld := w\<rparr>))"

section \<open>Several nodes\<close>

text \<open>\<open>filepath.Ext\<close>, with the separator of Unix.\<close>

definition path_Ext :: "path \<Rightarrow> string" where
  "path_Ext p =
     (let tail = takeWhile (\<lambda>c. c \<noteq> CHR ''.'' \<and> c \<noteq> CHR ''/'') (rev p);
          rest = drop (length tail) (rev p)
      in if rest \<noteq> [] \<and> hd rest = CHR ''.'' then CHR ''.'' # rev tail else [])"

definition specializeTrafficStateFile :: "path \<Rightarrow> int \<Rightarrow> path" where
  "specializeTrafficStateFile p nid =
     (if p = [] then []
      else let ext = path_Ext p; base = take (length p - length ext) p
           in base @ ''-node'' @ Itoa nid @ ext)"

definition node_config_for :: "config \<Rightarrow> int \<Rightarrow> config" where
  "node_config_for cfg i =
     cfg\<lparr>NodeID := i, TrafficStateFile := specializeTrafficStateFile (TrafficStateFile cfg) i\<rparr>"

text \<open>
  The start loop of \<open>main\<close>. Nodes that run share the files and the environment, which are
  handed from one to the next. The result is the running nodes, or the nodes that were shut
  down because one did not start.
\<close>

definition enter :: "fs \<times> 'w \<Rightarrow> ('b, 'w) node \<Rightarrow> ('b, 'w) node" where
  "enter fw n = n\<lparr>ndFiles := fst fw, ndWorld := snd fw\<rparr>"

definition leave :: "('b, 'w) node \<Rightarrow> fs \<times> 'w" where
  "leave n = (ndFiles n, ndWorld n)"

fun shutdown_nodes ::
  "('b, 'w, 'r, 'o) platform \<Rightarrow> ('b, 'w) node list \<Rightarrow> fs \<times> 'w \<Rightarrow> ('b, 'w) node list \<times> fs \<times> 'w" where
  "shutdown_nodes p [] fw = ([], fw)"
| "shutdown_nodes p (n # ns) fw =
     (case node_Shutdown p (enter fw n) of (_, n) \<Rightarrow>
      case shutdown_nodes p ns (leave n) of (ns, fw) \<Rightarrow> (n # ns, fw))"

datatype ('b, 'w) started =
    Running "('b, 'w) node list"
  | StartFailedAt int node_error "('b, 'w) node list"
  | DiedAt int

fun start_nodes ::
  "('b, 'w, 'r, 'o) platform \<Rightarrow> config \<Rightarrow> int list \<Rightarrow> ('b, 'w) node list \<Rightarrow> fs \<times> 'w
     \<Rightarrow> ('b, 'w) started \<times> fs \<times> 'w" where
  "start_nodes p cfg [] nodes fw = (Running nodes, fw)"
| "start_nodes p cfg (i # is) nodes fw =
     (case node_Start p (NewNode (node_config_for cfg i) (fst fw) (snd fw)) of
        Panics (_, n) \<Rightarrow> (DiedAt i, leave n)
      | Returns (Some err, n) \<Rightarrow>
          (case shutdown_nodes p nodes (leave n) of (ns, fw) \<Rightarrow> (StartFailedAt i err ns, fw))
      | Returns (None, n) \<Rightarrow> start_nodes p cfg is (nodes @ [n]) (leave n))"

section \<open>The doctor\<close>

record doctor_check =
  chName :: string
  chOK :: bool
  chMessage :: string

record doctor_result =
  drOK :: bool
  drChecks :: "doctor_check list"

definition add_check :: "string \<Rightarrow> bool \<Rightarrow> string \<Rightarrow> doctor_result \<Rightarrow> doctor_result" where
  "add_check name ok message r =
     \<lparr>drOK = drOK r \<and> ok, drChecks = drChecks r @ [\<lparr>chName = name, chOK = ok, chMessage = message\<rparr>]\<rparr>"

fun validateUsers :: "panel_user list \<Rightarrow> string option" where
  "validateUsers [] = None"
| "validateUsers (u # us) =
     (if uID u \<le> 0 then Some (''user has invalid id: '' @ Itoa (uID u))
      else if TrimSpace (uUUID u) = [] then Some (''user '' @ Itoa (uID u) @ '' has empty uuid'')
      else validateUsers us)"

text \<open>
  \<open>listen\<close> tries to listen on an address and says why it fails; \<open>late\<close> says that the
  deadline of the context has passed.
\<close>

definition checkListenPort ::
  "(string \<Rightarrow> 'w \<Rightarrow> string option \<times> 'w) \<Rightarrow> ('w \<Rightarrow> bool) \<Rightarrow> int \<Rightarrow> 'w \<Rightarrow> string option \<times> 'w" where
  "checkListenPort listen late port w =
     (case listen ('':'' @ Itoa port) w of
        (Some err, w) \<Rightarrow> (Some (''listen port '' @ Itoa port @ '' is not available: '' @ err), w)
      | (None, w) \<Rightarrow> (if late w then Some ''context deadline exceeded'' else None, w))"

definition checked :: "string \<Rightarrow> string \<Rightarrow> string option \<Rightarrow> doctor_result \<Rightarrow> doctor_result" where
  "checked name good err r = (case err of None \<Rightarrow> add_check name True good r | Some e \<Rightarrow> add_check name False e r)"

definition RunDoctor ::
  "('b, 'w, 'r, 'o) platform \<Rightarrow> (string \<Rightarrow> 'w \<Rightarrow> string option \<times> 'w) \<Rightarrow> ('w \<Rightarrow> bool) \<Rightarrow> config \<Rightarrow> 'w \<Rightarrow> (doctor_result \<times> 'w) outcome" where
  "RunDoctor p listen late cfg w =
     (let msg = panel_error_text (plDecodeText p);
          r = \<lparr>drOK = True, drChecks = []\<rparr>
      in case GetNodeConfig (plNet p) (NewClient (PanelHost cfg) (PanelToken cfg) (NodeID cfg)) w of
           (Inl err, c, w) \<Rightarrow> Returns (add_check ''panel_config'' False (msg err) r, w)
         | (Inr None, c, w) \<Rightarrow> Panics (r, w)
         | (Inr (Some nc), c, w) \<Rightarrow>
             let r = add_check ''panel_config'' True (''protocol='' @ Protocol nc @ '' network='' @ Network nc
                       @ '' server_name='' @ tlsServerName (TLSSettings nc)) r
             in case GetUsers (plNet p) c w of
                  (Inl err, c, w) \<Rightarrow> Returns (add_check ''panel_users'' False (msg err) r, w)
                | (Inr users, c, w) \<Rightarrow>
                    let r = add_check ''panel_users'' True (''users='' @ Itoa (int (length users))) r;
                        r = checked ''users_valid'' ''all users have ids and uuids'' (validateUsers users) r;
                        r = checked ''singbox_config'' ''config can be translated''
                              (case BuildConfig (boxDecoders (plBox p)) (Some nc) users (LogLevel cfg)
                                      (ClashAPIListenAddr cfg) (GoogleIPv6 cfg) of
                                 Inl err \<Rightarrow> Some (plConfigText p err) | Inr _ \<Rightarrow> None) r
                    in case checkListenPort listen late (ServerPort nc) w of (le, w) \<Rightarrow>
                       let r = checked ''listen_port'' ('':'' @ Itoa (ServerPort nc) @ '' is available'') le r
                       in case GetUserAlive (plNet p) c w of (ae, w) \<Rightarrow>
                          Returns (checked ''alive_list'' ''alive list endpoint is reachable''
                            (case ae of Inl err \<Rightarrow> Some (msg err) | Inr _ \<Rightarrow> None) r, w))"

end
