(* ===== verification/Sync_Text.thy ===== *)
theory Sync_Text
  imports Sync "HOL-Library.Sublist"
begin

text \<open>
  What the digests of \<open>core/sync.go\<close> distinguish. The bytes written to the hash are built
  from prefix-free codes: eight-byte integers, strings ended by a byte that they do not
  contain. So the bytes determine the fields, with one exception, the list of short ids.
\<close>

section \<open>Prefix-free codes\<close>

locale prefix_code =
  fixes enc :: "'a \<Rightarrow> string" and dom :: "'a \<Rightarrow> bool"
  assumes prefix_free: "dom x \<Longrightarrow> dom y \<Longrightarrow> enc x @ r = enc y @ s \<Longrightarrow> x = y \<and> r = s"
    and nonempty: "enc x \<noteq> []"
begin

lemma concat_inject:
  "list_all dom xs \<Longrightarrow> list_all dom ys \<Longrightarrow> concat (map enc xs) = concat (map enc ys) \<Longrightarrow> xs = ys"
proof (induction xs arbitrary: ys)
  case Nil
  then show ?case using nonempty by (cases ys) simp_all
next
  case (Cons x xs)
  obtain y ys' where ys: "ys = y # ys'"
    using Cons.prems(3) nonempty [of x] by (cases ys) simp_all
  have "dom x" "dom y" using Cons.prems(1,2) ys by simp_all
  moreover have "enc x @ concat (map enc xs) = enc y @ concat (map enc ys')" using Cons.prems(3) ys by simp
  ultimately have "x = y \<and> concat (map enc xs) = concat (map enc ys')" by (rule prefix_free)
  then show ?case using Cons.IH [of ys'] Cons.prems(1,2) ys by simp
qed

end

section \<open>Integers\<close>

lemma length_be64 [simp]: "length (be64 w) = 8"
  by (simp add: be64_def)

lemma be64_inject:
  assumes "be64 v = be64 w"
  shows "v = w"
proof (rule bit_word_eqI)
  fix n :: nat
  assume "n < LENGTH(64)"
  then have n: "n < 64" by simp
  let ?b = "\<lambda>(w :: uint64) i. take_bit 8 (drop_bit (56 - 8 * i) w)"
  have bound: "unat (?b w i) < 256" for w i
    using take_bit_nat_less_exp [of 8 "unat (drop_bit (56 - 8 * i) w)"] by (simp add: unsigned_take_bit_eq)
  have bytes: "?b v i = ?b w i" if "i < 8" for i
  proof -
    have "be64 v ! i = be64 w ! i" using assms by simp
    then have "(char_of (unat (?b v i)) :: char) = char_of (unat (?b w i))"
      using that by (simp only: be64_def nth_map length_upt nth_upt add_0_left diff_zero)
    then have "unat (?b v i) = unat (?b w i)"
      using of_char_char_of_nat [OF bound [of i v]] of_char_char_of_nat [OF bound [of i w]] by metis
    then show ?thesis by (simp add: word_unat_eq_iff)
  qed
  let ?i = "7 - n div 8"
  have shift: "56 - 8 * ?i = 8 * (n div 8)" using n by auto
  have pos: "n mod 8 < 8" "8 * (n div 8) + n mod 8 = n" by simp_all
  have at: "bit (?b u ?i) (n mod 8) = bit u n" for u :: uint64
    unfolding shift using pos by (simp add: bit_take_bit_iff bit_drop_bit_eq)
  then show "bit v n = bit w n" using bytes [of ?i] at [of v] at [of w] by simp
qed

lemma append_same_length: "xs @ r = ys @ s \<Longrightarrow> length xs = length ys \<Longrightarrow> xs = ys \<and> r = s"
  by simp

interpretation int_code: prefix_code be64 "\<lambda>_. True"
proof
  show "v = w \<and> r = s" if "be64 v @ r = be64 w @ s" for v w r s
    using append_same_length [OF that] be64_inject by simp
  show "be64 w \<noteq> []" for w
    using length_be64 [of w] by (metis length_0_conv zero_neq_numeral)
qed

section \<open>Terminated strings\<close>

lemma terminated_prefix:
  "t \<notin> set x \<Longrightarrow> t \<notin> set y \<Longrightarrow> x @ t # r = y @ t # s \<Longrightarrow> x = y \<and> r = s"
proof (induction x arbitrary: y)
  case Nil
  then show ?case by (cases y) auto
next
  case (Cons a x)
  then show ?case by (cases y) auto
qed

definition nul_free :: "string \<Rightarrow> bool" where
  "nul_free s \<longleftrightarrow> CHR 0x00 \<notin> set s"

interpretation nul_code: prefix_code "\<lambda>s. s @ NUL" nul_free
  by unfold_locales (auto simp: NUL_def nul_free_def dest: terminated_prefix)

section \<open>Users\<close>

definition user_fields :: "panel_user \<Rightarrow> int \<times> int \<times> string" where
  "user_fields u = (uID u, uSpeedLimit u, uUUID u)"

definition fields_text :: "int \<times> int \<times> string \<Rightarrow> string" where
  "fields_text f = (case f of (i, n, s) \<Rightarrow> be64 (word_of_int i) @ be64 (word_of_int n) @ s @ ''|'')"

definition fields_ok :: "int \<times> int \<times> string \<Rightarrow> bool" where
  "fields_ok f = (case f of (i, n, s) \<Rightarrow> fits_int i \<and> fits_int n \<and> CHR ''|'' \<notin> set s)"

lemma word_of_int_fits: "fits_int i \<Longrightarrow> fits_int j \<Longrightarrow> (word_of_int i :: uint64) = word_of_int j \<Longrightarrow> i = j"
proof -
  assume f: "fits_int i" "fits_int j" and eq: "(word_of_int i :: uint64) = word_of_int j"
  have "sint (word_of_int k :: uint64) = k" if "fits_int k" for k
    using that by (simp add: sint_sbintrunc' fits_int_def minInt64_def maxInt64_def signed_take_bit_int_eq_self)
  then show "i = j" using f eq by metis
qed

interpretation user_code: prefix_code fields_text fields_ok
proof
  fix x y r s
  assume ok: "fields_ok x" "fields_ok y" and eq: "fields_text x @ r = fields_text y @ s"
  obtain i n u where x: "x = (i, n, u)" by (cases x)
  obtain j m v where y: "y = (j, m, v)" by (cases y)
  have "be64 (word_of_int i) @ (be64 (word_of_int n) @ u @ CHR ''|'' # r)
      = be64 (word_of_int j) @ (be64 (word_of_int m) @ v @ CHR ''|'' # s)"
    using eq by (simp add: fields_text_def x y)
  then have i: "(word_of_int i :: uint64) = word_of_int j"
    and "be64 (word_of_int n) @ (u @ CHR ''|'' # r) = be64 (word_of_int m) @ (v @ CHR ''|'' # s)"
    using int_code.prefix_free by blast+
  then have n: "(word_of_int n :: uint64) = word_of_int m" and uv: "u @ CHR ''|'' # r = v @ CHR ''|'' # s"
    using int_code.prefix_free by blast+
  have "u = v \<and> r = s" using uv ok by (intro terminated_prefix) (auto simp: fields_ok_def x y)
  then show "x = y \<and> r = s"
    using word_of_int_fits [OF _ _ i] word_of_int_fits [OF _ _ n] ok by (auto simp: fields_ok_def x y)
qed (auto simp: fields_text_def split: prod.split)

lemma users_text_fields: "users_text us = concat (map fields_text (map user_fields (sort_key uID us)))"
proof -
  have "user_text = fields_text \<circ> user_fields"
    by (simp add: fun_eq_iff user_text_def fields_text_def user_fields_def)
  then show ?thesis by (simp add: users_text_def)
qed

lemma sorted_users_eq:
  assumes "distinct (map uID us)" "distinct (map uID vs)" and "user_fields ` set us = user_fields ` set vs"
  shows "map user_fields (sort_key uID us) = map user_fields (sort_key uID vs)"
proof -
  have sorted: "sorted_wrt (<) (map fst (map user_fields (sort_key uID xs)))" if "distinct (map uID xs)" for xs
  proof -
    have "fst \<circ> user_fields = uID" by (simp add: fun_eq_iff user_fields_def)
    then have "map fst (map user_fields (sort_key uID xs)) = map uID (sort_key uID xs)" by simp
    moreover have "mset (map uID (sort_key uID xs)) = mset (map uID xs)" by simp
    then have "distinct (map uID (sort_key uID xs))" using that mset_eq_imp_distinct_iff by blast
    ultimately have "sorted (map fst (map user_fields (sort_key uID xs)))"
      "distinct (map fst (map user_fields (sort_key uID xs)))"
      using sorted_sort_key [of uID xs] by (simp_all only:)
    then show ?thesis unfolding strict_sorted_iff by (rule conjI)
  qed
  let ?xs = "map user_fields (sort_key uID us)" and ?ys = "map user_fields (sort_key uID vs)"
  have same: "set ?xs = set ?ys" using assms(3) by simp
  have inj: "inj_on fst (set ?xs)"
    using sorted [OF assms(1)] unfolding strict_sorted_iff distinct_map [of fst] by blast
  show ?thesis
  proof (rule map_sorted_distinct_set_unique)
    show "inj_on fst (set ?xs \<union> set ?ys)" using inj by (simp only: same Un_absorb)
  qed (use sorted [OF assms(1)] sorted [OF assms(2)] same in \<open>simp_all only: strict_sorted_iff\<close>)
qed


definition sample_users :: "panel_user list" where
  "sample_users = [\<lparr>uID = 2, uUUID = ''b'', uSpeedLimit = 0, uDeviceLimit = 1\<rparr>,
     \<lparr>uID = 1, uUUID = ''a'', uSpeedLimit = 10, uDeviceLimit = 0\<rparr>]"

definition sample_users' :: "panel_user list" where
  "sample_users' = [\<lparr>uID = 1, uUUID = ''a'', uSpeedLimit = 10, uDeviceLimit = 5\<rparr>,
     \<lparr>uID = 2, uUUID = ''b'', uSpeedLimit = 0, uDeviceLimit = 1\<rparr>]"

lemma sample_users_ok:
  "distinct (map uID sample_users)" "distinct (map uID sample_users')"
  "list_all (fields_ok \<circ> user_fields) sample_users" "list_all (fields_ok \<circ> user_fields) sample_users'"
  by (simp_all add: sample_users_def sample_users'_def fields_ok_def user_fields_def fits_int_def
      minInt64_def maxInt64_def)


section \<open>Configurations\<close>

named_theorems code_prefix \<open>the fields that two equal texts begin with\<close>

lemma nul_prefix [code_prefix]:
  "nul_free x \<Longrightarrow> nul_free y \<Longrightarrow> (x @ NUL @ r = y @ NUL @ s) \<longleftrightarrow> x = y \<and> r = s"
  using nul_code.prefix_free [of x y r s] by auto

lemma int_prefix [code_prefix]:
  "fits_int i \<Longrightarrow> fits_int j \<Longrightarrow>
     (be64 (word_of_int i) @ r = be64 (word_of_int j) @ s) \<longleftrightarrow> i = j \<and> r = s"
  using int_code.prefix_free [of "word_of_int i" r "word_of_int j" s] word_of_int_fits [of i j] by auto

lemma flag_prefix [code_prefix]:
  "(be64 (if p then 1 else 0) @ r = be64 (if q then 1 else 0) @ s) \<longleftrightarrow> p = q \<and> r = s"
proof
  assume "be64 (if p then 1 else 0) @ r = be64 (if q then 1 else 0) @ s"
  from int_code.prefix_free [OF TrueI TrueI this] show "p = q \<and> r = s"
    by (simp split: if_split_asm)
qed simp

text \<open>What a configuration needs for the separators to work: it is what JSON texts without escaped zeros give.\<close>

definition hashable_config :: "node_config \<Rightarrow> bool" where
  "hashable_config c \<longleftrightarrow>
     list_all nul_free [Protocol c, ListenIP c, Network c, Flow c,
       tlsServerPort (TLSSettings c), tlsServerName (TLSSettings c),
       tlsPublicKey (TLSSettings c), tlsPrivateKey (TLSSettings c)] \<and>
     fits_int (ServerPort c) \<and> fits_int (TLS c)"

text \<open>
  The separators of \<open>hashConfig\<close> do their work up to the private key. Two configurations
  that are hashed from the same bytes agree in protocol, listen address, ports, network, TLS
  mode, flow, certificate check, server name and both keys, and what remains, the short ids
  with all that follows, is the same text.
\<close>

theorem config_digest_fields:
  assumes "hashable_config c" and "hashable_config d" and "config_text c = config_text d"
  shows "Protocol c = Protocol d \<and> ListenIP c = ListenIP d \<and> ServerPort c = ServerPort d
    \<and> Network c = Network d \<and> TLS c = TLS d \<and> Flow c = Flow d
    \<and> tlsAllowInsecure (TLSSettings c) = tlsAllowInsecure (TLSSettings d)
    \<and> tlsServerPort (TLSSettings c) = tlsServerPort (TLSSettings d)
    \<and> tlsServerName (TLSSettings c) = tlsServerName (TLSSettings d)
    \<and> tlsPublicKey (TLSSettings c) = tlsPublicKey (TLSSettings d)
    \<and> tlsPrivateKey (TLSSettings c) = tlsPrivateKey (TLSSettings d)
    \<and> (length (short_ids_text (TLSSettings c)) = length (short_ids_text (TLSSettings d)) \<longrightarrow>
         short_ids_text (TLSSettings c) = short_ids_text (TLSSettings d)
         \<and> routes_text (Routes c) = routes_text (Routes d))"
proof -
  have "length (short_ids_text (TLSSettings c)) = length (short_ids_text (TLSSettings d)) \<Longrightarrow>
      short_ids_text (TLSSettings c) @ be64 i @ be64 j @ r = short_ids_text (TLSSettings d) @ be64 k @ be64 l @ s \<Longrightarrow>
      short_ids_text (TLSSettings c) = short_ids_text (TLSSettings d) \<and> r = s" for i j k l r s
    by simp
  then show ?thesis
    using assms(3) assms(1,2) [unfolded hashable_config_def] unfolding config_text_def
    by (simp only: code_prefix list.pred_inject simp_thms) blast
qed

definition two_ids :: node_config where
  "two_ids = zero_config\<lparr>TLSSettings := zero_tls\<lparr>shortIDs := [''aa'', ''bb'']\<rparr>\<rparr>"

definition one_id :: node_config where
  "one_id = zero_config\<lparr>TLSSettings := zero_tls\<lparr>shortIDs := [''aabb'']\<rparr>\<rparr>"

lemma regrouped_text: "config_text one_id = config_text two_ids"
proof -
  have "short_ids_text (TLSSettings one_id) = short_ids_text (TLSSettings two_ids)" by code_simp
  then show ?thesis by (simp add: config_text_def one_id_def two_ids_def zero_config_def zero_tls_def)
qed

theorem config_digest_fields_witness:
  "routes_text (Routes one_id) = routes_text (Routes two_ids)
   \<and> tlsPrivateKey (TLSSettings one_id) = tlsPrivateKey (TLSSettings two_ids)"
proof -
  have "hashable_config one_id" "hashable_config two_ids"
    by (simp_all add: hashable_config_def one_id_def two_ids_def zero_config_def zero_tls_def nul_free_def fits_int_def
        minInt64_def maxInt64_def)
  moreover have "length (short_ids_text (TLSSettings one_id)) = length (short_ids_text (TLSSettings two_ids))" by code_simp
  ultimately show ?thesis using config_digest_fields [OF _ _ regrouped_text] by blast
qed

end
