(* ===== verification/Sync_Spec.thy ===== *)
theory Sync_Spec
  imports Sync_Text
begin

text \<open>
  \<open>Sync\<close> over an engine that records the configuration it was last given. The six ways in
  which a call ends, then, in the locale \<open>recording_engine\<close>, the invariant that ties the
  syncer's digests to that record. \<open>Node_Spec\<close> interprets the locale on the real engine.
\<close>

section \<open>The phases of a call\<close>

definition sync_config :: "'w sync_env \<Rightarrow> syncer \<Rightarrow> panel_user list \<Rightarrow> 'w \<Rightarrow> node_config option \<times> 'w" where
  "sync_config env s us w =
     (case envGetNodeConfig env (if hasLimiter s then envUpdateUsers env us w else w) of
        (Inl _, w) \<Rightarrow> (nodeConfig s, w)
      | (Inr cfg, w) \<Rightarrow> (cfg, w))"

definition sync_prepare :: "'w sync_env \<Rightarrow> syncer \<Rightarrow> 'w \<Rightarrow> 'w outcome" where
  "sync_prepare env s w =
     refreshAliveCounts env (if hasLimiter s then LimiterPointer else NilLimiter)
       (if hasReporter s then envReport env w else w)"

definition applied :: "syncer \<Rightarrow> panel_user list \<Rightarrow> node_config \<Rightarrow> syncer" where
  "applied s us cfg = s\<lparr>currentUserHash := hashUsers us, currentConfigHash := hashConfig (Some cfg),
     nodeConfig := Some cfg\<rparr>"

definition sync_due :: "syncer \<Rightarrow> panel_user list \<Rightarrow> node_config \<Rightarrow> bool" where
  "sync_due s us cfg \<longleftrightarrow> hashUsers us \<noteq> currentUserHash s \<or> hashConfig (Some cfg) \<noteq> currentConfigHash s"

lemma Sync_phases:
  "Sync env (s, w) =
     (case envGetUsers env w of
        (Inl err, w) \<Rightarrow> Returns (markSync env False err (- 1) [] (s, w))
      | (Inr us, w) \<Rightarrow>
          (case sync_config env s us w of
             (None, w) \<Rightarrow> Returns (markSync env False ''node config is nil'' (int (length us)) [] (s, w))
           | (Some cfg, w) \<Rightarrow>
               if \<not> sync_due s us cfg
               then Returns (markSync env True [] (int (length us)) (hashConfig (Some cfg)) (s, w))
               else (case sync_prepare env s w of
                       Panics w \<Rightarrow> Panics (s, w)
                     | Returns w \<Rightarrow>
                         (case envReloadUsers env (Some cfg) us (syLogLevel s) w of
                            (Some err, w) \<Rightarrow>
                              Returns (markReload env False err
                                (markSync env False err (int (length us)) (hashConfig (Some cfg)) (s, w)))
                          | (None, w) \<Rightarrow>
                              Returns (markReload env True []
                                (markSync env True [] (int (length us)) (hashConfig (Some cfg))
                                  (applied s us cfg, w)))))))"
proof (cases "envGetUsers env w")
  case (Pair r w1)
  show ?thesis
  proof (cases r)
    case (Inr us)
    obtain f w2 where F: "envGetNodeConfig env (if hasLimiter s then envUpdateUsers env us w1 else w1) = (f, w2)"
      by (rule prod.exhaust)
    show ?thesis
      unfolding Sync_def Let_def sync_due_def sync_prepare_def applied_def sync_config_def
      by (cases f; cases "nodeConfig s") (simp_all add: Pair Inr F split: option.split outcome.split prod.split)
  qed (simp add: Sync_def Pair)
qed


text \<open>The ways in which a call ends.\<close>

lemma Sync_cases:
  assumes "Sync env (s, w) = out"
  obtains
    (no_users) err w1 where "envGetUsers env w = (Inl err, w1)"
      "out = Returns (markSync env False err (- 1) [] (s, w1))"
  | (no_config) us w1 w2 where "envGetUsers env w = (Inr us, w1)" "sync_config env s us w1 = (None, w2)"
      "out = Returns (markSync env False ''node config is nil'' (int (length us)) [] (s, w2))"
  | (unchanged) us w1 cfg w2 where "envGetUsers env w = (Inr us, w1)" "sync_config env s us w1 = (Some cfg, w2)"
      "\<not> sync_due s us cfg"
      "out = Returns (markSync env True [] (int (length us)) (hashConfig (Some cfg)) (s, w2))"
  | (dies) us w1 cfg w2 w3 where "envGetUsers env w = (Inr us, w1)" "sync_config env s us w1 = (Some cfg, w2)"
      "sync_due s us cfg" "sync_prepare env s w2 = Panics w3" "out = Panics (s, w3)"
  | (refused) us w1 cfg w2 w3 err w4 where "envGetUsers env w = (Inr us, w1)"
      "sync_config env s us w1 = (Some cfg, w2)" "sync_due s us cfg" "sync_prepare env s w2 = Returns w3"
      "envReloadUsers env (Some cfg) us (syLogLevel s) w3 = (Some err, w4)"
      "out = Returns (markReload env False err
         (markSync env False err (int (length us)) (hashConfig (Some cfg)) (s, w4)))"
  | (reloaded) us w1 cfg w2 w3 w4 where "envGetUsers env w = (Inr us, w1)"
      "sync_config env s us w1 = (Some cfg, w2)" "sync_due s us cfg" "sync_prepare env s w2 = Returns w3"
      "envReloadUsers env (Some cfg) us (syLogLevel s) w3 = (None, w4)"
      "out = Returns (markReload env True []
         (markSync env True [] (int (length us)) (hashConfig (Some cfg)) (applied s us cfg, w4)))"
proof (cases "envGetUsers env w")
  case users: (Pair r w1)
  show ?thesis
  proof (cases r)
    case (Inl err)
    then show ?thesis using no_users users assms by (simp add: Sync_phases)
  next
    case us: (Inr us)
    obtain c w2 where config: "sync_config env s us w1 = (c, w2)" by (rule prod.exhaust)
    show ?thesis
    proof (cases c)
      case None
      then show ?thesis using no_config users us config assms by (simp add: Sync_phases)
    next
      case c: (Some cfg)
      show ?thesis
      proof (cases "sync_due s us cfg")
        case False
        then show ?thesis using unchanged users us config c assms by (simp add: Sync_phases)
      next
        case due: True
        show ?thesis
        proof (cases "sync_prepare env s w2")
          case (Panics w3)
          then show ?thesis using dies users us config c due assms by (simp add: Sync_phases)
        next
          case ready: (Returns w3)
          obtain e w4 where reload: "envReloadUsers env (Some cfg) us (syLogLevel s) w3 = (e, w4)" by (rule prod.exhaust)
          show ?thesis
          proof (cases e)
            case None
            show ?thesis
              by (rule reloaded) (use None users us config c due ready reload assms in \<open>simp_all add: Sync_phases eq_commute [of out]\<close>)
          next
            case (Some err)
            show ?thesis
              by (rule refused) (use Some users us config c due ready reload assms in \<open>simp_all add: Sync_phases eq_commute [of out]\<close>)
          qed
        qed
      qed
    qed
  qed
qed

lemma sync_prepare_panics: "sync_prepare env s w = Panics w' \<Longrightarrow> \<not> hasLimiter s"
  by (auto simp: sync_prepare_def refreshAliveCounts_def split: if_splits prod.splits sum.splits)

lemma markSync_fields:
  "markSync env ok err n h (s, w) = (s', w') \<Longrightarrow>
     w' = snd (envNow env w) \<and> nodeConfig s' = nodeConfig s \<and> currentUserHash s' = currentUserHash s
     \<and> currentConfigHash s' = currentConfigHash s \<and> hasLimiter s' = hasLimiter s \<and> hasReporter s' = hasReporter s
     \<and> syLogLevel s' = syLogLevel s \<and> lastSyncOK s' = ok \<and> lastSyncError s' = err"
  by (auto simp: markSync_def split: prod.splits)

lemma markReload_fields:
  "markReload env ok err (s, w) = (s', w') \<Longrightarrow>
     w' = snd (envNow env w) \<and> nodeConfig s' = nodeConfig s \<and> currentUserHash s' = currentUserHash s
     \<and> currentConfigHash s' = currentConfigHash s \<and> hasLimiter s' = hasLimiter s \<and> hasReporter s' = hasReporter s
     \<and> syLogLevel s' = syLogLevel s \<and> lastSyncOK s' = lastSyncOK s \<and> lastSyncError s' = lastSyncError s
     \<and> lastReloadOK s' = ok"
  by (auto simp: markReload_def split: prod.splits)

lemma Returns_eqD: "Returns x = Returns y \<Longrightarrow> y = x"
  by simp

lemma marks_fields:
  "markReload env ok' err' (markSync env ok err n h (s, w)) = (s', w') \<Longrightarrow>
     w' = snd (envNow env (snd (envNow env w))) \<and> nodeConfig s' = nodeConfig s \<and> currentUserHash s' = currentUserHash s
     \<and> currentConfigHash s' = currentConfigHash s \<and> hasLimiter s' = hasLimiter s \<and> hasReporter s' = hasReporter s
     \<and> syLogLevel s' = syLogLevel s \<and> lastSyncOK s' = ok \<and> lastReloadOK s' = ok'"
  using markReload_fields markSync_fields by (metis prod.exhaust)

lemma Sync_flags:
  assumes "Sync env (s, w) = Returns (s', w')"
  shows "hasLimiter s' = hasLimiter s \<and> hasReporter s' = hasReporter s"
  using assms
proof (cases rule: Sync_cases)
  case (no_users err w1)
  then show ?thesis using markSync_fields [OF Returns_eqD [OF no_users(2)]] by simp
next
  case (no_config us w1 w2)
  then show ?thesis using markSync_fields [OF Returns_eqD [OF no_config(3)]] by simp
next
  case (unchanged us w1 cfg w2)
  then show ?thesis using markSync_fields [OF Returns_eqD [OF unchanged(4)]] by simp
next
  case (dies us w1 cfg w2 w3)
  then show ?thesis by simp
next
  case (refused us w1 cfg w2 w3 err w4)
  then show ?thesis using marks_fields [OF Returns_eqD [OF refused(6)]] by simp
next
  case (reloaded us w1 cfg w2 w3 w4)
  then show ?thesis using marks_fields [OF Returns_eqD [OF reloaded(6)]] by (simp add: applied_def)
qed

lemma Sync_panics: "Sync env (s, w) = Panics sw' \<Longrightarrow> \<not> hasLimiter s"
  by (erule Sync_cases) (auto dest: sync_prepare_panics)

section \<open>Invariants of the environment\<close>

text \<open>What every call that \<open>Sync\<close> makes keeps, \<open>Sync\<close> keeps.\<close>

locale env_invariant =
  fixes env :: "'w sync_env" and inv :: "'w \<Rightarrow> bool"
  assumes now_inv: "inv w \<Longrightarrow> inv (snd (envNow env w))"
    and users_inv: "inv w \<Longrightarrow> inv (snd (envGetUsers env w))"
    and config_inv: "inv w \<Longrightarrow> inv (snd (envGetNodeConfig env w))"
    and alive_inv: "inv w \<Longrightarrow> inv (snd (envGetUserAlive env w))"
    and update_users_inv: "inv w \<Longrightarrow> inv (envUpdateUsers env us w)"
    and update_alive_inv: "inv w \<Longrightarrow> inv (envUpdateAliveList env alive w)"
    and report_inv: "inv w \<Longrightarrow> inv (envReport env w)"
    and reload_inv: "inv w \<Longrightarrow> inv (snd (envReloadUsers env cfg us level w))"
begin

lemma fetched_inv:
  "inv w \<Longrightarrow> envGetUsers env w = (Inr us, w1) \<Longrightarrow> sync_config env s us w1 = (c, w2) \<Longrightarrow> inv w2"
  using users_inv [of w] config_inv [of w1] config_inv [of "envUpdateUsers env us w1"] update_users_inv [of w1 us]
  by (auto simp: sync_config_def split: if_splits prod.splits sum.splits)

lemma prepared_inv: "inv w \<Longrightarrow> sync_prepare env s w = Returns w' \<Longrightarrow> inv w'"
  using report_inv [of w] alive_inv [of w] alive_inv [of "envReport env w"] update_alive_inv
  by (auto simp: sync_prepare_def refreshAliveCounts_def split: if_splits prod.splits sum.splits)

lemma markSync_inv: "inv w \<Longrightarrow> inv (snd (markSync env ok err k h (s, w)))"
  using now_inv [of w] by (simp add: markSync_def case_prod_beta)

lemma markReload_inv: "inv (snd sw) \<Longrightarrow> inv (snd (markReload env ok err sw))"
  using now_inv [of "snd sw"] by (simp add: markReload_def case_prod_beta)

lemma Sync_inv:
  assumes "inv w" and "Sync env (s, w) = Returns sw'"
  shows "inv (snd sw')"
  using assms(2)
proof (cases rule: Sync_cases)
  case (no_users err w1)
  then show ?thesis using users_inv [OF assms(1)] by (simp add: markSync_inv)
next
  case (no_config us w1 w2)
  then show ?thesis using fetched_inv [OF assms(1)] by (simp add: markSync_inv)
next
  case (unchanged us w1 cfg w2)
  then show ?thesis using fetched_inv [OF assms(1)] by (simp add: markSync_inv)
next
  case (dies us w1 cfg w2 w3)
  then show ?thesis by simp
next
  case (refused us w1 cfg w2 w3 err w4)
  have "inv w4" using reload_inv [OF prepared_inv [OF fetched_inv [OF assms(1) refused(1,2)] refused(4)]] refused(5) by (metis snd_conv)
  then show ?thesis using refused(6) by (simp add: markReload_inv markSync_inv)
next
  case (reloaded us w1 cfg w2 w3 w4)
  have "inv w4" using reload_inv [OF prepared_inv [OF fetched_inv [OF assms(1) reloaded(1,2)] reloaded(4)]] reloaded(5) by (metis snd_conv)
  then show ?thesis using reloaded(6) by (simp add: markReload_inv markSync_inv)
qed

end

section \<open>An engine that records what it runs\<close>

locale recording_engine =
  fixes env :: "'w sync_env" and recorded :: "'w \<Rightarrow> node_config option \<times> panel_user list"
  assumes now_keeps: "recorded (snd (envNow env w)) = recorded w"
    and users_keeps: "recorded (snd (envGetUsers env w)) = recorded w"
    and config_keeps: "recorded (snd (envGetNodeConfig env w)) = recorded w"
    and alive_keeps: "recorded (snd (envGetUserAlive env w)) = recorded w"
    and update_users_keeps: "recorded (envUpdateUsers env us w) = recorded w"
    and update_alive_keeps: "recorded (envUpdateAliveList env alive w) = recorded w"
    and report_keeps: "recorded (envReport env w) = recorded w"
    and reload_records: "envReloadUsers env cfg us level w = (None, w') \<Longrightarrow> recorded w' = (cfg, us)"
    and failed_reload_keeps: "envReloadUsers env cfg us level w = (Some err, w') \<Longrightarrow> recorded w' = recorded w"
begin

lemma users_keeps': "envGetUsers env w = (r, w') \<Longrightarrow> recorded w' = recorded w"
  using users_keeps [of w] by simp

lemma sync_config_keeps: "sync_config env s us w = (c, w') \<Longrightarrow> recorded w' = recorded w"
  using config_keeps update_users_keeps
  by (auto simp: sync_config_def split: if_splits prod.splits sum.splits) (metis snd_conv)+

lemma sync_prepare_keeps: "sync_prepare env s w = Returns w' \<Longrightarrow> recorded w' = recorded w"
  using alive_keeps report_keeps update_alive_keeps
  by (auto simp: sync_prepare_def refreshAliveCounts_def split: if_splits prod.splits sum.splits) (metis snd_conv)+

end

text \<open>The digests and the configuration of the syncer are those of what the engine has recorded.\<close>

definition in_step :: "('w \<Rightarrow> node_config option \<times> panel_user list) \<Rightarrow> syncer \<times> 'w \<Rightarrow> bool" where
  "in_step recorded sw \<longleftrightarrow>
     (case sw of (s, w) \<Rightarrow> case recorded w of (cfg, us) \<Rightarrow>
        nodeConfig s = cfg \<and> currentUserHash s = hashUsers us \<and> currentConfigHash s = hashConfig cfg)"

context recording_engine
begin

lemma in_step_cong: "recorded w' = recorded w \<Longrightarrow> in_step recorded (s, w') \<longleftrightarrow> in_step recorded (s, w)"
  by (simp add: in_step_def)

lemma markSync_in_step: "in_step recorded (markSync env ok err n h (s, w)) \<longleftrightarrow> in_step recorded (s, w)"
  using now_keeps [of w] by (simp add: markSync_def in_step_def case_prod_beta)

lemma markReload_in_step: "in_step recorded (markReload env ok err (s, w)) \<longleftrightarrow> in_step recorded (s, w)"
  using now_keeps [of w] by (simp add: markReload_def in_step_def case_prod_beta)

lemma marks_in_step:
  "in_step recorded (markReload env ok' err' (markSync env ok err n h (s, w))) \<longleftrightarrow> in_step recorded (s, w)"
  using markReload_in_step markSync_in_step by (metis prod.exhaust)

lemma Sync_in_step:
  assumes "in_step recorded (s, w)" and "Sync env (s, w) = Returns sw'"
  shows "in_step recorded sw'"
  using assms(2)
proof (cases rule: Sync_cases)
  case (no_users err w1)
  then show ?thesis using assms(1) in_step_cong [OF users_keeps'] by (simp add: markSync_in_step)
next
  case (no_config us w1 w2)
  then show ?thesis using assms(1) in_step_cong [OF users_keeps'] in_step_cong [OF sync_config_keeps]
    by (simp add: markSync_in_step)
next
  case (unchanged us w1 cfg w2)
  then show ?thesis using assms(1) in_step_cong [OF users_keeps'] in_step_cong [OF sync_config_keeps]
    by (simp add: markSync_in_step)
next
  case (dies us w1 cfg w2 w3)
  then show ?thesis by simp
next
  case (refused us w1 cfg w2 w3 err w4)
  have "recorded w4 = recorded w"
    using users_keeps' [OF refused(1)] sync_config_keeps [OF refused(2)] sync_prepare_keeps [OF refused(4)]
      failed_reload_keeps [OF refused(5)] by simp
  then show ?thesis using assms(1) refused(6) in_step_cong [of w4 w s] by (simp add: marks_in_step)
next
  case (reloaded us w1 cfg w2 w3 w4)
  have "recorded w4 = (Some cfg, us)" by (rule reload_records [OF reloaded(5)])
  then have "in_step recorded (applied s us cfg, w4)" by (simp add: in_step_def applied_def)
  then show ?thesis using reloaded(6) by (simp add: marks_in_step)
qed

text \<open>A call that reports success leaves in the record what it fetched, as far as the digests tell.\<close>

lemma Sync_success:
  assumes "in_step recorded (s, w)" and "Sync env (s, w) = Returns (s', w')" and "lastSyncOK s'"
  obtains us w1 cfg w2 where "envGetUsers env w = (Inr us, w1)" "sync_config env s us w1 = (Some cfg, w2)"
    "hashUsers (snd (recorded w')) = hashUsers us" "hashConfig (fst (recorded w')) = hashConfig (Some cfg)"
    "sync_due s us cfg \<Longrightarrow> recorded w' = (Some cfg, us)"
  using assms(2)
proof (cases rule: Sync_cases)
  case (no_users err w1)
  then show ?thesis using assms(3) markSync_fields [OF Returns_eqD [OF no_users(2)]] by simp
next
  case (no_config us w1 w2)
  then show ?thesis using assms(3) markSync_fields [OF Returns_eqD [OF no_config(3)]] by simp
next
  case (unchanged us w1 cfg w2)
  have "in_step recorded (s', w')" by (rule Sync_in_step [OF assms(1,2)])
  moreover have "currentUserHash s' = currentUserHash s \<and> currentConfigHash s' = currentConfigHash s"
    using markSync_fields [OF Returns_eqD [OF unchanged(4)]] by simp
  ultimately have "hashUsers (snd (recorded w')) = hashUsers us" "hashConfig (fst (recorded w')) = hashConfig (Some cfg)"
    using unchanged(3) by (simp_all add: in_step_def sync_due_def case_prod_beta)
  then show ?thesis by (rule that [OF unchanged(1,2)]) (simp add: unchanged(3))
next
  case (dies us w1 cfg w2 w3)
  then show ?thesis by simp
next
  case (refused us w1 cfg w2 w3 err w4)
  then show ?thesis using assms(3) marks_fields [OF Returns_eqD [OF refused(6)]] by simp
next
  case (reloaded us w1 cfg w2 w3 w4)
  have "w' = snd (envNow env (snd (envNow env w4)))"
    using marks_fields [OF Returns_eqD [OF reloaded(6)]] by simp
  then have "recorded w' = (Some cfg, us)" using reload_records [OF reloaded(5)] now_keeps by simp
  then show ?thesis using that [OF reloaded(1,2)] by simp
qed

end

section \<open>A change that goes unnoticed\<close>

text \<open>
  A changed list of short ids can be missed. The short ids are hashed one after the other
  without a separator, so when the panel splits, joins or otherwise regroups them, \<open>Sync\<close>
  finds the digest it knows, reports success and does not touch the engine, which goes on
  accepting the old ids.
\<close>

theorem short_id_change_missed:
  assumes users: "envGetUsers env w = (Inr us, w1)" and config: "sync_config env s us w1 = (Some d, w2)"
    and known: "currentUserHash s = hashUsers us" "currentConfigHash s = hashConfig (Some c)"
    and change: "d = c\<lparr>TLSSettings := (TLSSettings c)\<lparr>tlsShortID := x, shortIDs := ys\<rparr>\<rparr>"
    and regrouped: "short_ids_text (TLSSettings d) = short_ids_text (TLSSettings c)"
  shows "\<exists>s'. Sync env (s, w) = Returns (s', snd (envNow env w2)) \<and> lastSyncOK s' \<and> nodeConfig s' = nodeConfig s"
proof -
  have "config_text d = config_text c" using regrouped by (simp add: config_text_def change)
  then have "\<not> sync_due s us d" using known by (simp add: sync_due_def hashConfig_def)
  then have run: "Sync env (s, w) = Returns (markSync env True [] (int (length us)) (hashConfig (Some d)) (s, w2))"
    by (simp add: Sync_phases users config)
  obtain s' w' where M: "markSync env True [] (int (length us)) (hashConfig (Some d)) (s, w2) = (s', w')"
    by (rule prod.exhaust)
  then show ?thesis using markSync_fields [OF M] run by simp
qed

text \<open>An environment that answers with a configuration and counts reloads.\<close>

definition counting_env :: "node_config \<Rightarrow> nat sync_env" where
  "counting_env cfg = \<lparr>
     envNow = Pair 0, envGetUsers = Pair (Inr []), envGetNodeConfig = Pair (Inr (Some cfg)),
     envGetUserAlive = Pair (Inr []), envUpdateUsers = (\<lambda>us w. w), envUpdateAliveList = (\<lambda>a w. w),
     envReport = (\<lambda>w. w), envReloadUsers = (\<lambda>cfg us level w. (None, Suc w))\<rparr>"

theorem short_id_change_missed_witness:
  "ShortIDList (TLSSettings one_id) \<noteq> ShortIDList (TLSSettings two_ids)
   \<and> (\<exists>s'. Sync (counting_env one_id) (SetInitialHash [] (NewUserSyncer (Some two_ids) ''info'' True), 0) = Returns (s', 0)
       \<and> lastSyncOK s')"
proof -
  let ?s = "SetInitialHash [] (NewUserSyncer (Some two_ids) ''info'' True)"
  have "short_ids_text (TLSSettings one_id) = short_ids_text (TLSSettings two_ids)" by code_simp
  moreover have "currentUserHash ?s = hashUsers []" "currentConfigHash ?s = hashConfig (Some two_ids)"
    by (simp_all add: SetInitialHash_def NewUserSyncer_def)
  moreover have "one_id = two_ids\<lparr>TLSSettings := (TLSSettings two_ids)\<lparr>tlsShortID := [], shortIDs := [''aabb'']\<rparr>\<rparr>"
    by (simp add: one_id_def two_ids_def zero_config_def zero_tls_def)
  moreover have "envGetUsers (counting_env one_id) 0 = (Inr [], 0)" "snd (envNow (counting_env one_id) 0) = 0"
    "sync_config (counting_env one_id) ?s [] 0 = (Some one_id, 0)"
    by (simp_all add: counting_env_def sync_config_def)
  ultimately have "\<exists>s'. Sync (counting_env one_id) (?s, 0) = Returns (s', 0) \<and> lastSyncOK s'"
    using short_id_change_missed [of "counting_env one_id" 0 "[]" 0 ?s one_id 0 two_ids "[''aabb'']" "[]"] by metis
  moreover have "ShortIDList (TLSSettings one_id) \<noteq> ShortIDList (TLSSettings two_ids)" by code_simp
  ultimately show ?thesis by blast
qed

end
