(* ===== verification/Engine_Spec.thy ===== *)
theory Engine_Spec
  imports Engine
begin

text \<open>
  What the engine guarantees, given the documented behaviour of sing-box's life cycle: at
  most one instance runs, it is the recorded one and was built from the recorded
  configuration; a reload ends in exactly one of four ways. Then the interleaving with
  \<open>Close\<close> that leaves an instance running.
\<close>

section \<open>The life cycle of instances\<close>

text \<open>
  \<open>running\<close> are the instances that serve in a state of the environment, \<open>made\<close> the options an
  instance was created with. Creating an instance starts nothing; starting runs it, or
  fails and leaves it to be closed; closing stops it.
\<close>

definition box_laws :: "('b, 'w, 'r, 'o) box_api \<Rightarrow> ('w \<Rightarrow> 'b set) \<Rightarrow> ('b \<Rightarrow> ('r, 'o) options) \<Rightarrow> bool" where
  "box_laws api running made \<longleftrightarrow>
     (\<forall>opts w r w'. boxNew api opts w = (r, w') \<longrightarrow>
        running w' = running w \<and> (\<forall>b. r = Inr b \<longrightarrow> b \<notin> running w \<and> made b = opts)) \<and>
     (\<forall>b w. running (boxAppendTracker api b w) = running w) \<and>
     (\<forall>b w w'. boxStart api b w = (None, w') \<longrightarrow> running w' = insert b (running w)) \<and>
     (\<forall>b w err w'. boxStart api b w = (Some err, w') \<longrightarrow>
        running w - {b} \<subseteq> running w' \<and> running w' \<subseteq> insert b (running w)) \<and>
     (\<forall>b w. running (snd (boxClose api b w)) = running w - {b})"

lemma box_lawsD:
  assumes "box_laws api running made"
  shows "boxNew api opts w = (r, w') \<Longrightarrow> running w' = running w"
    and "boxNew api opts w = (Inr b, w') \<Longrightarrow> b \<notin> running w \<and> made b = opts"
    and "running (boxAppendTracker api b w) = running w"
    and "boxStart api b w = (None, w') \<Longrightarrow> running w' = insert b (running w)"
    and "boxStart api b w = (Some err, w') \<Longrightarrow> running (snd (boxClose api b w')) = running w - {b}"
    and "running (snd (boxClose api b w)) = running w - {b}"
proof -
  note laws = assms [unfolded box_laws_def]
  note L = laws [THEN conjunct1] laws [THEN conjunct2, THEN conjunct1]
    laws [THEN conjunct2, THEN conjunct2, THEN conjunct1]
    laws [THEN conjunct2, THEN conjunct2, THEN conjunct2, THEN conjunct1]
    laws [THEN conjunct2, THEN conjunct2, THEN conjunct2, THEN conjunct2]
  show "boxNew api opts w = (r, w') \<Longrightarrow> running w' = running w" using L(1) by blast
  show "boxNew api opts w = (Inr b, w') \<Longrightarrow> b \<notin> running w \<and> made b = opts" using L(1) by blast
  show "running (boxAppendTracker api b w) = running w" using L(2) by blast
  show "boxStart api b w = (None, w') \<Longrightarrow> running w' = insert b (running w)" using L(3) by blast
  show closed: "running (snd (boxClose api b w)) = running w - {b}" for w using L(5) by blast
  show "running (snd (boxClose api b w')) = running w - {b}" if "boxStart api b w = (Some err, w')"
  proof -
    have "running w - {b} \<subseteq> running w'" "running w' \<subseteq> insert b (running w)" using L(4) that by blast+
    then show ?thesis unfolding closed by blast
  qed
qed

definition built_from ::
  "('b, 'w, 'r, 'o) box_api \<Rightarrow> ('b \<Rightarrow> ('r, 'o) options) \<Rightarrow> 'b engine \<Rightarrow> 'b \<Rightarrow> node_config option
     \<Rightarrow> panel_user list \<Rightarrow> string \<Rightarrow> bool" where
  "built_from api made e b cfg users level \<longleftrightarrow>
     BuildConfig (boxDecoders api) cfg users level (clashAPIListenAddr e) (googleIPv6 e) = Inr (made b)"

definition engine_ok ::
  "('b, 'w, 'r, 'o) box_api \<Rightarrow> ('w \<Rightarrow> 'b set) \<Rightarrow> ('b \<Rightarrow> ('r, 'o) options) \<Rightarrow> 'b engine \<times> 'w \<Rightarrow> bool" where
  "engine_ok api running made ew \<longleftrightarrow>
     (case ew of (e, w) \<Rightarrow>
        running w = set_option (instance_box e) \<and>
        (case instance_box e of
           None \<Rightarrow> True
         | Some b \<Rightarrow> built_from api made e b (currentConfig e) (engUsers e) (engLogLevel e)))"

lemma createBox_result:
  assumes "box_laws api running made" and "createBox api e cfg users level w = (r, w')"
  shows "running w' = running w"
    and "r = Inr b \<Longrightarrow> b \<notin> running w \<and> built_from api made e b cfg users level"
proof -
  note L = box_lawsD [OF assms(1)]
  have "running w' = running w \<and> (\<forall>b. r = Inr b \<longrightarrow> b \<notin> running w \<and> built_from api made e b cfg users level)"
  proof (cases "BuildConfig (boxDecoders api) cfg users level (clashAPIListenAddr e) (googleIPv6 e)")
    case (Inl err)
    then have "r = Inl (GenerateFailed err)" "w' = w" using assms(2) by (simp_all add: createBox_def)
    then show ?thesis by simp
  next
    case (Inr opts)
    obtain nr w1 where N: "boxNew api opts w = (nr, w1)" by (rule prod.exhaust)
    show ?thesis
    proof (cases nr)
      case (Inl err)
      then have "r = Inl (NewFailed err)" "w' = w1" using assms(2) Inr N by (simp_all add: createBox_def)
      then show ?thesis using L(1) [OF N] by simp
    next
      case B: (Inr b)
      have "r = Inr b" "running w' = running w"
        using assms(2) Inr N B L(1) [OF N] L(3) by (auto simp: createBox_def split: if_splits)
      then show ?thesis using L(2) N B Inr by (simp add: built_from_def)
    qed
  qed
  then show "running w' = running w" "r = Inr b \<Longrightarrow> b \<notin> running w \<and> built_from api made e b cfg users level"
    by auto
qed

lemma built_from_install [simp]:
  "built_from api made (install b cfg users level e) = built_from api made e"
  "built_from api made (e\<lparr>instance_box := x\<rparr>) = built_from api made e"
  "built_from api made (snd (close_take e)) = built_from api made e"
  by (auto simp: built_from_def install_def close_take_def fun_eq_iff)

lemma restore_result:
  assumes laws: "box_laws api running made" and none: "running w = {}" "instance_box e = None"
    and run: "restorePreviousInstance api cfg users level (e, w) = (res, e', w')"
  shows "engine_ok api running made (e', w')"
    and "res = None \<Longrightarrow> instance_box e' \<noteq> None \<and> currentConfig e' = cfg \<and> engUsers e' = users \<and> engLogLevel e' = level"
    and "res = Some err \<Longrightarrow> e' = e"
proof -
  note L = box_lawsD [OF laws]
  have "engine_ok api running made (e', w')
    \<and> (res = None \<longrightarrow> instance_box e' \<noteq> None \<and> currentConfig e' = cfg \<and> engUsers e' = users \<and> engLogLevel e' = level)
    \<and> (res \<noteq> None \<longrightarrow> e' = e)"
  proof (cases "cfg = None")
    case True
    then have "res = Some NoPreviousConfig" "e' = e" "w' = w"
      using run by (simp_all add: restorePreviousInstance_def)
    then show ?thesis using none by (simp add: engine_ok_def)
  next
    case False
    obtain r w1 where C: "createBox api e cfg users level w = (r, w1)" by (rule prod.exhaust)
    have w1: "running w1 = {}" using createBox_result(1) [OF laws C] none by simp
    show ?thesis
    proof (cases r)
      case (Inl err)
      then have "res = Some (RebuildFailed err)" "e' = e" "w' = w1"
        using run C False by (simp_all add: restorePreviousInstance_def)
      then show ?thesis using none w1 by (simp add: engine_ok_def)
    next
      case (Inr b)
      note b = createBox_result(2) [OF laws C Inr]
      obtain sr w2 where S: "boxStart api b w1 = (sr, w2)" by (rule prod.exhaust)
      show ?thesis
      proof (cases sr)
        case None
        then have "res = None" "e' = install b cfg users level e" "w' = w2"
          using run C Inr S False by (simp_all add: restorePreviousInstance_def)
        moreover have "running w2 = {b}" using L(4) S None w1 by simp
        ultimately show ?thesis using b by (simp add: engine_ok_def install_def built_from_def)
      next
        case (Some err)
        then have "res = Some (RestartFailed err)" "e' = e" "w' = snd (boxClose api b w2)"
          using run C Inr S False by (simp_all add: restorePreviousInstance_def)
        moreover have "running (snd (boxClose api b w2)) = {}" using L(5) S Some w1 by simp
        ultimately show ?thesis using none by (simp add: engine_ok_def)
      qed
    qed
  qed
  then show "engine_ok api running made (e', w')"
    "res = None \<Longrightarrow> instance_box e' \<noteq> None \<and> currentConfig e' = cfg \<and> engUsers e' = users \<and> engLogLevel e' = level"
    "res = Some err \<Longrightarrow> e' = e" by auto
qed

section \<open>How a reload ends\<close>

text \<open>The state after a reload, by its result.\<close>

definition reload_outcome ::
  "'b engine \<Rightarrow> node_config option \<Rightarrow> panel_user list \<Rightarrow> string \<Rightarrow> engine_error option \<Rightarrow> 'b engine \<Rightarrow> bool" where
  "reload_outcome e cfg users level res e' \<longleftrightarrow>
     (case res of
        None \<Rightarrow> instance_box e' \<noteq> None \<and> currentConfig e' = cfg \<and> engUsers e' = users \<and> engLogLevel e' = level
      | Some (BuildNewFailed _) \<Rightarrow> e' = e
      | Some (RolledBack _) \<Rightarrow> instance_box e' \<noteq> None \<and> currentConfig e' = currentConfig e
          \<and> engUsers e' = engUsers e \<and> engLogLevel e' = engLogLevel e
      | Some (RollbackFailed _ _) \<Rightarrow> e' = e\<lparr>instance_box := None\<rparr>
      | _ \<Rightarrow> False)"

lemma reload_finish_outcome:
  assumes laws: "box_laws api running made"
    and old: "running w = set_option (instance_box e)"
    and new: "b \<notin> running w" "built_from api made e b cfg users level"
    and run: "reload_finish api cfg users level b (fst (reload_swap e)) (snd (reload_swap e), w) = (res, e', w')"
  shows "engine_ok api running made (e', w') \<and> reload_outcome e cfg users level res e'"
proof -
  note L = box_lawsD [OF laws]
  define w1 where "w1 = (case instance_box e of None \<Rightarrow> w | Some b \<Rightarrow> snd (boxClose api b w))"
  have w1: "running w1 = {}" using old L(6) by (auto simp: w1_def split: option.split)
  let ?e1 = "e\<lparr>instance_box := None\<rparr>"
  obtain sr w2 where S: "boxStart api b w1 = (sr, w2)" by (rule prod.exhaust)
  have run1: "(case (sr, w2) of
       (Some err, w) \<Rightarrow>
         let w = snd (boxClose api b w)
         in (case restorePreviousInstance api (currentConfig e) (engUsers e) (engLogLevel e) (?e1, w) of
               (Some rollbackErr, ew) \<Rightarrow> (Some (RollbackFailed err rollbackErr), ew)
             | (None, ew) \<Rightarrow> (Some (RolledBack err), ew))
     | (None, w) \<Rightarrow> (None, install b cfg users level ?e1, w)) = (res, e', w')"
    using run by (cases sr) (simp_all add: reload_finish_def reload_swap_def w1_def [symmetric] S Let_def)
  show ?thesis
  proof (cases sr)
    case None
    then have "res = None" "e' = install b cfg users level ?e1" "w' = w2" using run1 by simp_all
    moreover have "running w2 = {b}" using L(4) S None w1 by simp
    ultimately show ?thesis using new(2)
      by (simp add: engine_ok_def reload_outcome_def install_def built_from_def)
  next
    case (Some err)
    obtain rr e2 w3 where R: "restorePreviousInstance api (currentConfig e) (engUsers e) (engLogLevel e)
        (?e1, snd (boxClose api b w2)) = (rr, e2, w3)" by (rule prod_cases3)
    have "running (snd (boxClose api b w2)) = {}" using L(5) S Some w1 by simp
    note restored = restore_result [OF laws this _ R]
    show ?thesis
    proof (cases rr)
      case None
      then have "res = Some (RolledBack err)" "e' = e2" "w' = w3" using run1 Some R by simp_all
      then show ?thesis using restored(1,2) None by (simp add: reload_outcome_def)
    next
      case rb: (Some rollbackErr)
      then have "res = Some (RollbackFailed err rollbackErr)" "e' = e2" "w' = w3" using run1 Some R by simp_all
      then show ?thesis using restored(1) restored(3) [OF _ rb] by (simp add: reload_outcome_def)
    qed
  qed
qed

lemma ReloadUsers_outcome:
  assumes laws: "box_laws api running made" and ok: "engine_ok api running made (e, w)"
    and run: "ReloadUsers api cfg users level (e, w) = (res, e', w')"
  shows "engine_ok api running made (e', w') \<and> reload_outcome e cfg users level res e'"
proof -
  obtain r w1 where C: "createBox api e cfg users level w = (r, w1)" by (rule prod.exhaust)
  have w1: "running w1 = running w" by (rule createBox_result(1) [OF laws C])
  show ?thesis
  proof (cases r)
    case (Inl err)
    then have "res = Some (BuildNewFailed err)" "e' = e" "w' = w1" using run C by (simp_all add: ReloadUsers_def)
    then show ?thesis using ok w1 by (simp add: engine_ok_def reload_outcome_def)
  next
    case (Inr b)
    have "reload_finish api cfg users level b (fst (reload_swap e)) (snd (reload_swap e), w1) = (res, e', w')"
      using run C Inr by (simp add: ReloadUsers_def case_prod_beta)
    moreover have "running w1 = set_option (instance_box e)" using ok w1 by (simp add: engine_ok_def)
    moreover have "b \<notin> running w1" "built_from api made e b cfg users level"
      using createBox_result(2) [OF laws C Inr] w1 by simp_all
    ultimately show ?thesis by (intro reload_finish_outcome [OF laws])
  qed
qed

text \<open>
  C8: A reload ends in one of four ways. It keeps the engine consistent (one running
  instance at most, the recorded one, built from the recorded configuration). Without error
  the new configuration runs; if the new instance cannot be built nothing has changed; if it
  cannot be started either the previous configuration runs again, or nothing runs and the
  previous configuration stays recorded.
\<close>

theorem reload_ends_well:
  assumes "box_laws api running made" and "engine_ok api running made (e, w)"
    and "ReloadUsers api cfg users level (e, w) = (res, e', w')"
  shows "engine_ok api running made (e', w') \<and> reload_outcome e cfg users level res e'"
  by (rule ReloadUsers_outcome [OF assms])

section \<open>Closing during a reload\<close>

text \<open>
  C39: An engine that is closed during a reload goes on running. When \<open>Close\<close> comes after the
  reload has taken the old instance out, it finds nothing to close and reports success; the
  reload then starts the new instance and installs it.
\<close>

theorem close_during_reload_leaks:
  assumes laws: "box_laws api running made" and ok: "engine_ok api running made (e, w)"
    and create: "createBox api e cfg users level w = (Inr b, w1)"
    and swap: "reload_swap e = (old, e1)"
    and close: "engine_Close api (e1, w1) = (closed, e2, w2)"
    and finish: "reload_finish api cfg users level b old (e2, w2) = (None, e3, w3)"
  shows "closed = None \<and> running w3 = {b} \<and> instance_box e3 = Some b"
proof -
  have e1: "instance_box e1 = None" and old: "oldInstance old = instance_box e"
    using swap by (auto simp: reload_swap_def)
  have closed: "closed = None" "w2 = w1" using close e1 by (auto simp: engine_Close_def close_take_def)
  have "running w1 = set_option (instance_box e)"
    using createBox_result(1) [OF laws create] ok by (simp add: engine_ok_def)
  then have "running (case oldInstance old of None \<Rightarrow> w2 | Some b \<Rightarrow> snd (boxClose api b w2)) = {}"
    using box_lawsD(6) [OF laws] closed old by (auto split: option.split)
  then show ?thesis using finish closed box_lawsD(4) [OF laws]
    by (auto simp: reload_finish_def Let_def install_def split: prod.splits option.splits)
qed

section \<open>Examples\<close>

text \<open>
  An environment that numbers instances; \<open>fails\<close> says which attempts to start one fail.
\<close>

type_synonym demo_box = "nat \<times> (string, string) options"

type_synonym demo_world = "nat \<times> demo_box list"

definition demo_api :: "(nat \<Rightarrow> bool) \<Rightarrow> (demo_box, demo_world, string, string) box_api" where
  "demo_api fails = \<lparr>
     boxNew = (\<lambda>opts (k, rs). (Inr (Suc (foldr (\<lambda>b. max (fst b)) rs 0), opts), (k, rs))),
     boxAppendTracker = (\<lambda>b w. w),
     boxStart = (\<lambda>b (k, rs). if fails k then (Some ''bind'', (Suc k, rs)) else (None, (Suc k, b # rs))),
     boxClose = (\<lambda>b (k, rs). (None, (k, removeAll b rs))),
     boxDecoders = \<lparr>decRoute = (\<lambda>s. None), decRules = (\<lambda>s. None)\<rparr>\<rparr>"

definition demo_running :: "demo_world \<Rightarrow> demo_box set" where
  "demo_running w = set (snd w)"

lemma foldr_max_fresh: "b \<in> set rs \<Longrightarrow> fst b \<le> foldr (\<lambda>b. max (fst b)) rs (0 :: nat)"
  by (induction rs) auto

lemma demo_laws: "box_laws (demo_api fails) demo_running snd"
proof -
  have "(Suc (foldr (\<lambda>b. max (fst b)) rs 0), opts) \<notin> set rs" for rs :: "demo_box list" and opts
    using foldr_max_fresh [of "(Suc (foldr (\<lambda>b. max (fst b)) rs 0), opts)" rs] by auto
  then show ?thesis
    by (auto simp: box_laws_def demo_api_def demo_running_def split: if_splits)
qed

definition demo_node_config :: "string \<Rightarrow> node_config" where
  "demo_node_config server = zero_config\<lparr>Protocol := ''vless'', ServerPort := 443,
     TLSSettings := zero_tls\<lparr>tlsServerName := server, tlsPrivateKey := ''k''\<rparr>\<rparr>"

definition second_fails :: "nat \<Rightarrow> bool" where
  "second_fails k \<longleftrightarrow> k = 1"

definition demo_started :: "(nat \<Rightarrow> bool) \<Rightarrow> demo_box engine \<times> demo_world" where
  "demo_started fails =
     snd (engine_Start (demo_api fails) (Some (demo_node_config ''a'')) [] ''info'' (NewEngine [] False True, (0, [])))"

lemma demo_started_ok:
  "engine_ok (demo_api second_fails) demo_running snd (demo_started second_fails)"
  by code_simp

theorem reload_ends_well_witness:
  "\<exists>err e' w'. ReloadUsers (demo_api second_fails) (Some (demo_node_config ''b'')) [] ''info''
      (demo_started second_fails) = (Some (RolledBack err), e', w')
    \<and> currentConfig e' = Some (demo_node_config ''a'') \<and> card (demo_running w') = 1"
proof -
  let ?api = "demo_api second_fails" and ?s = "demo_started second_fails"
  obtain e w where s: "?s = (e, w)" by (rule prod.exhaust)
  obtain res e' w' where run: "ReloadUsers ?api (Some (demo_node_config ''b'')) [] ''info'' (e, w) = (res, e', w')"
    by (rule prod_cases3)
  have "fst (ReloadUsers ?api (Some (demo_node_config ''b'')) [] ''info'' ?s) = Some (RolledBack ''bind'')" by code_simp
  then have res: "res = Some (RolledBack ''bind'')" using run s by simp
  have "currentConfig (fst ?s) = Some (demo_node_config ''a'')" by code_simp
  then have cfg: "currentConfig e = Some (demo_node_config ''a'')" by (simp add: s)
  have "engine_ok ?api demo_running snd (e', w')
      \<and> reload_outcome e (Some (demo_node_config ''b'')) [] ''info'' res e'"
    using reload_ends_well [OF demo_laws _ run] demo_started_ok s by simp
  then have "demo_running w' = set_option (instance_box e')" "instance_box e' \<noteq> None"
    "currentConfig e' = Some (demo_node_config ''a'')"
    using cfg by (simp_all add: res reload_outcome_def engine_ok_def)
  then show ?thesis using run res s by auto
qed

theorem close_during_reload_leaks_witness:
  "case demo_started (\<lambda>k. False) of (e, w) \<Rightarrow>
     case createBox (demo_api (\<lambda>k. False)) e (Some (demo_node_config ''b'')) [] ''info'' w of
       (Inr b, w1) \<Rightarrow>
         (case engine_Close (demo_api (\<lambda>k. False)) (snd (reload_swap e), w1) of (closed, ew) \<Rightarrow>
            case reload_finish (demo_api (\<lambda>k. False)) (Some (demo_node_config ''b'')) [] ''info'' b
                   (fst (reload_swap e)) ew of
              (res, e3, w3) \<Rightarrow> closed = None \<and> demo_running w3 = {b})
     | _ \<Rightarrow> False"
proof -
  let ?api = "demo_api (\<lambda>k. False)" and ?cfg = "Some (demo_node_config ''b'')"
  obtain e w where s: "demo_started (\<lambda>k. False) = (e, w)" by (rule prod.exhaust)
  have "engine_ok ?api demo_running snd (demo_started (\<lambda>k. False))" by code_simp
  then have ok: "engine_ok ?api demo_running snd (e, w)" by (simp add: s)
  obtain r w1 where create: "createBox ?api e ?cfg [] ''info'' w = (r, w1)" by (rule prod.exhaust)
  obtain closed e2 w2 where close: "engine_Close ?api (snd (reload_swap e), w1) = (closed, e2, w2)" by (rule prod_cases3)
  have "case demo_started (\<lambda>k. False) of (e, w) \<Rightarrow>
     case createBox ?api e ?cfg [] ''info'' w of
       (Inr b, w1) \<Rightarrow> (case engine_Close ?api (snd (reload_swap e), w1) of (closed, ew) \<Rightarrow>
          fst (reload_finish ?api ?cfg [] ''info'' b (fst (reload_swap e)) ew) = None)
     | _ \<Rightarrow> False" by code_simp
  then obtain b where b: "r = Inr b"
    and none: "fst (reload_finish ?api ?cfg [] ''info'' b (fst (reload_swap e)) (e2, w2)) = None"
    by (simp add: s create close split: sum.splits)
  obtain e3 w3 where finish: "reload_finish ?api ?cfg [] ''info'' b (fst (reload_swap e)) (e2, w2) = (None, e3, w3)"
    using none by (metis prod.collapse)
  have "closed = None \<and> demo_running w3 = {b}"
    using close_during_reload_leaks [OF demo_laws ok _ _ close finish] create b by (simp add: prod_eq_iff)
  then show ?thesis by (simp add: s create b close finish)
qed

end
