(* ===== verification/Node_Spec.thy ===== *)
theory Node_Spec
  imports Node Sync_Spec Engine_Spec Traffic_Spec
begin

text \<open>
  The node as a whole. Its engine is interpreted as the \<open>recording_engine\<close> that \<open>Sync\<close>
  relies on; with the life cycle of sing-box this gives the invariant of every reachable
  node. Then what a successful synchronisation achieves, and what it can hide.
\<close>

section \<open>What the engine has recorded\<close>

definition node_recorded :: "('b, 'w) node \<Rightarrow> node_config option \<times> panel_user list" where
  "node_recorded n = (currentConfig (ndEngine n), engUsers (ndEngine n))"

lemma restore_keeps_record:
  "restorePreviousInstance api cfg us level (e, w) = (r, e', w') \<Longrightarrow>
     currentConfig e = cfg \<Longrightarrow> engUsers e = us \<Longrightarrow> currentConfig e' = cfg \<and> engUsers e' = us"
  by (auto simp: restorePreviousInstance_def install_def split: if_splits prod.splits sum.splits option.splits)

lemma ReloadUsers_record:
  assumes "ReloadUsers api cfg us level (e, w) = (r, e', w')"
  shows "r = None \<Longrightarrow> currentConfig e' = cfg \<and> engUsers e' = us \<and> instance_box e' \<noteq> None"
    and "r = Some err \<Longrightarrow> currentConfig e' = currentConfig e \<and> engUsers e' = engUsers e"
proof -
  have "(r = None \<longrightarrow> currentConfig e' = cfg \<and> engUsers e' = us \<and> instance_box e' \<noteq> None)
      \<and> (r \<noteq> None \<longrightarrow> currentConfig e' = currentConfig e \<and> engUsers e' = engUsers e)"
  proof (cases "createBox api e cfg us level w")
    case (Pair c w1)
    show ?thesis
    proof (cases c)
      case (Inl err)
      then show ?thesis using assms by (auto simp: ReloadUsers_def Pair)
    next
      case (Inr b)
      let ?e = "e\<lparr>instance_box := None\<rparr>"
      define w2 where "w2 = (case instance_box e of None \<Rightarrow> w1 | Some b \<Rightarrow> snd (boxClose api b w1))"
      obtain sr w3 where S: "boxStart api b w2 = (sr, w3)" by (rule prod.exhaust)
      obtain rr e4 w4 where R: "restorePreviousInstance api (currentConfig e) (engUsers e) (engLogLevel e)
          (?e, snd (boxClose api b w3)) = (rr, e4, w4)" by (rule prod_cases3)
      have kept: "currentConfig e4 = currentConfig e \<and> engUsers e4 = engUsers e"
        using restore_keeps_record [OF R] by simp
      have "ReloadUsers api cfg us level (e, w) = reload_finish api cfg us level b (fst (reload_swap e)) (?e, w1)"
        by (simp add: ReloadUsers_def Pair Inr reload_swap_def)
      then show ?thesis using assms kept S R
        by (cases sr; cases rr)
          (auto simp: reload_finish_def reload_swap_def w2_def [symmetric] install_def Let_def)
    qed
  qed
  then show "r = None \<Longrightarrow> currentConfig e' = cfg \<and> engUsers e' = us \<and> instance_box e' \<noteq> None"
    "r = Some err \<Longrightarrow> currentConfig e' = currentConfig e \<and> engUsers e' = engUsers e" by simp_all
qed

lemma engine_CollectTraffic_frame:
  "snd (engine_CollectTraffic e) = e\<lparr>engStats := snd (CollectTraffic (engStats e))\<rparr>"
  by (simp add: engine_CollectTraffic_def split: prod.split)

lemma Report_frame:
  assumes "Report engine_CollectTraffic push e now (t, f, eng) = (acked, t', f', eng')"
  shows "eng' = eng\<lparr>engStats := snd (CollectTraffic (engStats eng))\<rparr>"
  using assms by (cases rule: Report_cases) (simp_all add: engine_CollectTraffic_frame)

text \<open>The fields that the calls of \<open>Sync\<close> other than a reload leave alone.\<close>

definition same_engine :: "('b, 'w) node \<Rightarrow> ('b, 'w) node \<Rightarrow> bool" where
  "same_engine n n' \<longleftrightarrow> ndSyncer n' = ndSyncer n
     \<and> ndEngine n' = (ndEngine n)\<lparr>engStats := engStats (ndEngine n')\<rparr>"

lemma same_engine_refl [simp]: "same_engine n n"
  by (simp add: same_engine_def)

lemma same_engine_recorded: "same_engine n n' \<Longrightarrow> node_recorded n' = node_recorded n"
  by (auto simp: same_engine_def node_recorded_def) (metis engine.select_convs engine.surjective engine.update_convs(3))+

lemma same_engine_instance: "same_engine n n' \<Longrightarrow> instance_box (ndEngine n') = instance_box (ndEngine n)"
  by (auto simp: same_engine_def) (metis engine.select_convs(1) engine.surjective engine.update_convs(3))

lemma node_calls_same_engine:
  "same_engine n (snd (node_now p n))"
  "same_engine n (snd (node_GetUsers p n))"
  "same_engine n (snd (node_GetNodeConfig p n))"
  "same_engine n (snd (node_GetUserAlive p n))"
  "same_engine n (snd (node_SendAlive p alive n))"
  "same_engine n (node_UpdateUsers p us n)"
  "same_engine n (snd (build_alive n))"
  by (simp_all add: same_engine_def node_now_def node_GetUsers_def node_GetNodeConfig_def node_GetUserAlive_def
      node_SendAlive_def node_UpdateUsers_def build_alive_def split: prod.split)

lemma node_Report_same_engine: "same_engine n (snd (node_Report p n))"
proof (cases "ndReporter n")
  case (Some t)
  let ?data = "fst (buildPushPayload (fst (fst (engine_CollectTraffic (ndEngine n)))) t)"
  obtain err w1 where P: "(if ?data = [] then (None, ndWorld n)
      else PushTraffic (plNet p) (ndClient n) ?data (ndWorld n)) = (err, w1)" by (rule prod.exhaust)
  obtain io w2 where I: "plIO p w1 = (io, w2)" by (rule prod.exhaust)
  obtain now w3 where T: "plNow p w2 = (now, w3)" by (rule prod.exhaust)
  obtain acked t' f' eng' where R: "Report engine_CollectTraffic
      (\<lambda>_. map_option (panel_error_text (plDecodeText p)) err) io now (t, ndFiles n, ndEngine n) = (acked, t', f', eng')"
    by (metis prod.exhaust)
  show ?thesis
    using Report_frame [OF R] by (simp add: node_Report_def Some P I T R same_engine_def)
qed (simp add: node_Report_def)

interpretation node: recording_engine "node_env p" node_recorded for p :: "('b, 'w, 'r, 'o) platform"
proof
  fix n n' :: "('b, 'w) node" and cfg us level err alive
  show "node_recorded (snd (envNow (node_env p) n)) = node_recorded n"
    by (simp add: node_env_def same_engine_recorded node_calls_same_engine)
  show "node_recorded (snd (envGetUsers (node_env p) n)) = node_recorded n"
    by (simp add: node_env_def same_engine_recorded node_calls_same_engine)
  show "node_recorded (snd (envGetNodeConfig (node_env p) n)) = node_recorded n"
    by (simp add: node_env_def same_engine_recorded node_calls_same_engine)
  show "node_recorded (snd (envGetUserAlive (node_env p) n)) = node_recorded n"
    by (simp add: node_env_def same_engine_recorded node_calls_same_engine)
  show "node_recorded (envUpdateUsers (node_env p) us n) = node_recorded n"
    by (simp add: node_env_def same_engine_recorded node_calls_same_engine)
  show "node_recorded (envUpdateAliveList (node_env p) alive n) = node_recorded n"
    by (simp add: node_env_def node_recorded_def)
  show "node_recorded (envReport (node_env p) n) = node_recorded n"
    by (simp add: node_env_def same_engine_recorded node_Report_same_engine)
  show "node_recorded n' = (cfg, us)" if "envReloadUsers (node_env p) cfg us level n = (None, n')"
    using that
    by (auto simp: node_env_def node_ReloadUsers_def node_recorded_def split: prod.splits
        dest: ReloadUsers_record(1) [OF _ refl])
  show "node_recorded n' = node_recorded n" if "envReloadUsers (node_env p) cfg us level n = (Some err, n')"
    using that
    by (auto simp: node_env_def node_ReloadUsers_def node_recorded_def split: prod.splits
        dest: ReloadUsers_record(2) [OF _ refl])
qed

section \<open>The platform\<close>

text \<open>Besides the laws of sing-box's life cycle: the network, the clock and the files start and stop no instance.\<close>

definition platform_laws ::
  "('b, 'w, 'r, 'o) platform \<Rightarrow> ('w \<Rightarrow> 'b set) \<Rightarrow> ('b \<Rightarrow> ('r, 'o) options) \<Rightarrow> bool" where
  "platform_laws p running made \<longleftrightarrow> box_laws (plBox p) running made \<and>
     (\<forall>w. (\<forall>rq. running (snd (netDo (plNet p) rq w)) = running w) \<and>
          (\<forall>d. running (netSleep (plNet p) d w) = running w) \<and>
          running (snd (plNow p w)) = running w \<and> running (snd (plIO p w)) = running w)"

lemma platform_lawsD:
  assumes "platform_laws p running made"
  shows "box_laws (plBox p) running made"
    and "running (snd (netDo (plNet p) rq w)) = running w"
    and "running (netSleep (plNet p) d w) = running w"
    and "running (snd (plNow p w)) = running w"
    and "running (snd (plIO p w)) = running w"
  using assms unfolding platform_laws_def by blast+

lemma do_attempts_running:
  assumes laws: "platform_laws p running made"
  shows "running (snd (do_attempts (plNet p) rq k w)) = running w"
proof (induction "plNet p" rq k w rule: do_attempts.induct)
  case (1 rq k w)
  obtain out w1 where D: "netDo (plNet p) rq w = (out, w1)" by (rule prod.exhaust)
  have w1: "running w1 = running w" using platform_lawsD(2) [OF laws, of rq w] D by simp
  have once: "doOnce (plNet p) rq w = (outcome_result out, w1)" by (simp add: doOnce_def D)
  show ?case
  proof (cases "isl (hrBody (outcome_result out)) \<and> \<not> (k \<ge> requestMaxAttempts \<or> \<not> shouldRetry (hrStatus (outcome_result out)))")
    case True
    then obtain e where e: "hrBody (outcome_result out) = Inl e" by (cases "hrBody (outcome_result out)") auto
    have "do_attempts (plNet p) rq k w = do_attempts (plNet p) rq (Suc k) (netSleep (plNet p) (backoffDelay k) w1)"
      using True by (subst do_attempts.simps) (simp add: once e)
    then show ?thesis using 1 [OF once [symmetric] e] True w1 platform_lawsD(3) [OF laws] by simp
  next
    case False
    then have "do_attempts (plNet p) rq k w = (outcome_result out, w1)"
      by (subst do_attempts.simps) (auto simp: once split: sum.splits)
    then show ?thesis using w1 by simp
  qed
qed

lemma request_running:
  "platform_laws p running made \<Longrightarrow> running (snd (doWithHeaders (plNet p) rq w)) = running w"
  by (simp add: doWithHeaders_def do_attempts_running)

lemma node_calls_running:
  assumes "platform_laws p running made"
  shows "running (ndWorld (snd (node_now p n))) = running (ndWorld n)"
    and "running (ndWorld (snd (node_GetUsers p n))) = running (ndWorld n)"
    and "running (ndWorld (snd (node_GetNodeConfig p n))) = running (ndWorld n)"
    and "running (ndWorld (snd (node_GetUserAlive p n))) = running (ndWorld n)"
    and "running (ndWorld (snd (node_SendAlive p alive n))) = running (ndWorld n)"
    and "running (ndWorld (node_UpdateUsers p us n)) = running (ndWorld n)"
    and "ndWorld (snd (build_alive n)) = ndWorld n"
  using request_running [OF assms] platform_lawsD(4) [OF assms]
  by (simp_all add: node_now_def node_GetUsers_def node_GetNodeConfig_def node_GetUserAlive_def node_SendAlive_def
      node_UpdateUsers_def build_alive_def GetUsers_def GetNodeConfig_def GetUserAlive_def SendAlive_def case_prod_beta
      split: sum.split option.split)

lemma node_Report_running:
  assumes "platform_laws p running made"
  shows "running (ndWorld (snd (node_Report p n))) = running (ndWorld n)"
proof -
  have "running (snd (PushTraffic (plNet p) c data w)) = running w" for c data w
    using request_running [OF assms] by (simp add: PushTraffic_def case_prod_beta split: sum.split)
  then show ?thesis using platform_lawsD(4,5) [OF assms]
    by (simp add: node_Report_def case_prod_beta Let_def split: option.split)
qed

definition node_ok :: "('b, 'w, 'r, 'o) platform \<Rightarrow> ('w \<Rightarrow> 'b set) \<Rightarrow> ('b \<Rightarrow> ('r, 'o) options) \<Rightarrow> ('b, 'w) node \<Rightarrow> bool" where
  "node_ok p running made n \<longleftrightarrow>
     (platform_laws p running made \<longrightarrow> engine_ok (plBox p) running made (ndEngine n, ndWorld n))"

lemma node_ok_same_engine:
  assumes "same_engine n n'" and "platform_laws p running made \<Longrightarrow> running (ndWorld n') = running (ndWorld n)"
    and "node_ok p running made n"
  shows "node_ok p running made n'"
proof -
  obtain x where "ndEngine n' = (ndEngine n)\<lparr>engStats := x\<rparr>" using assms(1) by (auto simp: same_engine_def)
  then show ?thesis using assms(2,3) by (auto simp: node_ok_def engine_ok_def built_from_def split: option.splits)
qed

interpretation node_inv: env_invariant "node_env p" "node_ok p running made"
  for p :: "('b, 'w, 'r, 'o) platform" and running made
proof
  fix n :: "('b, 'w) node" and cfg us level alive
  assume ok: "node_ok p running made n"
  note step = node_ok_same_engine [OF _ _ ok]
  show "node_ok p running made (snd (envNow (node_env p) n))"
    by (simp add: node_env_def) (rule step [OF node_calls_same_engine(1)], rule node_calls_running(1))
  show "node_ok p running made (snd (envGetUsers (node_env p) n))"
    by (simp add: node_env_def) (rule step [OF node_calls_same_engine(2)], rule node_calls_running(2))
  show "node_ok p running made (snd (envGetNodeConfig (node_env p) n))"
    by (simp add: node_env_def) (rule step [OF node_calls_same_engine(3)], rule node_calls_running(3))
  show "node_ok p running made (snd (envGetUserAlive (node_env p) n))"
    by (simp add: node_env_def) (rule step [OF node_calls_same_engine(4)], rule node_calls_running(4))
  show "node_ok p running made (envUpdateUsers (node_env p) us n)"
    by (simp add: node_env_def) (rule step [OF node_calls_same_engine(6)], rule node_calls_running(6))
  show "node_ok p running made (envUpdateAliveList (node_env p) alive n)"
    using ok by (simp add: node_env_def node_ok_def)
  show "node_ok p running made (envReport (node_env p) n)"
    by (simp add: node_env_def) (rule step [OF node_Report_same_engine], rule node_Report_running)
  show "node_ok p running made (snd (envReloadUsers (node_env p) cfg us level n))"
  proof -
    obtain r e w where R: "ReloadUsers (plBox p) cfg us level (ndEngine n, ndWorld n) = (r, e, w)" by (rule prod_cases3)
    then show ?thesis using ok ReloadUsers_outcome [OF platform_lawsD(1) _ R]
      by (simp add: node_env_def node_ReloadUsers_def node_ok_def)
  qed
qed

section \<open>Reachable nodes\<close>

text \<open>
  A node that has started, after ticks in any order. Between ticks connections come and go,
  which changes the limiter and the counters in ways that are left open here, and the
  environment goes on by itself, as \<open>evolves\<close> says.
\<close>

inductive reachable_node ::
  "('b, 'w, 'r, 'o) platform \<Rightarrow> ('w \<Rightarrow> 'w \<Rightarrow> bool) \<Rightarrow> config \<Rightarrow> fs \<Rightarrow> 'w \<Rightarrow> ('b, 'w) node \<Rightarrow> bool"
  for p evolves cfg f w where
  started: "node_Start p (NewNode cfg f w) = Returns (None, n) \<Longrightarrow> reachable_node p evolves cfg f w n"
| ticked: "reachable_node p evolves cfg f w n \<Longrightarrow> node_tick p t n = Returns n' \<Longrightarrow> reachable_node p evolves cfg f w n'"
| served: "reachable_node p evolves cfg f w n \<Longrightarrow> evolves (ndWorld n) w' \<Longrightarrow>
    reachable_node p evolves cfg f w
      (n\<lparr>ndLimiter := l, ndEngine := (ndEngine n)\<lparr>engStats := st\<rparr>, ndWorld := w'\<rparr>)"

definition node_settled ::
  "('b, 'w, 'r, 'o) platform \<Rightarrow> ('w \<Rightarrow> 'b set) \<Rightarrow> ('b \<Rightarrow> ('r, 'o) options) \<Rightarrow> ('b, 'w) node \<Rightarrow> bool" where
  "node_settled p running made n \<longleftrightarrow> node_ok p running made n \<and>
     (case ndSyncer n of None \<Rightarrow> False | Some s \<Rightarrow> hasLimiter s \<and> in_step node_recorded (s, n))"

lemma in_step_recorded: "in_step node_recorded (s, n') \<longleftrightarrow> in_step node_recorded (s, n)"
  if "node_recorded n' = node_recorded n"
  using that by (simp add: in_step_def)

lemma node_settled_same_engine:
  assumes "same_engine n n'" and "platform_laws p running made \<Longrightarrow> running (ndWorld n') = running (ndWorld n)"
    and "node_settled p running made n"
  shows "node_settled p running made n'"
  using assms node_ok_same_engine [OF assms(1,2)] in_step_recorded [OF same_engine_recorded [OF assms(1)]]
  by (auto simp: node_settled_def same_engine_def split: option.splits)

lemma node_sync_settled:
  assumes "node_settled p running made n"
  shows "node_sync p n \<noteq> Panics n'" and "node_sync p n = Returns n' \<Longrightarrow> node_settled p running made n'"
proof -
  obtain s where s: "ndSyncer n = Some s" "hasLimiter s" "in_step node_recorded (s, n)" and ok: "node_ok p running made n"
    using assms by (auto simp: node_settled_def split: option.splits)
  have live: "Sync (node_env p) (s, n) \<noteq> Panics sn" for sn
    using Sync_panics [of "node_env p" s n sn] s(2) by blast
  then show "node_sync p n \<noteq> Panics n'"
    by (simp add: node_sync_def s(1) split: outcome.split prod.split)
  obtain s' n1 where R: "Sync (node_env p) (s, n) = Returns (s', n1)"
    using live by (cases "Sync (node_env p) (s, n)") auto
  have "node_ok p running made n1" using node_inv.Sync_inv [OF ok R] by simp
  moreover have "in_step node_recorded (s', n1)" by (rule node.Sync_in_step [OF s(3) R])
  moreover have "hasLimiter s'" using Sync_flags [OF R] s(2) by simp
  ultimately show "node_settled p running made n'" if "node_sync p n = Returns n'"
    using that R by (auto simp: node_sync_def s(1) node_settled_def node_ok_def in_step_def node_recorded_def)
qed

lemma node_tick_settled:
  assumes settled: "node_settled p running made n"
  shows "node_tick p t n \<noteq> Panics n'" and "node_tick p t n = Returns n' \<Longrightarrow> node_settled p running made n'"
proof -
  have report: "node_settled p running made (snd (node_Report p n))"
    by (rule node_settled_same_engine [OF node_Report_same_engine node_Report_running settled])
  have built: "node_settled p running made (snd (build_alive n))"
    by (rule node_settled_same_engine [OF node_calls_same_engine(7) _ settled]) (simp add: node_calls_running(7))
  have alive: "node_settled p running made (node_alive p n)"
    using node_settled_same_engine [OF node_calls_same_engine(5) node_calls_running(5) built]
    by (simp add: node_alive_def case_prod_beta)
  show "node_tick p t n \<noteq> Panics n'" using node_sync_settled(1) [OF settled] by (cases t) auto
  show "node_tick p t n = Returns n' \<Longrightarrow> node_settled p running made n'"
    using node_sync_settled(2) [OF settled] report alive by (cases t) auto
qed

section \<open>Starting\<close>

lemma engine_Start_result:
  assumes laws: "box_laws api running made" and idle: "running w = {}" "instance_box e = None"
    and run: "engine_Start api cfg us level (e, w) = (res, e', w')"
  shows "engine_ok api running made (e', w')"
    and "res = None \<Longrightarrow> e' = install (the (instance_box e')) cfg us level e \<and> instance_box e' \<noteq> None"
    and "res = Some err \<Longrightarrow> e' = e"
proof -
  note L = box_lawsD [OF laws]
  obtain r w1 where C: "createBox api e cfg us level w = (r, w1)" by (rule prod.exhaust)
  have w1: "running w1 = {}" using createBox_result(1) [OF laws C] idle by simp
  have "engine_ok api running made (e', w')
    \<and> (res = None \<longrightarrow> e' = install (the (instance_box e')) cfg us level e \<and> instance_box e' \<noteq> None)
    \<and> (res \<noteq> None \<longrightarrow> e' = e)"
  proof (cases r)
    case (Inl err)
    then have "res = Some (CreateFailed err)" "e' = e" "w' = w1" using run C by (simp_all add: engine_Start_def)
    then show ?thesis using idle w1 by (simp add: engine_ok_def)
  next
    case (Inr b)
    obtain sr w2 where S: "boxStart api b w1 = (sr, w2)" by (rule prod.exhaust)
    show ?thesis
    proof (cases sr)
      case None
      then have "res = None" "e' = install b cfg us level e" "w' = w2" using run C Inr S by (simp_all add: engine_Start_def)
      moreover have "running w2 = {b}" using L(4) S None w1 by simp
      ultimately show ?thesis using createBox_result(2) [OF laws C Inr]
        by (simp add: engine_ok_def install_def built_from_def)
    next
      case (Some err)
      then have "res = Some (StartFailed err)" "e' = e" "w' = snd (boxClose api b w2)"
        using run C Inr S by (simp_all add: engine_Start_def)
      then show ?thesis using L(5) S Some w1 idle by (simp add: engine_ok_def)
    qed
  qed
  then show "engine_ok api running made (e', w')"
    "res = None \<Longrightarrow> e' = install (the (instance_box e')) cfg us level e \<and> instance_box e' \<noteq> None"
    "res = Some err \<Longrightarrow> e' = e" by auto
qed

lemma node_attach_result:
  "ndEngine (node_attach p nc us n) = ndEngine n"
  "platform_laws p running made \<Longrightarrow> running (ndWorld (node_attach p nc us n)) = running (ndWorld n)"
  "ndSyncer (node_attach p nc us n) =
     Some (SetLimiter True (SetInitialHash us (NewUserSyncer (Some nc) (LogLevel (ndCfg n)) True)))"
proof -
  obtain alive n1 where A: "build_alive n = (alive, n1)" by (rule prod.exhaust)
  obtain r n2 where S: "node_SendAlive p alive n1 = (r, n2)" by (rule prod.exhaust)
  obtain io w where I: "plIO p (ndWorld n2) = (io, w)" by (rule prod.exhaust)
  obtain t f where R: "NewTrafficReporterWithLimit io (TrafficStateFile (ndCfg n2)) (TrafficPendingMaxUsers (ndCfg n2))
      (ndFiles n2) = (t, f)" by (rule prod.exhaust)
  have n1: "ndEngine n1 = ndEngine n" "ndCfg n1 = ndCfg n" "ndWorld n1 = ndWorld n"
    using A by (auto simp: build_alive_def split: prod.splits)
  have n2: "ndEngine n2 = ndEngine n1" "ndCfg n2 = ndCfg n1"
    using S by (auto simp: node_SendAlive_def split: prod.splits)
  note eq = node_attach_def A S I R [unfolded n2 n1]
  show "ndEngine (node_attach p nc us n) = ndEngine n" using n1 n2 by (simp add: eq)
  show "ndSyncer (node_attach p nc us n) =
      Some (SetLimiter True (SetInitialHash us (NewUserSyncer (Some nc) (LogLevel (ndCfg n)) True)))"
    using n1 n2 by (simp add: eq)
  show "running (ndWorld (node_attach p nc us n)) = running (ndWorld n)" if laws: "platform_laws p running made"
    using platform_lawsD(5) [OF laws, of "ndWorld n2"] node_calls_running(5) [OF laws, of alive n1] n1 n2
    by (simp add: eq)
qed

text \<open>A start, phase by phase.\<close>

lemma node_Start_cases:
  assumes "node_Start p n = out"
  obtains
    (no_config) err n1 where "node_GetNodeConfig p n = (Inl err, n1)" "out = Returns (Some (PanelFailed err), n1)"
  | (dies) n1 where "node_GetNodeConfig p n = (Inr None, n1)" "out = Panics (None, n1)"
  | (no_users) nc n1 err n2 where "node_GetNodeConfig p n = (Inr (Some nc), n1)"
      "node_GetUsers p (n1\<lparr>ndCfg := choose_intervals nc (ndCfg n1)\<rparr>) = (Inl err, n2)"
      "out = Returns (Some (PanelFailed err), n2)"
  | (ready) nc n1 us n2 n3 where "node_GetNodeConfig p n = (Inr (Some nc), n1)"
      "node_GetUsers p (n1\<lparr>ndCfg := choose_intervals nc (ndCfg n1)\<rparr>) = (Inr us, n2)"
      "refreshAliveCounts (node_env p) LimiterPointer (node_UpdateUsers p us n2) = Returns n3"
      "out = (case engine_Start (plBox p) (Some nc) us (LogLevel (ndCfg n3)) (ndEngine n3, ndWorld n3) of
           (Some err, e, w) \<Rightarrow> Returns (Some (EngineFailed err), n3\<lparr>ndEngine := e, ndWorld := w\<rparr>)
         | (None, e, w) \<Rightarrow> Returns (None, node_attach p nc us (n3\<lparr>ndEngine := e, ndWorld := w\<rparr>)))"
proof (cases "node_GetNodeConfig p n")
  case C: (Pair r n1)
  show ?thesis
  proof (cases r)
    case (Inl err)
    then show ?thesis using no_config C assms by (simp add: node_Start_def)
  next
    case cfg: (Inr c)
    show ?thesis
    proof (cases c)
      case None
      then show ?thesis using dies C cfg assms by (simp add: node_Start_def)
    next
      case c: (Some nc)
      obtain u n2 where U: "node_GetUsers p (n1\<lparr>ndCfg := choose_intervals nc (ndCfg n1)\<rparr>) = (u, n2)"
        by (rule prod.exhaust)
      show ?thesis
      proof (cases u)
        case (Inl err)
        then show ?thesis using no_users C cfg c U assms by (simp add: node_Start_def Let_def)
      next
        case (Inr us)
        have "\<exists>n3. refreshAliveCounts (node_env p) LimiterPointer (node_UpdateUsers p us n2) = Returns n3"
          by (simp add: refreshAliveCounts_def split: prod.split sum.split)
        then obtain n3 where "refreshAliveCounts (node_env p) LimiterPointer (node_UpdateUsers p us n2) = Returns n3" ..
        then show ?thesis using ready C cfg c U Inr assms by (simp add: node_Start_def Let_def)
      qed
    qed
  qed
qed

lemma same_engine_trans: "same_engine n n1 \<Longrightarrow> same_engine n1 n2 \<Longrightarrow> same_engine n n2"
  by (auto simp: same_engine_def) (metis engine.surjective engine.update_convs(3))+

text \<open>Everything before sing-box is started leaves the engine alone.\<close>

lemma prepared_same_engine:
  assumes "node_GetNodeConfig p n = (Inr (Some nc), n1)"
    and "node_GetUsers p (n1\<lparr>ndCfg := c\<rparr>) = (Inr us, n2)"
    and "refreshAliveCounts (node_env p) LimiterPointer (node_UpdateUsers p us n2) = Returns n3"
  shows "same_engine n n3" and "platform_laws p running made \<Longrightarrow> running (ndWorld n3) = running (ndWorld n)"
proof -
  obtain r n' where A: "envGetUserAlive (node_env p) (node_UpdateUsers p us n2) = (r, n')" by (rule prod.exhaust)
  have n': "n' = snd (node_GetUserAlive p (node_UpdateUsers p us n2))"
    using A by (cases "node_GetUserAlive p (node_UpdateUsers p us n2)") (simp add: node_env_def)
  have n3: "n3 = n' \<or> (\<exists>alive. n3 = n'\<lparr>ndLimiter := UpdateAliveList alive (ndLimiter n')\<rparr>)"
    using assms(3) A by (auto simp: refreshAliveCounts_def node_env_def split: sum.splits)
  have "same_engine n n1" using node_calls_same_engine(3) [of n p] assms(1) by simp
  then have "same_engine n (n1\<lparr>ndCfg := c\<rparr>)" by (simp add: same_engine_def)
  moreover have "same_engine (n1\<lparr>ndCfg := c\<rparr>) n2"
    using node_calls_same_engine(2) [of "n1\<lparr>ndCfg := c\<rparr>" p] assms(2) by simp
  ultimately have "same_engine n n'"
    unfolding n' using node_calls_same_engine(4,6) by (blast intro: same_engine_trans)
  then show "same_engine n n3" using n3 by (auto simp: same_engine_def)
  show "running (ndWorld n3) = running (ndWorld n)" if laws: "platform_laws p running made"
  proof -
    note keep = node_calls_running [OF laws]
    have "running (ndWorld n3) = running (ndWorld n')" using n3 by auto
    also have "\<dots> = running (ndWorld n2)" unfolding n' using keep(4,6) by simp
    also have "\<dots> = running (ndWorld n1)" using keep(2) [of "n1\<lparr>ndCfg := c\<rparr>"] assms(2) by simp
    also have "\<dots> = running (ndWorld n)" using keep(3) [of n] assms(1) by simp
    finally show ?thesis .
  qed
qed

lemma node_Start_settled:
  assumes laws: "platform_laws p running made" and idle: "running w = {}"
    and start: "node_Start p (NewNode cfg f w) = Returns (None, n)"
  shows "node_settled p running made n"
  using start
proof (cases rule: node_Start_cases)
  case (no_config err n1)
  then show ?thesis by simp
next
  case (dies n1)
  then show ?thesis by simp
next
  case (no_users nc n1 err n2)
  then show ?thesis by simp
next
  case (ready nc n1 us n2 n3)
  note prep = prepared_same_engine [OF ready(1-3)]
  have idle3: "instance_box (ndEngine n3) = None" "running (ndWorld n3) = {}"
    using same_engine_instance [OF prep(1)] prep(2) [OF laws] idle by (simp_all add: NewNode_def NewEngine_def)
  obtain r e w' where E: "engine_Start (plBox p) (Some nc) us (LogLevel (ndCfg n3)) (ndEngine n3, ndWorld n3) = (r, e, w')"
    by (rule prod_cases3)
  note res = engine_Start_result [OF platform_lawsD(1) [OF laws] idle3(2,1) E]
  let ?n = "n3\<lparr>ndEngine := e, ndWorld := w'\<rparr>"
  have r: "r = None" and n: "n = node_attach p nc us ?n" using ready(4) E by (auto split: option.splits)
  obtain b where "e = install b (Some nc) us (LogLevel (ndCfg n3)) (ndEngine n3)" using res(2) [OF r] by blast
  then have "node_recorded n = (Some nc, us)" by (simp add: node_recorded_def n node_attach_result(1) install_def)
  moreover have "engine_ok (plBox p) running made (ndEngine n, ndWorld n)"
    using res(1) node_attach_result(2) [OF laws, of nc us ?n] by (simp add: n node_attach_result(1) engine_ok_def)
  ultimately show ?thesis
    by (simp add: node_settled_def node_ok_def in_step_def n node_attach_result(3) SetLimiter_def SetInitialHash_def NewUserSyncer_def)
qed

lemma reachable_settled:
  assumes "platform_laws p running made" and "running w = {}"
    and "\<And>v v'. evolves v v' \<Longrightarrow> running v' = running v"
    and "reachable_node p evolves cfg f w n"
  shows "node_settled p running made n"
  using assms(4)
proof (induction rule: reachable_node.induct)
  case (started n)
  then show ?case by (rule node_Start_settled [OF assms(1,2)])
next
  case (ticked n t n')
  then show ?case using node_tick_settled(2) by blast
next
  case (served n w' l st)
  show ?case
    by (rule node_settled_same_engine [OF _ _ served.IH])
      (simp_all add: same_engine_def assms(3) [OF served.hyps(2)])
qed


section \<open>What a synchronisation achieves\<close>

text \<open>The two fetches of a synchronisation that succeeds in them.\<close>

definition panel_serves ::
  "('b, 'w, 'r, 'o) platform \<Rightarrow> ('b, 'w) node \<Rightarrow> panel_user list \<Rightarrow> node_config \<Rightarrow> bool" where
  "panel_serves p n us nc \<longleftrightarrow>
     (\<exists>n1. node_GetUsers p n = (Inr us, n1) \<and> fst (node_GetNodeConfig p (node_UpdateUsers p us n1)) = Inr (Some nc))"

lemma panel_serves_fetch:
  assumes "panel_serves p n us nc" and "hasLimiter s"
  obtains n1 n2 where "envGetUsers (node_env p) n = (Inr us, n1)" "sync_config (node_env p) s us n1 = (Some nc, n2)"
proof -
  obtain n1 n2 where "node_GetUsers p n = (Inr us, n1)"
    "node_GetNodeConfig p (node_UpdateUsers p us n1) = (Inr (Some nc), n2)"
    using assms(1) unfolding panel_serves_def by (metis prod.collapse)
  then show ?thesis using assms(2) by (intro that [of n1 n2]) (simp_all add: node_env_def sync_config_def)
qed


text \<open>
  C38: A node that serves nobody can report that all is well. When a reload fails and the
  rollback fails too, no instance runs, but the digests stay those of the configuration
  that could not be restored. If the panel then goes back to that configuration, each tick
  finds nothing to do and reports success, and sing-box stays down.
\<close>

theorem dead_engine_reported_ok:
  assumes "platform_laws p running made" and "running w = {}"
    and "\<And>v v'. evolves v v' \<Longrightarrow> running v' = running v"
    and "reachable_node p evolves cfg f w n"
    and dead: "instance_box (ndEngine n) = None"
    and "panel_serves p n us nc"
    and known: "hashUsers us = hashUsers (snd (node_recorded n))" "hashConfig (Some nc) = hashConfig (fst (node_recorded n))"
  shows "\<exists>n' s'. node_tick p SyncTick n = Returns n' \<and> ndSyncer n' = Some s' \<and> lastSyncOK s'
    \<and> lastSyncError s' = [] \<and> instance_box (ndEngine n') = None \<and> running (ndWorld n') = {}"
proof -
  have settled: "node_settled p running made n" by (rule reachable_settled [OF assms(1-4)])
  then obtain s where s: "ndSyncer n = Some s" "hasLimiter s" "in_step node_recorded (s, n)"
    by (auto simp: node_settled_def split: option.splits)
  obtain n1 n2 where fetch: "envGetUsers (node_env p) n = (Inr us, n1)" "sync_config (node_env p) s us n1 = (Some nc, n2)"
    using panel_serves_fetch [OF assms(6) s(2)] .
  have "\<not> sync_due s us nc" using s(3) known by (auto simp: sync_due_def in_step_def split: prod.splits)
  then have run: "Sync (node_env p) (s, n) =
      Returns (markSync (node_env p) True [] (int (length us)) (hashConfig (Some nc)) (s, n2))"
    by (simp add: Sync_phases fetch)
  obtain s' n3 where M: "markSync (node_env p) True [] (int (length us)) (hashConfig (Some nc)) (s, n2) = (s', n3)"
    by (rule prod.exhaust)
  note F = markSync_fields [OF M]
  have tick: "node_tick p SyncTick n = Returns (n3\<lparr>ndSyncer := Some s'\<rparr>)" by (simp add: node_sync_def s(1) run M)
  have "same_engine n n1" using fetch(1) node_calls_same_engine(2) [of n p]
    by (cases "node_GetUsers p n") (simp add: node_env_def)
  moreover have "same_engine n1 n2"
    using fetch(2) s(2) node_calls_same_engine(3) [of "node_UpdateUsers p us n1" p] node_calls_same_engine(6) [of n1 p us]
    by (cases "node_GetNodeConfig p (node_UpdateUsers p us n1)")
      (auto simp: node_env_def sync_config_def split: sum.splits intro: same_engine_trans)
  moreover have "same_engine n2 n3" using F node_calls_same_engine(1) [of n2 p] by (simp add: node_env_def)
  ultimately have "same_engine n n3" by (blast intro: same_engine_trans)
  then have down: "instance_box (ndEngine n3) = None" using same_engine_instance dead by metis
  moreover have "running (ndWorld n3) = {}"
    using node_tick_settled(2) [OF settled tick] down assms(1) by (auto simp: node_settled_def node_ok_def engine_ok_def)
  ultimately show ?thesis using tick F by simp
qed

end
