(* ===== verification/Node_Billing.thy ===== *)
theory Node_Billing
  imports Node_Spec Panel_Text
begin

text \<open>
  Traffic from the counters to the panel's books. The panel is outside the program; what is
  assumed of it is that it adds the amounts of a push to its books when it accepts the push,
  and only then. Under this assumption the books, what is pending and what the counters hold
  add up to the traffic carried, over the whole life of a node.
\<close>

section \<open>The panel's books\<close>

text \<open>What the body of a push states for a user, as the panel reads it.\<close>

definition stated :: "dir \<Rightarrow> int \<Rightarrow> string \<Rightarrow> int64" where
  "stated d uid body =
     (case parse_json body of
        Some (JObj ms) \<Rightarrow>
          (case map_of ms (Itoa uid) of
             Some (JArr [JNum up, JNum down]) \<Rightarrow>
               (case Atoi (case d of Up \<Rightarrow> up | Down \<Rightarrow> down) of Some n \<Rightarrow> word_of_int n | None \<Rightarrow> 0)
           | _ \<Rightarrow> 0)
      | _ \<Rightarrow> 0)"

definition accepted :: "http_outcome \<Rightarrow> bool" where
  "accepted out \<longleftrightarrow> (case out of Response status etag body \<Rightarrow> status = 200 \<or> status = 304 | _ \<Rightarrow> False)"

lemma accepted_result: "isl (hrBody (outcome_result out)) \<longleftrightarrow> \<not> accepted out"
  by (auto simp: accepted_def outcome_result_def split: http_outcome.split)

lemma stated_push:
  assumes "distinct (map UID ts)"
  shows "stated d uid (push_payload ts) = billed d uid ts"
proof -
  obtain ms where parse: "parse_json (push_payload ts) = Some (JObj ms)" and sorted: "sorted_wrt (<) (map fst ms)"
    and set: "set ms = (\<lambda>t. (Itoa (UID t), amounts_json t)) ` set ts"
    using push_states_amounts [OF assms] by blast
  have dist: "distinct (map fst ms)" using sorted by (simp only: strict_sorted_iff)
  show ?thesis
  proof (cases "uid \<in> UID ` set ts")
    case True
    then obtain t where t: "t \<in> set ts" "UID t = uid" by blast
    have "map_of ms (Itoa uid) = Some (amounts_json t)"
      using dist set t by (auto simp: map_of_eq_Some_iff)
    then have "stated d uid (push_payload ts) = td_amount d t"
      by (cases d) (simp_all add: stated_def parse amounts_json_def Atoi_Itoa)
    moreover have "filter (\<lambda>t. UID t = uid) ts = [t]"
      using assms t by (induction ts) (auto simp: filter_empty_conv image_iff)
    ultimately show ?thesis by (simp add: billed_def)
  next
    case False
    then have "map_of ms (Itoa uid) = None" by (auto simp: map_of_eq_None_iff set Itoa_inject)
    moreover have "filter (\<lambda>t. UID t = uid) ts = []" using False by (auto simp: filter_empty_conv)
    ultimately show ?thesis by (simp add: stated_def parse billed_def)
  qed
qed

text \<open>
  \<open>ledger\<close> are the panel's books in a state of the environment, \<open>url\<close> the endpoint for pushes.
  Nothing but an accepted push changes them.
\<close>

definition push_effect :: "string \<Rightarrow> request \<Rightarrow> bool \<Rightarrow> dir \<Rightarrow> int \<Rightarrow> int64" where
  "push_effect url rq ok d uid =
     (if ok \<and> rqMethod rq = ''POST'' \<and> rqEndpoint rq = url then stated d uid (rqBody rq) else 0)"

definition keeps_ledger ::
  "('b, 'w, 'r, 'o) platform \<Rightarrow> string \<Rightarrow> ('w \<Rightarrow> dir \<Rightarrow> int \<Rightarrow> int64) \<Rightarrow> bool" where
  "keeps_ledger p url ledger \<longleftrightarrow>
     (\<forall>rq w d uid. ledger (snd (netDo (plNet p) rq w)) d uid =
        ledger w d uid + push_effect url rq (accepted (fst (netDo (plNet p) rq w))) d uid) \<and>
     (\<forall>w. (\<forall>t. ledger (netSleep (plNet p) t w) = ledger w) \<and>
          ledger (snd (plNow p w)) = ledger w \<and> ledger (snd (plIO p w)) = ledger w \<and>
          (\<forall>opts. ledger (snd (boxNew (plBox p) opts w)) = ledger w) \<and>
          (\<forall>b. ledger (boxAppendTracker (plBox p) b w) = ledger w \<and>
               ledger (snd (boxStart (plBox p) b w)) = ledger w \<and>
               ledger (snd (boxClose (plBox p) b w)) = ledger w))"

lemma keeps_ledgerD:
  assumes "keeps_ledger p url ledger"
  shows "netDo (plNet p) rq w = (out, w') \<Longrightarrow> ledger w' d uid = ledger w d uid + push_effect url rq (accepted out) d uid"
    and "ledger (netSleep (plNet p) t w) = ledger w"
    and "ledger (snd (plNow p w)) = ledger w" "ledger (snd (plIO p w)) = ledger w"
    and "ledger (snd (boxNew (plBox p) opts w)) = ledger w"
    and "ledger (boxAppendTracker (plBox p) b w) = ledger w"
    and "ledger (snd (boxStart (plBox p) b w)) = ledger w"
    and "ledger (snd (boxClose (plBox p) b w)) = ledger w"
proof -
  show "netDo (plNet p) rq w = (out, w') \<Longrightarrow> ledger w' d uid = ledger w d uid + push_effect url rq (accepted out) d uid"
    using assms [unfolded keeps_ledger_def, THEN conjunct1, rule_format, where rq = rq and w = w and d = d and uid = uid]
    by simp
qed (use assms [unfolded keeps_ledger_def, THEN conjunct2] in blast)+

text \<open>A request with its repetitions changes the books at most once, when it succeeds.\<close>

lemma do_attempts_ledger:
  assumes laws: "keeps_ledger p url ledger"
  shows "do_attempts (plNet p) rq k w = (r, w') \<Longrightarrow>
     ledger w' d uid = ledger w d uid + push_effect url rq (\<not> isl (hrBody r)) d uid"
proof (induction "plNet p" rq k w rule: do_attempts.induct)
  case (1 rq k w)
  obtain out w1 where D: "netDo (plNet p) rq w = (out, w1)" by (rule prod.exhaust)
  have once: "doOnce (plNet p) rq w = (outcome_result out, w1)" by (simp add: doOnce_def D)
  note w1 = keeps_ledgerD(1) [OF laws D, of d uid]
  let ?retry = "isl (hrBody (outcome_result out)) \<and> \<not> (k \<ge> requestMaxAttempts \<or> \<not> shouldRetry (hrStatus (outcome_result out)))"
  show ?case
  proof (cases ?retry)
    case True
    then obtain e where e: "hrBody (outcome_result out) = Inl e" by (cases "hrBody (outcome_result out)") auto
    have "do_attempts (plNet p) rq (Suc k) (netSleep (plNet p) (backoffDelay k) w1) = (r, w')"
      using 1(2) True by (subst (asm) do_attempts.simps) (simp add: once e)
    from 1(1) [OF once [symmetric] e _ this] have "ledger w' d uid =
        ledger (netSleep (plNet p) (backoffDelay k) w1) d uid + push_effect url rq (\<not> isl (hrBody r)) d uid"
      using True by simp
    moreover have "\<not> accepted out" using True accepted_result by blast
    ultimately show ?thesis using w1 keeps_ledgerD(2) [OF laws] by (simp add: push_effect_def)
  next
    case False
    then have "do_attempts (plNet p) rq k w = (outcome_result out, w1)"
      by (subst do_attempts.simps) (auto simp: once split: sum.splits)
    then have "r = outcome_result out" "w' = w1" using 1(2) by simp_all
    then show ?thesis using w1 by (simp add: accepted_result)
  qed
qed

lemma request_ledger:
  "keeps_ledger p url ledger \<Longrightarrow> ledger (snd (doWithHeaders (plNet p) rq w)) d uid =
     ledger w d uid + push_effect url rq (\<not> isl (hrBody (fst (doWithHeaders (plNet p) rq w)))) d uid"
  unfolding doWithHeaders_def by (rule do_attempts_ledger) simp_all

lemma other_endpoint: "endpoint c alive_path \<noteq> endpoint c push_path"
  by (simp add: endpoint_def alive_path_def push_path_def)

lemma other_requests_ledger:
  assumes "keeps_ledger p (endpoint c push_path) ledger"
  shows "ledger (snd (doWithHeaders (plNet p) (get_request c' path etag) w)) = ledger w"
    and "ledger (snd (doWithHeaders (plNet p) (post_request c alive_path body) w)) = ledger w"
  using request_ledger [OF assms] other_endpoint [of c]
  by (auto simp: fun_eq_iff push_effect_def get_request_def post_request_def)

lemma push_ledger:
  assumes "keeps_ledger p (endpoint c push_path) ledger" and "distinct (map UID ts)"
    and "PushTraffic (plNet p) c ts w = (err, w')"
  shows "ledger w' d uid = ledger w d uid + (if err = None then billed d uid ts else 0)"
proof -
  obtain r w1 where D: "doWithHeaders (plNet p) (post_request c push_path (push_payload ts)) w = (r, w1)"
    by (rule prod.exhaust)
  then have "w' = w1" "err = None \<longleftrightarrow> \<not> isl (hrBody r)"
    using assms(3) by (auto simp: PushTraffic_def split: sum.splits)
  then show ?thesis
    using request_ledger [OF assms(1), of "post_request c push_path (push_payload ts)" w d uid] D stated_push [OF assms(2)]
    by (simp add: push_effect_def post_request_def)
qed

section \<open>Reports that fit\<close>

text \<open>
  A report fits when the users owed are no more than the limit on pending users and no counter
  runs over. A report that fits leaves a state in which the next one does.
\<close>

definition fits :: "reporter \<Rightarrow> stats_tracker \<Rightarrow> bool" where
  "fits t s \<longleftrightarrow>
     int (length (fst (buildPushPayload (fst (fst (CollectTraffic s))) t))) \<le> maxPendingUsers t
     \<and> no_overflow t (fst (fst (CollectTraffic s)))"

lemma billed_member:
  assumes "distinct (map UID ts)" and "r \<in> set ts"
  shows "billed d (UID r) ts = td_amount d r"
proof -
  have "filter (\<lambda>t. UID t = UID r) ts = [r]"
    using assms by (induction ts) (auto simp: filter_empty_conv image_iff)
  then show ?thesis by (simp add: billed_def)
qed

lemma payload_empty:
  assumes "keyed (pending t)"
  shows "fst (buildPushPayload us t) = [] \<longleftrightarrow> (\<forall>d uid. pending_amount t d uid + reported d uid us = 0)"
proof
  assume "fst (buildPushPayload us t) = []"
  then show "\<forall>d uid. pending_amount t d uid + reported d uid us = 0"
    using payload_billed [OF assms, of _ _ us] by (simp add: pending_amount_def)
next
  assume zero: "\<forall>d uid. pending_amount t d uid + reported d uid us = 0"
  have False if "r \<in> set (fst (buildPushPayload us t))" for r
  proof -
    have "td_amount d r = 0" for d
      using billed_member [OF payload_sorted(2) [OF assms] that, of d] payload_billed [OF assms, of d "UID r" us] zero
      by (simp add: pending_amount_def)
    from this [of Up] this [of Down] have "Upload r = 0 \<and> Download r = 0" by simp
    moreover have "Upload r \<noteq> 0 \<or> Download r \<noteq> 0" using that by (auto simp: buildPushPayload_def Let_def)
    ultimately show False by blast
  qed
  then show "fst (buildPushPayload us t) = []" by (metis list.set_sel(1))
qed

lemma Report_limit:
  "Report collect push e now (t, f, c) = (acked, t', f', c') \<Longrightarrow> maxPendingUsers t' = maxPendingUsers t"
  by (auto simp: Report_def bufferPending_def Let_def split: prod.splits option.splits if_splits)

lemma payload_length: "length (fst (buildPushPayload [] t)) \<le> length (pending t)"
  by (simp add: buildPushPayload_def Let_def)

lemma Report_fits:
  assumes keyed: "keyed (pending t)" and ok: "gomap_ok (userTraffic s)" and fit: "fits t s"
    and run: "Report CollectTraffic push e now (t, f, s) = (acked, t', f', s')"
  shows "fits t' s'" and "gomap_ok (userTraffic s')" and "stats_outstanding s' d uid = 0"
    and "acked = [] \<Longrightarrow> fst (buildPushPayload (fst (fst (CollectTraffic s))) t) = [] \<Longrightarrow> pending_amount t' d uid = 0"
proof -
  let ?us = "fst (fst (CollectTraffic s))"
  let ?ps = "fst (buildPushPayload ?us t)"
  have few: "int (length ?ps) \<le> maxPendingUsers t" and small: "no_overflow t ?us" using fit by (simp_all add: fits_def)
  have s': "s' = snd (CollectTraffic s)" using run by (cases rule: Report_cases) simp_all
  show "gomap_ok (userTraffic s')" unfolding s' by (rule CollectTraffic_held(2) [OF ok])
  show "stats_outstanding s' d uid = 0" unfolding s' by (rule CollectTraffic_empties [OF ok])
  have drained: "fst (fst (CollectTraffic s')) = []"
  proof -
    have "fst (foldl collect_key ([], s') (map fst (userTraffic s'))) = []"
      unfolding s' by (rule collect_keys_empty) (rule CollectTraffic_held(1) [OF ok])
    then show ?thesis by (simp add: CollectTraffic_def case_prod_beta)
  qed
  have dist: "distinct (map UID ?ps)" by (rule payload_sorted(2) [OF keyed])
  have bill: "billed d uid ?ps = pending_amount t d uid + reported d uid ?us" for d uid
    unfolding pending_amount_def by (rule payload_billed [OF keyed])
  have sum: "sint (pending_amount t d uid + reported d uid ?us)
      = sint (pending_amount t d uid) + sint (reported d uid ?us)" for d uid
    using sint_add_nonneg [of "pending_amount t d uid" "sint (reported d uid ?us)"] no_overflowD [OF small, of d uid]
    by simp
  have "keyed (pending t') \<and> length (fst (buildPushPayload [] t')) \<le> length ?ps
      \<and> (\<forall>d uid. pending_amount t' d uid = 0 \<or> pending_amount t' d uid = pending_amount t d uid + reported d uid ?us)
      \<and> (acked = [] \<and> ?ps = [] \<longrightarrow> (\<forall>d uid. pending_amount t' d uid = 0))"
    using run
  proof (cases rule: Report_cases)
    case idle
    have "?ps = []" using idle(1) by (simp add: report_payload_def)
    then have "pending_amount t d uid + reported d uid ?us = 0" for d uid using payload_empty [OF keyed] by blast
    then have "pending_amount t d uid = 0" for d uid by (rule no_overflow_zero(1) [OF small])
    then have zero: "pending_amount t' d uid = 0" for d uid by (simp add: pending_amount_def idle(3))
    moreover have "keyed (pending t')" using keyed idle(3) by simp
    moreover from this have "fst (buildPushPayload [] t') = []" using payload_empty zero by simp
    ultimately show ?thesis by simp
  next
    case (failed err)
    have pend: "pending t' = map (\<lambda>t. (UID t, t)) ?ps"
      using failed(4) bufferPending_keeps(1) [OF dist few] by (simp add: report_payload_def)
    then have k: "keyed (pending t')" using keyed_of_list [OF dist] by simp
    have "pending_amount t' d uid = billed d uid ?ps" for d uid
      using billed_keyed [OF k, of d uid] pend by (simp add: pending_amount_def comp_def)
    then show ?thesis using k payload_length [of t'] pend bill failed(1) by (simp add: report_payload_def)
  next
    case pushed
    then have "pending_amount t' d uid = 0" for d uid by (simp add: pending_amount_def amount_def)
    then show ?thesis using pushed payload_length [of t'] by simp
  qed
  note T = this
  have "0 \<le> sint (pending_amount t' d uid) \<and> sint (pending_amount t' d uid) \<le> maxInt64" for d uid
  proof -
    consider "pending_amount t' d uid = 0" | "pending_amount t' d uid = pending_amount t d uid + reported d uid ?us"
      using T by blast
    then show ?thesis
    proof cases
      case 1
      then show ?thesis by (simp add: maxInt64_def)
    next
      case 2
      then show ?thesis using no_overflowD [OF small, of d uid] sum [of d uid] by simp
    qed
  qed
  then have "no_overflow t' []" by (simp add: no_overflow_def)
  then show "fits t' s'"
    using T few Report_limit [OF run] unfolding fits_def drained by simp
  show "acked = [] \<Longrightarrow> ?ps = [] \<Longrightarrow> pending_amount t' d uid = 0" using T by blast
qed

section \<open>The books of a node\<close>

text \<open>What the panel has booked, what is pending and what the counters hold.\<close>

definition books :: "('w \<Rightarrow> dir \<Rightarrow> int \<Rightarrow> int64) \<Rightarrow> ('b, 'w) node \<Rightarrow> dir \<Rightarrow> int \<Rightarrow> int64" where
  "books ledger n d uid = ledger (ndWorld n) d uid
     + (case ndReporter n of None \<Rightarrow> 0 | Some t \<Rightarrow> pending_amount t d uid)
     + stats_outstanding (engStats (ndEngine n)) d uid"

definition report_fits :: "('b, 'w) node \<Rightarrow> bool" where
  "report_fits n \<longleftrightarrow> (case ndReporter n of None \<Rightarrow> True | Some t \<Rightarrow> fits t (engStats (ndEngine n)))"

definition node_balanced ::
  "string \<Rightarrow> ('w \<Rightarrow> dir \<Rightarrow> int \<Rightarrow> int64) \<Rightarrow> (dir \<Rightarrow> int \<Rightarrow> int64) \<Rightarrow> ('b, 'w) node \<Rightarrow> bool" where
  "node_balanced url ledger owed n \<longleftrightarrow>
     endpoint (ndClient n) push_path = url \<and> gomap_ok (userTraffic (engStats (ndEngine n)))
     \<and> (case ndReporter n of None \<Rightarrow> False | Some t \<Rightarrow> keyed (pending t))
     \<and> (\<forall>d uid. books ledger n d uid = owed d uid)"

text \<open>Calls that leave the books alone.\<close>

definition same_books :: "('w \<Rightarrow> dir \<Rightarrow> int \<Rightarrow> int64) \<Rightarrow> ('b, 'w) node \<Rightarrow> ('b, 'w) node \<Rightarrow> bool" where
  "same_books ledger n n' \<longleftrightarrow> endpoint (ndClient n') push_path = endpoint (ndClient n) push_path
     \<and> ndReporter n' = ndReporter n \<and> engStats (ndEngine n') = engStats (ndEngine n)
     \<and> ledger (ndWorld n') = ledger (ndWorld n)"

lemma same_books_trans: "same_books ledger n n1 \<Longrightarrow> same_books ledger n1 n2 \<Longrightarrow> same_books ledger n n2"
  by (simp add: same_books_def)

lemma same_books_balanced:
  assumes "same_books ledger n n'"
  shows "node_balanced url ledger owed n' = node_balanced url ledger owed n" and "report_fits n' = report_fits n"
  using assms by (simp_all add: same_books_def node_balanced_def report_fits_def books_def cong: option.case_cong)

lemma client_endpoints:
  "GetUsers net c w = (r, c', w') \<Longrightarrow> endpoint c' path = endpoint c path"
  "GetNodeConfig net c w = (r', c', w') \<Longrightarrow> endpoint c' path = endpoint c path"
  by (auto simp: GetUsers_def GetNodeConfig_def endpoint_def split: prod.splits sum.splits if_splits option.splits)

lemma node_calls_same_books:
  assumes laws: "keeps_ledger p (endpoint (ndClient n) push_path) ledger"
  shows "same_books ledger n (snd (node_now p n))"
    and "same_books ledger n (snd (node_GetUsers p n))"
    and "same_books ledger n (snd (node_GetNodeConfig p n))"
    and "same_books ledger n (snd (node_GetUserAlive p n))"
    and "same_books ledger n (snd (node_SendAlive p alive n))"
    and "same_books ledger n (node_UpdateUsers p us n)"
    and "same_books ledger n (snd (build_alive n))"
proof -
  note L = other_requests_ledger [OF laws] keeps_ledgerD(3) [OF laws]
  show "same_books ledger n (snd (node_GetUsers p n))"
  proof -
    obtain r c w where G: "GetUsers (plNet p) (ndClient n) (ndWorld n) = (r, c, w)" by (rule prod_cases3)
    then have "ledger w = ledger (ndWorld n)"
      using L(1) by (auto simp: GetUsers_def case_prod_beta split: sum.splits if_splits option.splits)
    then show ?thesis using client_endpoints(1) [OF G] by (simp add: same_books_def node_GetUsers_def G)
  qed
  show "same_books ledger n (snd (node_GetNodeConfig p n))"
  proof -
    obtain r c w where G: "GetNodeConfig (plNet p) (ndClient n) (ndWorld n) = (r, c, w)" by (rule prod_cases3)
    then have "ledger w = ledger (ndWorld n)"
      using L(1) by (auto simp: GetNodeConfig_def case_prod_beta split: sum.splits if_splits option.splits)
    then show ?thesis using client_endpoints(2) [OF G] by (simp add: same_books_def node_GetNodeConfig_def G)
  qed
qed (use other_requests_ledger [OF laws] keeps_ledgerD(3) [OF laws] in
    \<open>simp_all add: same_books_def node_now_def node_GetUserAlive_def node_SendAlive_def node_UpdateUsers_def
      build_alive_def GetUserAlive_def SendAlive_def case_prod_beta split: sum.split option.split\<close>)

lemma createBox_ledger:
  assumes laws: "keeps_ledger p url ledger" and run: "createBox (plBox p) e cfg us level w = (r, w')"
  shows "ledger w' = ledger w"
proof (cases "BuildConfig (boxDecoders (plBox p)) cfg us level (clashAPIListenAddr e) (googleIPv6 e)")
  case (Inl err)
  then show ?thesis using run by (simp add: createBox_def)
next
  case (Inr opts)
  obtain nr w1 where N: "boxNew (plBox p) opts w = (nr, w1)" by (rule prod.exhaust)
  have "ledger w1 = ledger w" using keeps_ledgerD(5) [OF laws, of opts w] N by simp
  then show ?thesis using run Inr N keeps_ledgerD(6) [OF laws] by (cases nr) (auto simp: createBox_def)
qed

lemma start_box_ledger:
  assumes "keeps_ledger p url ledger" and "boxStart (plBox p) b w = (r, w')"
  shows "ledger w' = ledger w"
  using keeps_ledgerD(7) [OF assms(1), of b w] assms(2) by simp

lemma restore_ledger:
  assumes laws: "keeps_ledger p url ledger"
    and run: "restorePreviousInstance (plBox p) cfg us level (e, w) = (r, e', w')"
  shows "ledger w' = ledger w \<and> engStats e' = engStats e"
proof (cases "cfg = None")
  case True
  then show ?thesis using run by (simp add: restorePreviousInstance_def)
next
  case False
  obtain c w1 where C: "createBox (plBox p) e cfg us level w = (c, w1)" by (rule prod.exhaust)
  note w1 = createBox_ledger [OF laws C]
  show ?thesis
  proof (cases c)
    case (Inl err)
    then show ?thesis using run False C w1 by (auto simp: restorePreviousInstance_def)
  next
    case (Inr b)
    obtain sr w2 where S: "boxStart (plBox p) b w1 = (sr, w2)" by (rule prod.exhaust)
    then show ?thesis using run False C Inr w1 start_box_ledger [OF laws S] keeps_ledgerD(8) [OF laws]
      by (cases sr) (auto simp: restorePreviousInstance_def install_def)
  qed
qed

lemma engine_Start_ledger:
  assumes laws: "keeps_ledger p url ledger" and run: "engine_Start (plBox p) cfg us level (e, w) = (r, e', w')"
  shows "ledger w' = ledger w \<and> engStats e' = engStats e"
proof -
  obtain c w1 where C: "createBox (plBox p) e cfg us level w = (c, w1)" by (rule prod.exhaust)
  note w1 = createBox_ledger [OF laws C]
  show ?thesis
  proof (cases c)
    case (Inl err)
    then show ?thesis using run C w1 by (auto simp: engine_Start_def)
  next
    case (Inr b)
    obtain sr w2 where S: "boxStart (plBox p) b w1 = (sr, w2)" by (rule prod.exhaust)
    then show ?thesis using run C Inr w1 start_box_ledger [OF laws S] keeps_ledgerD(8) [OF laws]
      by (cases sr) (auto simp: engine_Start_def install_def)
  qed
qed

lemma ReloadUsers_ledger:
  assumes laws: "keeps_ledger p url ledger" and run: "ReloadUsers (plBox p) cfg us level (e, w) = (r, e', w')"
  shows "ledger w' = ledger w \<and> engStats e' = engStats e"
proof -
  obtain c w1 where C: "createBox (plBox p) e cfg us level w = (c, w1)" by (rule prod.exhaust)
  note w1 = createBox_ledger [OF laws C]
  show ?thesis
  proof (cases c)
    case (Inl err)
    then show ?thesis using run C w1 by (auto simp: ReloadUsers_def)
  next
    case (Inr b)
    let ?e = "e\<lparr>instance_box := None\<rparr>"
    define w2 where "w2 = (case instance_box e of None \<Rightarrow> w1 | Some b \<Rightarrow> snd (boxClose (plBox p) b w1))"
    have w2: "ledger w2 = ledger w" using w1 keeps_ledgerD(8) [OF laws] by (simp add: w2_def split: option.split)
    obtain sr w3 where S: "boxStart (plBox p) b w2 = (sr, w3)" by (rule prod.exhaust)
    obtain rr e4 w4 where R: "restorePreviousInstance (plBox p) (currentConfig e) (engUsers e) (engLogLevel e)
        (?e, snd (boxClose (plBox p) b w3)) = (rr, e4, w4)" by (rule prod_cases3)
    have kept: "ledger w4 = ledger w \<and> engStats e4 = engStats e"
      using restore_ledger [OF laws R] start_box_ledger [OF laws S] keeps_ledgerD(8) [OF laws] w2 by simp
    have "ReloadUsers (plBox p) cfg us level (e, w) =
        reload_finish (plBox p) cfg us level b (fst (reload_swap e)) (?e, w1)"
      by (simp add: ReloadUsers_def C Inr reload_swap_def)
    then show ?thesis using run kept S R w2 start_box_ledger [OF laws S]
      by (cases sr; cases rr)
        (auto simp: reload_finish_def reload_swap_def w2_def [symmetric] install_def Let_def)
  qed
qed

section \<open>Reports of a node\<close>

lemma Report_engine:
  assumes "Report engine_CollectTraffic push e now (t, f, eng) = (acked, t', f', eng')"
  shows "Report CollectTraffic push e now (t, f, engStats eng) = (acked, t', f', engStats eng')"
proof -
  obtain us err s where C: "CollectTraffic (engStats eng) = ((us, err), s)" by (metis prod.exhaust)
  then have "engine_CollectTraffic eng = ((us, err), eng\<lparr>engStats := s\<rparr>)" by (simp add: engine_CollectTraffic_def)
  then show ?thesis using assms C
    by (auto simp: Report_def Let_def split: prod.splits option.splits if_splits)
qed

lemma Report_ok:
  assumes "Report collect push e now (t, f, c) = (acked, t', f', c')" and "lastReportOK t'"
  shows "acked = report_payload collect (t, f, c) \<and> (acked = [] \<or> pending t' = [])"
  using assms(1) by (cases rule: Report_cases) (use assms(2) in auto)

lemma node_Report_books:
  assumes laws: "keeps_ledger p url ledger" and bal: "node_balanced url ledger owed n" and fit: "report_fits n"
    and run: "node_Report p n = (acked, n')"
  shows "node_balanced url ledger owed n'" and "report_fits n'"
    and "lastReportOK (the (ndReporter n')) \<Longrightarrow> ledger (ndWorld n') d uid = owed d uid"
proof -
  obtain t where t: "ndReporter n = Some t" and keyed: "keyed (pending t)"
    using bal by (auto simp: node_balanced_def split: option.splits)
  let ?s = "engStats (ndEngine n)" and ?url = "endpoint (ndClient n) push_path"
  define ps where "ps = fst (buildPushPayload (fst (fst (CollectTraffic ?s))) t)"
  have url: "?url = url" and ok: "gomap_ok (userTraffic ?s)" and fits: "fits t ?s"
    using bal fit t by (simp_all add: node_balanced_def report_fits_def)
  have data: "fst (buildPushPayload (fst (fst (engine_CollectTraffic (ndEngine n)))) t) = ps"
    by (simp add: ps_def engine_CollectTraffic_def case_prod_beta)
  have dist: "distinct (map UID ps)" unfolding ps_def by (rule payload_sorted(2) [OF keyed])
  obtain err w1 where P: "(if ps = [] then (None, ndWorld n)
      else PushTraffic (plNet p) (ndClient n) ps (ndWorld n)) = (err, w1)" by (rule prod.exhaust)
  obtain io w2 where I: "plIO p w1 = (io, w2)" by (rule prod.exhaust)
  obtain now w3 where T: "plNow p w2 = (now, w3)" by (rule prod.exhaust)
  let ?push = "\<lambda>_. map_option (panel_error_text (plDecodeText p)) err"
  obtain t' f' eng' where R: "Report engine_CollectTraffic ?push io now (t, ndFiles n, ndEngine n) = (acked, t', f', eng')"
    and n': "n' = n\<lparr>ndReporter := Some t', ndFiles := f', ndEngine := eng', ndWorld := w3\<rparr>"
    using run by (auto simp: node_Report_def t data P I T split: prod.splits)
  have run': "Report CollectTraffic ?push io now (t, ndFiles n, ?s) = (acked, t', f', engStats eng')"
    by (rule Report_engine [OF R])
  note F = Report_fits [OF keyed ok fits run']
  have few: "int (length (report_payload CollectTraffic (t, ndFiles n, ?s))) \<le> maxPendingUsers t"
    and small: "no_overflow t (fst (fst (CollectTraffic ?s)))" using fits by (simp_all add: fits_def report_payload_def)
  note C = stats.Report_conserves [OF keyed few small run']
  have "ledger w1 d uid = ledger (ndWorld n) d uid + (if err = None then billed d uid ps else 0)" for d uid
    using P push_ledger [OF laws [folded url] dist, of "ndWorld n" err w1] by (auto split: if_splits)
  moreover have "ledger w3 = ledger w1" using keeps_ledgerD(3,4) [OF laws] I T by (metis snd_conv)
  moreover have acked: "acked = (if err = None then ps else [])"
    using run'
  proof (cases rule: Report_cases)
    case idle
    then show ?thesis by (simp add: report_payload_def ps_def)
  next
    case (failed er)
    then show ?thesis by (cases err) simp_all
  next
    case pushed
    then show ?thesis by (cases err) (simp_all add: report_payload_def ps_def)
  qed
  ultimately have led: "ledger w3 d uid = ledger (ndWorld n) d uid + billed d uid acked" for d uid by simp
  have "books ledger n' d uid = books ledger n d uid" for d uid
    using C [of d uid] led [of d uid] by (simp add: books_def n' t algebra_simps)
  then show "node_balanced url ledger owed n'"
    using bal C F(2) by (simp add: node_balanced_def n')
  show "report_fits n'" using F(1) by (simp add: report_fits_def n')
  show "ledger (ndWorld n') d uid = owed d uid" if good: "lastReportOK (the (ndReporter n'))" for d uid
  proof -
    have "acked = ps \<and> (ps = [] \<or> pending t' = [])"
      using Report_ok [OF run'] good by (auto simp: n' report_payload_def ps_def)
    then have "pending_amount t' d uid = 0"
      using F(4) by (auto simp: ps_def pending_amount_def amount_def)
    then have "books ledger n' d uid = ledger (ndWorld n') d uid" using F(3) by (simp add: books_def n')
    then show ?thesis using \<open>node_balanced url ledger owed n'\<close> by (simp add: node_balanced_def)
  qed
qed

section \<open>Synchronisations and ticks\<close>

text \<open>The balance with a report that fits is kept by every call that \<open>Sync\<close> makes.\<close>

definition node_accounts ::
  "('b, 'w, 'r, 'o) platform \<Rightarrow> ('w \<Rightarrow> dir \<Rightarrow> int \<Rightarrow> int64) \<Rightarrow> string \<Rightarrow> (dir \<Rightarrow> int \<Rightarrow> int64) \<Rightarrow> ('b, 'w) node \<Rightarrow> bool" where
  "node_accounts p ledger url owed n \<longleftrightarrow>
     (keeps_ledger p url ledger \<longrightarrow> node_balanced url ledger owed n \<and> report_fits n)"

lemma node_accounts_same_books:
  assumes "node_accounts p ledger url owed n"
    and "keeps_ledger p (endpoint (ndClient n) push_path) ledger \<Longrightarrow> same_books ledger n n'"
  shows "node_accounts p ledger url owed n'"
  unfolding node_accounts_def
proof
  assume laws: "keeps_ledger p url ledger"
  then have ok: "node_balanced url ledger owed n \<and> report_fits n" using assms(1) by (simp add: node_accounts_def)
  then have "endpoint (ndClient n) push_path = url" by (simp add: node_balanced_def)
  then have "same_books ledger n n'" using assms(2) laws by simp
  then show "node_balanced url ledger owed n' \<and> report_fits n'" using ok same_books_balanced by blast
qed

lemma node_ReloadUsers_same_books:
  assumes "keeps_ledger p (endpoint (ndClient n) push_path) ledger"
  shows "same_books ledger n (snd (node_ReloadUsers p cfg us level n))"
proof -
  obtain r e w where R: "ReloadUsers (plBox p) cfg us level (ndEngine n, ndWorld n) = (r, e, w)" by (rule prod_cases3)
  then show ?thesis using ReloadUsers_ledger [OF assms R] by (simp add: node_ReloadUsers_def same_books_def)
qed

interpretation accounts: env_invariant "node_env p" "node_accounts p ledger url owed"
  for p :: "('b, 'w, 'r, 'o) platform" and ledger url owed
proof
  fix n :: "('b, 'w) node" and cfg us level alive
  assume ok: "node_accounts p ledger url owed n"
  note step = node_accounts_same_books [OF ok]
  show "node_accounts p ledger url owed (snd (envNow (node_env p) n))"
    by (simp add: node_env_def) (rule step, rule node_calls_same_books(1))
  show "node_accounts p ledger url owed (snd (envGetUsers (node_env p) n))"
    by (simp add: node_env_def) (rule step, rule node_calls_same_books(2))
  show "node_accounts p ledger url owed (snd (envGetNodeConfig (node_env p) n))"
    by (simp add: node_env_def) (rule step, rule node_calls_same_books(3))
  show "node_accounts p ledger url owed (snd (envGetUserAlive (node_env p) n))"
    by (simp add: node_env_def) (rule step, rule node_calls_same_books(4))
  show "node_accounts p ledger url owed (envUpdateUsers (node_env p) us n)"
    by (simp add: node_env_def) (rule step, rule node_calls_same_books(6))
  show "node_accounts p ledger url owed (envUpdateAliveList (node_env p) alive n)"
    by (rule step) (simp add: node_env_def same_books_def)
  show "node_accounts p ledger url owed (envReport (node_env p) n)"
  proof -
    obtain acked n' where R: "node_Report p n = (acked, n')" by (rule prod.exhaust)
    have "node_accounts p ledger url owed n'"
      using ok node_Report_books(1,2) [OF _ _ _ R, of url ledger owed] unfolding node_accounts_def by blast
    then show ?thesis using R by (simp add: node_env_def)
  qed
  show "node_accounts p ledger url owed (snd (envReloadUsers (node_env p) cfg us level n))"
    by (simp add: node_env_def) (rule step, rule node_ReloadUsers_same_books)
qed

lemma node_tick_balanced:
  assumes laws: "keeps_ledger p url ledger" and ok: "node_balanced url ledger owed n" "report_fits n"
    and tick: "node_tick p t n = Returns n'"
  shows "node_balanced url ledger owed n'"
proof (cases t)
  case SyncTick
  show ?thesis
  proof (cases "ndSyncer n")
    case None
    then show ?thesis using tick ok SyncTick by (simp add: node_sync_def)
  next
    case (Some s)
    obtain s' n1 where R: "Sync (node_env p) (s, n) = Returns (s', n1)" and n': "n' = n1\<lparr>ndSyncer := Some s'\<rparr>"
      using tick SyncTick Some by (auto simp: node_sync_def split: outcome.splits)
    have "node_accounts p ledger url owed n" using ok by (simp add: node_accounts_def)
    then have "node_accounts p ledger url owed n1" using accounts.Sync_inv [OF _ R] by simp
    then show ?thesis using laws by (simp add: node_accounts_def n' node_balanced_def books_def)
  qed
next
  case ReportTick
  obtain acked n1 where R: "node_Report p n = (acked, n1)" by (rule prod.exhaust)
  then show ?thesis using node_Report_books(1) [OF laws ok R] tick ReportTick by simp
next
  case AliveTick
  have url: "endpoint (ndClient n) push_path = url" using ok(1) by (simp add: node_balanced_def)
  let ?n1 = "snd (build_alive n)"
  have built: "same_books ledger n ?n1" by (rule node_calls_same_books(7)) (use laws url in simp)
  then have "endpoint (ndClient ?n1) push_path = url" using url by (simp add: same_books_def)
  then have "same_books ledger ?n1 (snd (node_SendAlive p (fst (build_alive n)) ?n1))"
    by (intro node_calls_same_books(5)) (use laws in simp)
  then have "same_books ledger n n'"
    using same_books_trans [OF built] tick AliveTick by (simp add: node_alive_def case_prod_beta)
  then show ?thesis using ok(1) same_books_balanced(1) by blast
qed

lemma node_Shutdown_balanced:
  assumes laws: "keeps_ledger p url ledger" and ok: "node_balanced url ledger owed n" "report_fits n"
    and run: "node_Shutdown p n = (acked, n')"
  shows "node_balanced url ledger owed n'" and "report_fits n'"
    and "lastReportOK (the (ndReporter n')) \<Longrightarrow> ledger (ndWorld n') d uid = owed d uid"
proof -
  obtain acked' n1 where R: "node_Report p n = (acked', n1)" by (rule prod.exhaust)
  have same: "same_books ledger n1 n'"
    using run keeps_ledgerD(8) [OF laws]
    by (auto simp: node_Shutdown_def R engine_Close_def close_take_def same_books_def split: prod.splits option.splits)
      (metis snd_conv)
  note reported = node_Report_books [OF laws ok R]
  show "node_balanced url ledger owed n'" "report_fits n'"
    using reported(1,2) same_books_balanced [OF same] by blast+
  show "lastReportOK (the (ndReporter n')) \<Longrightarrow> ledger (ndWorld n') d uid = owed d uid"
    using reported(3) same by (simp add: same_books_def)
qed

end
