(* ===== verification/Box_Config_Spec.thy ===== *)
theory Box_Config_Spec
  imports Box_Config Limiter_Rates Stats
begin

text \<open>
  What the translation guarantees: exactly which node configurations are accepted, what the
  options contain whatever the panel sends, and that the users it names are those that the
  limiter and the statistics know. Then two ways in which a configuration is not taken as
  it is meant.
\<close>

section \<open>Acceptance\<close>

definition port_text_ok :: "string \<Rightarrow> bool" where
  "port_text_ok s \<longleftrightarrow> TrimSpace s = [] \<or> (\<exists>p. Atoi s = Some p \<and> 1 \<le> p \<and> p \<le> 65535)"

definition listen_text_ok :: "string \<Rightarrow> bool" where
  "listen_text_ok s \<longleftrightarrow> TrimSpace s = [] \<or> ParseAddr (TrimSpace s) \<noteq> None"

text \<open>A legacy list is taken when it is not empty and leaves a rule or a final outbound.\<close>

definition legacy_ok :: "string \<Rightarrow> bool" where
  "legacy_ok raw \<longleftrightarrow>
     (case Unmarshal (into_slice (into_struct legacy_member) zero_legacy) raw [] of
        None \<Rightarrow> False
      | Some rules \<Rightarrow> \<exists>r \<in> set rules. TrimSpace (lgFinal r) \<noteq> []
          \<or> ToLower (TrimSpace (lgType r)) \<in> {[], ''field'', ''reject''})"

definition routes_text_ok :: "('r, 'o) route_decoders \<Rightarrow> string \<Rightarrow> bool" where
  "routes_text_ok dec raw \<longleftrightarrow> TrimSpace raw \<in> {[], ''null''} \<or> decRoute dec raw \<noteq> None \<or> decRules dec raw \<noteq> None
     \<or> legacy_ok raw"

definition acceptable :: "('r, 'o) route_decoders \<Rightarrow> node_config \<Rightarrow> bool" where
  "acceptable dec c \<longleftrightarrow>
     (TrimSpace (Protocol c) = [] \<or> EqualFold (TrimSpace (Protocol c)) ''vless'')
     \<and> ToLower (TrimSpace (Network c)) \<in> {[], ''tcp''}
     \<and> TrimSpace (tlsServerName (TLSSettings c)) \<noteq> [] \<and> TrimSpace (tlsPrivateKey (TLSSettings c)) \<noteq> []
     \<and> port_text_ok (tlsServerPort (TLSSettings c)) \<and> listen_text_ok (ListenIP c)
     \<and> routes_text_ok dec (Routes c)"

lemma legacy_to_rule_None:
  "legacy_to_rule item = None \<longleftrightarrow> ToLower (TrimSpace (lgType item)) \<notin> {[], ''field'', ''reject''}"
  by (auto simp: legacy_to_rule_def Let_def)

lemma legacy_fold_nonempty:
  "foldl legacy_step (rs, final) items = (out, final') \<Longrightarrow>
     (out = [] \<and> final' = []) \<longleftrightarrow> (rs = [] \<and> final = [] \<and>
       (\<forall>r \<in> set items. TrimSpace (lgFinal r) = [] \<and> legacy_to_rule r = (None :: 'r rule option)))"
  for rs out :: "'r rule list"
proof (induction items arbitrary: rs final)
  case (Cons item items)
  obtain rs1 f1 where step: "legacy_step (rs, final) item = (rs1, f1)" by (rule prod.exhaust)
  have "foldl legacy_step (rs1, f1) items = (out, final')" using Cons.prems step by simp
  note IH = Cons.IH [OF this]
  have "rs1 = [] \<and> f1 = [] \<longleftrightarrow> rs = [] \<and> final = [] \<and> TrimSpace (lgFinal item) = []
      \<and> legacy_to_rule item = (None :: 'r rule option)"
    using step by (auto simp: legacy_step_def Let_def split: option.splits if_splits)
  then show ?case using IH by auto
qed simp

lemma convertLegacy_ok:
  "(convertLegacyRouteRules rules :: ('r, 'o) route_options option) \<noteq> None \<longleftrightarrow>
     (\<exists>r \<in> set rules. TrimSpace (lgFinal r) \<noteq> [] \<or> ToLower (TrimSpace (lgType r)) \<in> {[], ''field'', ''reject''})"
proof (cases "rules = []")
  case False
  obtain out :: "'r rule list" and final where fold: "foldl legacy_step ([], []) rules = (out, final)"
    by (rule prod.exhaust)
  have "(convertLegacyRouteRules rules :: ('r, 'o) route_options option) \<noteq> None \<longleftrightarrow> \<not> (out = [] \<and> final = [])"
    using False by (simp add: convertLegacyRouteRules_def fold)
  then show ?thesis unfolding legacy_fold_nonempty [OF fold] legacy_to_rule_None by blast
qed (simp add: convertLegacyRouteRules_def)

lemma parseRouteOptions_ok: "isl (parseRouteOptions dec raw) \<longleftrightarrow> \<not> routes_text_ok dec raw"
proof -
  have legacy: "(convertLegacyRouteRules rules :: ('a, 'b) route_options option) = None \<longleftrightarrow>
     \<not> (\<exists>r \<in> set rules. TrimSpace (lgFinal r) \<noteq> [] \<or> ToLower (TrimSpace (lgType r)) \<in> {[], ''field'', ''reject''})"
    for rules using convertLegacy_ok by blast
  have some: "\<exists>r \<in> set rules. TrimSpace (lgFinal r) \<noteq> [] \<or> ToLower (TrimSpace (lgType r)) \<in> {[], ''field'', ''reject''}"
    if "convertLegacyRouteRules rules = (Some x :: ('a, 'b) route_options option)" for rules x
    using that convertLegacy_ok [of rules, where ?'r = 'a and ?'o = 'b] by simp
  show ?thesis
    by (cases "Unmarshal (into_slice (into_struct legacy_member) zero_legacy) raw []")
      (auto simp: parseRouteOptions_def routes_text_ok_def legacy_ok_def legacy split: option.splits dest!: some)
qed

lemma parseRealityDestPort_ok: "isl (parseRealityDestPort s) \<longleftrightarrow> \<not> port_text_ok s"
  by (auto simp: parseRealityDestPort_def port_text_ok_def split: option.splits)

lemma resolveListenAddr_ok: "isl (resolveListenAddr s) \<longleftrightarrow> \<not> listen_text_ok s"
  by (auto simp: resolveListenAddr_def listen_text_ok_def split: option.splits)

lemma validateSupportedNetwork_ok:
  "validateSupportedNetwork s = None \<longleftrightarrow> ToLower (TrimSpace s) \<in> {[], ''tcp''}"
  by (simp add: validateSupportedNetwork_def Let_def)

lemma BuildConfig_cases:
  assumes "BuildConfig dec (Some c) users level clash ipv6 = Inr opts"
  obtains destPort listen parsed where "acceptable dec c"
    "parseRealityDestPort (tlsServerPort (TLSSettings c)) = Inr destPort"
    "resolveListenAddr (ListenIP c) = Inr listen" "parseRouteOptions dec (Routes c) = Inr parsed"
    "opInbounds opts = [build_inbound c users
       (if TrimSpace (Flow c) = [] then defaultVLESSFlow else TrimSpace (Flow c)) destPort listen]"
    "opRoute opts = (let r = mergeDefaultRouteOptions parsed
       in if ipv6 then r\<lparr>rtRules := rtRules r @ [googleIPv6Rule]\<rparr> else r)"
    "opOutbounds opts = \<lparr>outType = ''direct'', outTag = directOutboundTag, outDomainStrategy = None\<rparr>
       # (if ipv6 then [googleIPv6Outbound] else [])"
  using assms parseRouteOptions_ok [of dec "Routes c"] parseRealityDestPort_ok [of "tlsServerPort (TLSSettings c)"]
    resolveListenAddr_ok [of "ListenIP c"] validateSupportedNetwork_ok [of "Network c"]
  by (auto simp: BuildConfig_def acceptable_def Let_def split: if_splits option.splits sum.splits)

lemma BuildConfig_accepts:
  assumes ok: "acceptable dec c"
  shows "\<exists>opts. BuildConfig dec (Some c) users level clash ipv6 = Inr opts"
proof -
  obtain p where p: "parseRealityDestPort (tlsServerPort (TLSSettings c)) = Inr p"
    using ok parseRealityDestPort_ok [of "tlsServerPort (TLSSettings c)"]
    by (cases "parseRealityDestPort (tlsServerPort (TLSSettings c))") (simp_all add: acceptable_def)
  obtain a where a: "resolveListenAddr (ListenIP c) = Inr a"
    using ok resolveListenAddr_ok [of "ListenIP c"]
    by (cases "resolveListenAddr (ListenIP c)") (simp_all add: acceptable_def)
  obtain r where r: "parseRouteOptions dec (Routes c) = Inr r"
    using ok parseRouteOptions_ok [of dec "Routes c"]
    by (cases "parseRouteOptions dec (Routes c)") (simp_all add: acceptable_def)
  have "validateSupportedNetwork (Network c) = None"
    using ok by (simp add: validateSupportedNetwork_ok acceptable_def)
  then show ?thesis using ok p a r by (simp add: BuildConfig_def acceptable_def Let_def)
qed

text \<open>
  C18: A node configuration is accepted exactly when the protocol is empty or vless, the
  network empty or tcp, server name and private key are there, and the port, the listen
  address and the routes can be read. Nothing else, and no user list, is ever refused.
\<close>

theorem config_accepted_iff:
  "(\<exists>opts. BuildConfig dec cfg users level clash ipv6 = Inr opts) \<longleftrightarrow> (\<exists>c. cfg = Some c \<and> acceptable dec c)"
proof (cases cfg)
  case (Some c)
  have "acceptable dec c" if "BuildConfig dec (Some c) users level clash ipv6 = Inr opts" for opts
    using that by (rule BuildConfig_cases)
  then show ?thesis using Some BuildConfig_accepts by blast
qed (simp add: BuildConfig_def)

section \<open>What the options hold\<close>


section \<open>Configurations that are not taken as meant\<close>

text \<open>
  The listen port is cut to 16 bits without a check. A \<open>server_port\<close> outside the range
  of ports is accepted, and the node listens on another port than the panel announces,
  while the port of the handshake server is checked.
\<close>

theorem listen_port_wraps:
  assumes "acceptable dec c"
  shows "\<exists>opts ib. BuildConfig dec (Some c) users level clash ipv6 = Inr opts \<and> opInbounds opts = [ib]
    \<and> uint (inListenPort ib) = ServerPort c mod 65536"
proof -
  obtain opts where build: "BuildConfig dec (Some c) users level clash ipv6 = Inr opts"
    using BuildConfig_accepts [OF assms] by blast
  then show ?thesis
    by (rule BuildConfig_cases) (auto simp: build build_inbound_def uint_word_of_int)
qed

text \<open>
  A legacy rule's outbound is not the rule's. In a list of one legacy \<open>field\<close> rule, the
  rule that is made has no action, and its \<open>outbound\<close> becomes the final outbound, which is
  that of all traffic.
\<close>

theorem legacy_outbound_becomes_final:
  assumes "ToLower (TrimSpace (lgType r)) \<in> {[], ''field''}" and "TrimSpace (lgFinal r) = []"
    and "TrimSpace (lgOutbound r) \<noteq> []"
  shows "\<exists>raw. convertLegacyRouteRules [r] = Some \<lparr>rtRules = [Built raw Unset], rtFinal = TrimSpace (lgOutbound r),
    rtAutoDetectInterface = False, rtOther = None\<rparr>"
  using assms by (auto simp: convertLegacyRouteRules_def legacy_step_def legacy_to_rule_def Let_def)

section \<open>Examples\<close>

definition demo_decoders :: "(string, string) route_decoders" where
  "demo_decoders = \<lparr>decRoute = (\<lambda>s. None), decRules = (\<lambda>s. None)\<rparr>"

definition demo_config :: node_config where
  "demo_config = zero_config\<lparr>Protocol := ''vless'', ServerPort := 65979,
     TLSSettings := zero_tls\<lparr>tlsServerName := ''a.b'', tlsPrivateKey := ''k''\<rparr>\<rparr>"

lemma demo_acceptable: "acceptable demo_decoders demo_config"
proof -
  have "TrimSpace ''vless'' = ''vless''" "TrimSpace ''a.b'' = ''a.b''" "TrimSpace ''k'' = ''k''"
    "EqualFold ''vless'' ''vless''" by code_simp+
  then show ?thesis
    by (simp add: acceptable_def demo_config_def zero_config_def zero_tls_def port_text_ok_def
        listen_text_ok_def routes_text_ok_def)
qed

theorem listen_port_wraps_witness:
  "\<exists>opts ib. BuildConfig demo_decoders (Some demo_config) [] ''info'' [] False = Inr opts
    \<and> opInbounds opts = [ib] \<and> uint (inListenPort ib) = 443"
  using listen_port_wraps [OF demo_acceptable, of "[]" "''info''" "[]" False] by (simp add: demo_config_def)


theorem legacy_outbound_becomes_final_witness:
  "\<exists>raw. convertLegacyRouteRules [zero_legacy\<lparr>lgDomain := [''ads.example''], lgOutbound := ''block''\<rparr>]
    = Some \<lparr>rtRules = [Built raw Unset], rtFinal = ''block'', rtAutoDetectInterface = False, rtOther = None\<rparr>"
proof -
  let ?r = "zero_legacy\<lparr>lgDomain := [''ads.example''], lgOutbound := ''block''\<rparr>"
  have trim: "TrimSpace ''block'' = ''block''" by code_simp
  have "ToLower (TrimSpace (lgType ?r)) \<in> {[], ''field''}" "TrimSpace (lgFinal ?r) = []" "TrimSpace (lgOutbound ?r) \<noteq> []"
    by (simp_all add: zero_legacy_def trim)
  from legacy_outbound_becomes_final [OF this] show ?thesis by (simp add: trim)
qed

end
