(* ===== verification/Node_Example.thy ===== *)
theory Node_Example
  imports Node_Spec Box_Config_Spec
begin

text \<open>
  A concrete run of a node: a panel that plays a list of responses, sing-box as in
  \<open>Engine_Spec\<close>. The node starts, a synchronisation fails to start the new instance and to
  restart the old one, and the next one reports success. The properties of \<open>Node_Spec\<close> are
  applied to it.
\<close>

section \<open>The platform\<close>

type_synonym demo_host = "http_outcome list \<times> demo_world"

definition demo_platform :: "(nat \<Rightarrow> bool) \<Rightarrow> (demo_box, demo_host, string, string) platform" where
  "demo_platform fails = \<lparr>
     plNet = \<lparr>
       netDo = (\<lambda>rq (outs, v). case outs of [] \<Rightarrow> (NoResponse ''refused'', ([], v)) | out # rest \<Rightarrow> (out, (rest, v))),
       netSleep = (\<lambda>d h. h)\<rparr>,
     plBox = \<lparr>
       boxNew = (\<lambda>opts (outs, v). case boxNew (demo_api fails) opts v of (r, v) \<Rightarrow> (r, (outs, v))),
       boxAppendTracker = (\<lambda>b h. h),
       boxStart = (\<lambda>b (outs, v). case boxStart (demo_api fails) b v of (r, v) \<Rightarrow> (r, (outs, v))),
       boxClose = (\<lambda>b (outs, v). case boxClose (demo_api fails) b v of (r, v) \<Rightarrow> (r, (outs, v))),
       boxDecoders = boxDecoders (demo_api fails)\<rparr>,
     plNow = Pair 0, plIO = Pair io_ok, plDecodeText = (\<lambda>s. s), plConfigText = (\<lambda>err. [])\<rparr>"

definition demo_host_running :: "demo_host \<Rightarrow> demo_box set" where
  "demo_host_running h = demo_running (snd h)"

lemma demo_platform_laws: "platform_laws (demo_platform fails) demo_host_running snd"
proof -
  note L = box_lawsD [OF demo_laws [of fails]]
  have "box_laws (plBox (demo_platform fails)) demo_host_running snd"
    using demo_laws [of fails] unfolding box_laws_def
    by (auto simp: demo_platform_def demo_host_running_def demo_api_def split: prod.splits)
  then show ?thesis
    by (auto simp: platform_laws_def demo_platform_def demo_host_running_def split: prod.splits list.splits)
qed

text \<open>What a node meets, call by call.\<close>

lemma demo_request:
  assumes "status = 200 \<or> status = 304"
  shows "doWithHeaders (plNet (demo_platform fails)) rq (Response status tag body # outs, v)
     = (\<lparr>hrStatus = status, hrETag = tag, hrBody = Inr body\<rparr>, (outs, v))"
  using assms by (subst doWithHeaders_def, subst do_attempts.simps)
    (auto simp: doOnce_def demo_platform_def outcome_result_def)

lemma demo_no_response:
  "doWithHeaders (plNet (demo_platform fails)) rq (NoResponse err # outs, v)
     = (\<lparr>hrStatus = 0, hrETag = [], hrBody = Inl err\<rparr>, (outs, v))"
  by (subst doWithHeaders_def, subst do_attempts.simps)
    (simp add: doOnce_def demo_platform_def outcome_result_def shouldRetry_def)

lemma demo_config:
  assumes "ndWorld n = (Response 200 tag body # outs, v)" and "decode_config body = Some nc"
  shows "node_GetNodeConfig (demo_platform fails) n =
    (Inr (Some nc), n\<lparr>ndClient := (ndClient n)\<lparr>configETag := tag, cfgCache := Some nc\<rparr>, ndWorld := (outs, v)\<rparr>)"
  using assms by (simp add: node_GetNodeConfig_def GetNodeConfig_def demo_request)

lemma demo_config_304:
  assumes "ndWorld n = (Response 304 tag body # outs, v)"
  shows "node_GetNodeConfig (demo_platform fails) n = (Inr (cfgCache (ndClient n)), n\<lparr>ndWorld := (outs, v)\<rparr>)"
  using assms by (simp add: node_GetNodeConfig_def GetNodeConfig_def demo_request)

lemma demo_users:
  assumes "ndWorld n = (Response 200 tag body # outs, v)" and "decode_users body = Some us"
  shows "node_GetUsers (demo_platform fails) n =
    (Inr us, n\<lparr>ndClient := (ndClient n)\<lparr>userETag := tag, usersCache := us\<rparr>, ndWorld := (outs, v)\<rparr>)"
  using assms by (simp add: node_GetUsers_def GetUsers_def demo_request)

lemma demo_alive:
  assumes "ndWorld n = (NoResponse err # outs, v)"
  shows "node_GetUserAlive (demo_platform fails) n = (Inl (FetchAlive err), n\<lparr>ndWorld := (outs, v)\<rparr>)"
  using assms by (simp add: node_GetUserAlive_def GetUserAlive_def demo_no_response)

lemma demo_send:
  assumes "ndWorld n = (NoResponse err # outs, v)"
  shows "node_SendAlive (demo_platform fails) alive n = (Some (SendFailed err), n\<lparr>ndWorld := (outs, v)\<rparr>)"
  using assms by (simp add: node_SendAlive_def SendAlive_def demo_no_response)

lemma demo_update: "node_UpdateUsers (demo_platform fails) us n = n\<lparr>ndLimiter := UpdateUsers 0 us (ndLimiter n)\<rparr>"
  by (simp add: node_UpdateUsers_def node_now_def demo_platform_def)

lemma demo_refresh:
  assumes "ndWorld n = (NoResponse err # outs, v)"
  shows "refreshAliveCounts (node_env (demo_platform fails)) LimiterPointer n = Returns (n\<lparr>ndWorld := (outs, v)\<rparr>)"
  using demo_alive [OF assms] by (simp add: refreshAliveCounts_def node_env_def)

text \<open>A report with nothing to send.\<close>

lemma demo_report:
  assumes "ndReporter n = Some t" and "pending t = []" and "engStats (ndEngine n) = NewStatsTracker"
  shows "\<exists>t'. node_Report (demo_platform fails) n = ([], n\<lparr>ndReporter := Some t'\<rparr>)"
proof -
  have "engine_CollectTraffic (ndEngine n) = (([], None), ndEngine n)"
    using assms(3) by (cases "ndEngine n") (simp add: engine_CollectTraffic_def CollectTraffic_def NewStatsTracker_def)
  then show ?thesis using assms(1,2)
    by (auto simp: node_Report_def Report_def buildPushPayload_def Let_def demo_platform_def)
qed

section \<open>The run\<close>

definition demo_body :: string where
  "demo_body = ''{'' @ [CHR 0x22] @ ''protocol'' @ [CHR 0x22] @ '':'' @ [CHR 0x22] @ ''vless'' @ [CHR 0x22] @ '','' @
     [CHR 0x22] @ ''server_port'' @ [CHR 0x22] @ '':443,'' @ [CHR 0x22] @ ''tls_settings'' @ [CHR 0x22] @ '':{'' @
     [CHR 0x22] @ ''server_name'' @ [CHR 0x22] @ '':'' @ [CHR 0x22] @ ''a'' @ [CHR 0x22] @ '','' @
     [CHR 0x22] @ ''private_key'' @ [CHR 0x22] @ '':'' @ [CHR 0x22] @ ''k'' @ [CHR 0x22] @ ''}}''"

lemma demo_body_decoded: "decode_config demo_body = Some (demo_node_config ''a'')"
  by code_simp

definition demo_user_body :: string where
  "demo_user_body = ''[{'' @ [CHR 0x22] @ ''id'' @ [CHR 0x22] @ '':7}]''"

lemma demo_user_body_decoded: "decode_users demo_user_body = Some [zero_user\<lparr>uID := 7\<rparr>]"
  by code_simp

lemma demo_no_users_decoded: "decode_users ''[]'' = Some []"
  by code_simp

definition demo_env_config :: config where
  "demo_env_config = \<lparr>PanelHost = ''h'', PanelToken = ''t'', NodeID = 1, NodeIDs = [1], SyncInterval = 60,
     ReportInterval = 60, LogLevel = ''info'', ClashAPIListenAddr = [], TrafficStateFile = [],
     cfgMaxConnPerUser = 0, cfgMaxConnPerIP = 0, cfgMaxNewConnPerUserPerMin = 0, cfgMaxNewConnPerIPPerMin = 0,
     TrafficPendingMaxUsers = 10, GoogleIPv6 = False, SyncIntervalExplicit = False, ReportIntervalExplicit = False\<rparr>"

text \<open>The responses at the start, for the failing synchronisation, and after it.\<close>

definition start_outs :: "http_outcome list" where
  "start_outs = [Response 200 ''c'' demo_body, Response 200 ''u'' ''[]'', NoResponse ''alive'', NoResponse ''send'']"

definition reload_outs :: "http_outcome list" where
  "reload_outs = [Response 200 ''v'' demo_user_body, Response 304 [] [], NoResponse ''alive'']"

definition return_outs :: "http_outcome list" where
  "return_outs = [Response 200 ''u'' ''[]'', Response 304 [] []]"

definition demo_evolves :: "demo_host \<Rightarrow> demo_host \<Rightarrow> bool" where
  "demo_evolves h h' \<longleftrightarrow> snd h' = snd h"

lemma demo_evolves_running: "demo_evolves v v' \<Longrightarrow> demo_host_running v' = demo_host_running v"
  by (simp add: demo_evolves_def demo_host_running_def)

abbreviation demo_nc :: node_config where
  "demo_nc \<equiv> demo_node_config ''a''"

abbreviation demo_new :: "http_outcome list \<Rightarrow> (demo_box, demo_host) node" where
  "demo_new outs \<equiv> NewNode demo_env_config (\<lambda>_. None) (outs, (0, []))"

text \<open>The start, whatever comes after its four requests.\<close>

definition demo_engine :: "(nat \<Rightarrow> bool) \<Rightarrow> engine_error option \<times> demo_box engine \<times> demo_world" where
  "demo_engine fails = engine_Start (demo_api fails) (Some demo_nc) [] ''info'' (NewEngine [] False True, (0, []))"

lemma demo_engine_lift:
  "engine_Start (plBox (demo_platform fails)) cfg us level (e, (outs, v)) =
     (case engine_Start (demo_api fails) cfg us level (e, v) of (r, e, v) \<Rightarrow> (r, e, (outs, v)))"
  by (simp add: engine_Start_def createBox_def demo_platform_def demo_api_def
      split: sum.split prod.split option.split)

lemma demo_accepted: "\<exists>opts. BuildConfig dec (Some demo_nc) us level clash ipv6 = Inr opts"
proof -
  have "TrimSpace ''vless'' = ''vless''" "TrimSpace ''a'' = ''a''" "TrimSpace ''k'' = ''k''" "EqualFold ''vless'' ''vless''"
    by code_simp+
  then have "acceptable dec demo_nc"
    by (simp add: acceptable_def demo_node_config_def zero_config_def zero_tls_def port_text_ok_def listen_text_ok_def
        routes_text_ok_def)
  then show ?thesis by (rule BuildConfig_accepts)
qed

lemma demo_engine_starts: "\<not> fails 0 \<Longrightarrow> fst (demo_engine fails) = None"
  using demo_accepted [of "boxDecoders (demo_api fails)" "[]" "''info''" "[]" False]
  by (auto simp: demo_engine_def engine_Start_def createBox_def NewEngine_def demo_api_def)

lemma demo_starts:
  assumes "\<not> fails 0"
  shows "\<exists>n t. node_Start (demo_platform fails) (demo_new (start_outs @ outs)) = Returns (None, n)
    \<and> ndSyncer n = Some (SetLimiter True (SetInitialHash [] (NewUserSyncer (Some demo_nc) ''info'' True)))
    \<and> ndEngine n = fst (snd (demo_engine fails)) \<and> ndWorld n = (outs, snd (snd (demo_engine fails)))
    \<and> ndReporter n = Some t \<and> pending t = [] \<and> cfgCache (ndClient n) = Some demo_nc"
proof -
  let ?p = "demo_platform fails" and ?n = "demo_new (start_outs @ outs)"
  have same: "choose_intervals demo_nc demo_env_config = demo_env_config"
    by (simp add: choose_intervals_def demo_node_config_def zero_config_def)
  let ?outs = "NoResponse ''alive'' # NoResponse ''send'' # outs"
  define n1 where "n1 = ?n\<lparr>ndClient := (ndClient ?n)\<lparr>configETag := ''c'', cfgCache := Some demo_nc\<rparr>,
    ndWorld := (Response 200 ''u'' ''[]'' # ?outs, (0, []))\<rparr>"
  have c: "node_GetNodeConfig ?p ?n = (Inr (Some demo_nc), n1)"
    unfolding n1_def by (rule demo_config [OF _ demo_body_decoded]) (simp add: NewNode_def start_outs_def)
  have n1: "ndEngine n1 = ndEngine ?n" "ndCfg n1 = demo_env_config" "cfgCache (ndClient n1) = Some demo_nc"
    by (simp_all add: n1_def NewNode_def)
  define n2 where "n2 = n1\<lparr>ndCfg := demo_env_config, ndClient := (ndClient n1)\<lparr>userETag := ''u'', usersCache := []\<rparr>,
    ndWorld := (?outs, (0, []))\<rparr>"
  have u: "node_GetUsers ?p (n1\<lparr>ndCfg := demo_env_config\<rparr>) = (Inr [], n2)"
    using demo_users [OF _ demo_no_users_decoded, of "n1\<lparr>ndCfg := demo_env_config\<rparr>" "''u''" ?outs "(0, [])" fails]
    by (simp add: n1_def n2_def)
  define n3 where "n3 = (node_UpdateUsers ?p [] n2)\<lparr>ndWorld := (NoResponse ''send'' # outs, (0, []))\<rparr>"
  have a: "refreshAliveCounts (node_env ?p) LimiterPointer (node_UpdateUsers ?p [] n2) = Returns n3"
    unfolding n3_def by (rule demo_refresh) (simp add: demo_update n2_def)
  have n3: "ndEngine n3 = ndEngine ?n" "ndCfg n3 = demo_env_config" "cfgCache (ndClient n3) = Some demo_nc"
      "ndWorld n3 = (NoResponse ''send'' # outs, (0, []))"
    using n1 by (simp_all add: n3_def demo_update n2_def)
  have "ndEngine ?n = NewEngine [] False True" by (simp add: NewNode_def demo_env_config_def)
  then have e: "engine_Start (plBox ?p) (Some demo_nc) [] ''info'' (ndEngine n3, ndWorld n3) =
      (fst (demo_engine fails), fst (snd (demo_engine fails)), (NoResponse ''send'' # outs, snd (snd (demo_engine fails))))"
    by (simp add: demo_engine_lift n3 demo_engine_def case_prod_beta)
  have start: "node_Start ?p ?n = Returns (None, node_attach ?p demo_nc []
      (n3\<lparr>ndEngine := fst (snd (demo_engine fails)), ndWorld := (NoResponse ''send'' # outs, snd (snd (demo_engine fails)))\<rparr>))"
  proof -
    have "LogLevel demo_env_config = ''info''" by (simp add: demo_env_config_def)
    then show ?thesis
      using e demo_engine_starts [of fails, OF assms] n1(2) n3(2) by (simp add: node_Start_def c same u a Let_def)
  qed
  have "plIO ?p h = (io_ok, h)" for h by (simp add: demo_platform_def)
  moreover have "TrafficStateFile demo_env_config = []" "LogLevel demo_env_config = ''info''"
    by (simp_all add: demo_env_config_def)
  ultimately show ?thesis
    unfolding start
    by (simp add: node_attach_def build_alive_def case_prod_beta demo_send n3
        NewTrafficReporterWithLimit_def loadPending_def)
qed

text \<open>The digest of a non-empty list is hexadecimal, so it is not \<open>empty\<close>.\<close>

lemma hashUsers_not_empty: "hashUsers (u # us) \<noteq> hashUsers []"
proof -
  have digit: "digit_char n \<noteq> CHR ''m''" if "n < 16" for n :: nat
  proof
    assume "digit_char n = CHR ''m''"
    then have "(of_char (digit_char n) :: nat) = of_char (CHR ''m'')" by simp
    then show False using that by (simp add: digit_char_def split: if_splits)
  qed
  have "CHR ''m'' \<notin> set (hex_string s)" for s
  proof -
    have "(of_char x :: nat) div 16 < 16" for x
      using nat_of_char_less_256 [of x] by (intro less_mult_imp_div_less) simp
    then have "digit_char (of_char x div 16) \<noteq> CHR ''m''" "digit_char (of_char x mod 16) \<noteq> CHR ''m''" for x
      using digit by simp_all
    then show ?thesis by (force simp: hex_string_def)
  qed
  then have "digest8 t \<noteq> ''empty''" for t
    by (metis digest8_def list.set_intros)
  then show ?thesis by (simp add: hashUsers_def)
qed

definition later_fails :: "nat \<Rightarrow> bool" where
  "later_fails k \<longleftrightarrow> 1 \<le> k"

abbreviation demo_user :: panel_user where
  "demo_user \<equiv> zero_user\<lparr>uID := 7\<rparr>"

lemma demo_rollback_fails:
  "\<exists>a b. fst (ReloadUsers (plBox (demo_platform later_fails)) (Some demo_nc) [demo_user] ''info''
     (fst (snd (demo_engine later_fails)), ([], snd (snd (demo_engine later_fails))))) = Some (RollbackFailed a b)"
proof -
  have "case fst (ReloadUsers (plBox (demo_platform later_fails)) (Some demo_nc) [demo_user] ''info''
     (fst (snd (demo_engine later_fails)), ([], snd (snd (demo_engine later_fails))))) of
       Some (RollbackFailed a b) \<Rightarrow> True | _ \<Rightarrow> False" by code_simp
  then show ?thesis by (auto split: option.splits engine_error.splits)
qed

lemma demo_engine_stats: "engStats (fst (snd (demo_engine fails))) = NewStatsTracker"
  by (auto simp: demo_engine_def engine_Start_def NewEngine_def install_def split: prod.split sum.split option.split)

text \<open>The synchronisation that ends with no instance.\<close>

lemma demo_goes_down:
  assumes s: "ndSyncer n = Some (SetLimiter True (SetInitialHash [] (NewUserSyncer (Some demo_nc) ''info'' True)))"
    and e: "ndEngine n = fst (snd (demo_engine later_fails))" "ndWorld n = (reload_outs, snd (snd (demo_engine later_fails)))"
    and t: "ndReporter n = Some t" "pending t = []" and c: "cfgCache (ndClient n) = Some demo_nc"
    and ok: "engine_ok (plBox (demo_platform later_fails)) demo_host_running snd (ndEngine n, ndWorld n)"
  shows "\<exists>n'. node_tick (demo_platform later_fails) SyncTick n = Returns n' \<and> instance_box (ndEngine n') = None
    \<and> node_recorded n' = (Some demo_nc, []) \<and> cfgCache (ndClient n') = Some demo_nc"
proof -
  let ?p = "demo_platform later_fails" and ?v = "snd (snd (demo_engine later_fails))"
  define s0 where "s0 = SetLimiter True (SetInitialHash [] (NewUserSyncer (Some demo_nc) ''info'' True))"
  have s0: "hasLimiter s0" "hasReporter s0" "syLogLevel s0 = ''info''" "currentUserHash s0 = hashUsers []"
    by (simp_all add: s0_def SetLimiter_def SetInitialHash_def NewUserSyncer_def)
  define n1 where "n1 = n\<lparr>ndClient := (ndClient n)\<lparr>userETag := ''v'', usersCache := [demo_user]\<rparr>,
    ndWorld := ([Response 304 [] [], NoResponse ''alive''], ?v)\<rparr>"
  have u: "envGetUsers (node_env ?p) n = (Inr [demo_user], n1)"
    using demo_users [OF _ demo_user_body_decoded, of n "''v''" "[Response 304 [] [], NoResponse ''alive'']" ?v later_fails] e(2)
    by (simp add: node_env_def reload_outs_def n1_def)
  define n2 where "n2 = (node_UpdateUsers ?p [demo_user] n1)\<lparr>ndWorld := ([NoResponse ''alive''], ?v)\<rparr>"
  have g: "sync_config (node_env ?p) s0 [demo_user] n1 = (Some demo_nc, n2)"
    using demo_config_304 [of "node_UpdateUsers ?p [demo_user] n1" "[]" "[]" "[NoResponse ''alive'']" ?v later_fails] c
    by (simp add: sync_config_def s0 node_env_def demo_update n1_def n2_def)
  have due: "sync_due s0 [demo_user] demo_nc" using hashUsers_not_empty by (simp add: sync_due_def s0)
  have n2: "ndReporter n2 = Some t" "ndEngine n2 = ndEngine n" "ndClient n2 = ndClient n1"
    using t by (simp_all add: n2_def n1_def demo_update)
  have "engStats (ndEngine n) = NewStatsTracker"
    using e(1) demo_engine_stats by simp
  then obtain t' where r: "node_Report ?p n2 = ([], n2\<lparr>ndReporter := Some t'\<rparr>)"
    using demo_report [OF n2(1) t(2)] n2(2) by auto
  define n3 where "n3 = n2\<lparr>ndReporter := Some t', ndWorld := ([], ?v)\<rparr>"
  have prep: "sync_prepare (node_env ?p) s0 n2 = Returns n3"
    using demo_refresh [of "n2\<lparr>ndReporter := Some t'\<rparr>" "''alive''" "[]" ?v later_fails]
    by (simp add: sync_prepare_def s0 node_env_def r) (simp add: n3_def n2_def node_env_def)
  obtain a b where "fst (ReloadUsers (plBox ?p) (Some demo_nc) [demo_user] ''info'' (ndEngine n3, ndWorld n3))
      = Some (RollbackFailed a b)"
    using demo_rollback_fails n2(2) e(1) by (auto simp: n3_def)
  then obtain e' w' where R: "ReloadUsers (plBox ?p) (Some demo_nc) [demo_user] ''info'' (ndEngine n3, ndWorld n3)
      = (Some (RollbackFailed a b), e', w')" by (metis prod.collapse)
  have "engine_ok (plBox ?p) demo_host_running snd (ndEngine n3, ndWorld n3)"
    using ok e(2) n2(2) by (simp add: n3_def engine_ok_def demo_host_running_def)
  then have "reload_outcome (ndEngine n3) (Some demo_nc) [demo_user] ''info'' (Some (RollbackFailed a b)) e'"
    using ReloadUsers_outcome [OF platform_lawsD(1) [OF demo_platform_laws] _ R] by blast
  then have e': "e' = (ndEngine n)\<lparr>instance_box := None\<rparr>" by (simp add: reload_outcome_def n3_def n2)
  obtain err where E: "envReloadUsers (node_env ?p) (Some demo_nc) [demo_user] (syLogLevel s0) n3 =
      (Some err, n3\<lparr>ndEngine := e', ndWorld := w'\<rparr>)"
    using R by (simp add: node_env_def node_ReloadUsers_def s0)
  obtain s' n4 where M: "markReload (node_env ?p) False err
      (markSync (node_env ?p) False err (int (length [demo_user]))
        (hashConfig (Some demo_nc)) (s0, n3\<lparr>ndEngine := e', ndWorld := w'\<rparr>)) = (s', n4)" by (rule prod.exhaust)
  have "snd (envNow (node_env ?p) m) = m" for m
    by (simp add: node_env_def node_now_def demo_platform_def)
  then have n4: "n4 = n3\<lparr>ndEngine := e', ndWorld := w'\<rparr>" using marks_fields [OF M] by simp
  have "Sync (node_env ?p) (s0, n) = Returns (s', n4)" by (simp add: Sync_phases u g due prep E M del: list.size)
  then have tick: "node_tick ?p SyncTick n = Returns (n4\<lparr>ndSyncer := Some s'\<rparr>)"
    by (simp add: node_sync_def s [folded s0_def])
  have "currentConfig (ndEngine n) = Some demo_nc \<and> engUsers (ndEngine n) = []"
    using e(1) demo_engine_starts [of later_fails]
    by (auto simp: demo_engine_def engine_Start_def later_fails_def install_def split: prod.splits sum.splits option.splits)
  then show ?thesis using tick e' c by (simp add: n4 node_recorded_def n3_def n2 n1_def)
qed

section \<open>The properties on this run\<close>

abbreviation demo_reachable :: "(nat \<Rightarrow> bool) \<Rightarrow> http_outcome list \<Rightarrow> (demo_box, demo_host) node \<Rightarrow> bool" where
  "demo_reachable fails outs \<equiv>
     reachable_node (demo_platform fails) demo_evolves demo_env_config (\<lambda>_. None) (start_outs @ outs, (0, []))"

lemma demo_idle: "demo_host_running (outs, (0, [])) = {}"
  by (simp add: demo_host_running_def demo_running_def)

lemma demo_started_reachable:
  assumes "\<not> fails 0"
  obtains n t where "demo_reachable fails outs n"
    "ndSyncer n = Some (SetLimiter True (SetInitialHash [] (NewUserSyncer (Some demo_nc) ''info'' True)))"
    "ndEngine n = fst (snd (demo_engine fails))" "ndWorld n = (outs, snd (snd (demo_engine fails)))"
    "ndReporter n = Some t" "pending t = []" "cfgCache (ndClient n) = Some demo_nc"
  using demo_starts [of fails outs, OF assms]
  by (elim exE conjE) (rule that [OF reachable_node.started])

lemma demo_panel_serves:
  assumes "ndWorld n = (Response 200 tag body # Response 304 [] [] # outs, v)" and "decode_users body = Some us"
    and "cfgCache (ndClient n) = Some nc"
  shows "panel_serves (demo_platform fails) n us nc"
  unfolding panel_serves_def
  using demo_users [OF assms(1,2)] assms(3) by (auto simp: demo_update demo_config_304)



theorem dead_engine_reported_ok_witness:
  "\<exists>n n' s'. demo_reachable later_fails reload_outs n
    \<and> node_tick (demo_platform later_fails) SyncTick n = Returns n' \<and> ndSyncer n' = Some s' \<and> lastSyncOK s'
    \<and> instance_box (ndEngine n') = None \<and> demo_host_running (ndWorld n') = {}"
proof -
  let ?p = "demo_platform later_fails"
  obtain n t where n: "demo_reachable later_fails reload_outs n"
    "ndSyncer n = Some (SetLimiter True (SetInitialHash [] (NewUserSyncer (Some demo_nc) ''info'' True)))"
    "ndEngine n = fst (snd (demo_engine later_fails))" "ndWorld n = (reload_outs, snd (snd (demo_engine later_fails)))"
    "ndReporter n = Some t" "pending t = []" "cfgCache (ndClient n) = Some demo_nc"
    using demo_started_reachable [of later_fails reload_outs] by (auto simp: later_fails_def)
  have "engine_ok (plBox ?p) demo_host_running snd (ndEngine n, ndWorld n)"
    using reachable_settled [OF demo_platform_laws demo_idle demo_evolves_running n(1)] demo_platform_laws
    by (simp add: node_settled_def node_ok_def)
  then obtain n1 where n1: "node_tick ?p SyncTick n = Returns n1" "instance_box (ndEngine n1) = None"
      "node_recorded n1 = (Some demo_nc, [])" "cfgCache (ndClient n1) = Some demo_nc"
    using demo_goes_down [OF n(2-7)] by blast
  define n2 where "n2 = n1\<lparr>ndLimiter := ndLimiter n1, ndEngine := (ndEngine n1)\<lparr>engStats := engStats (ndEngine n1)\<rparr>,
    ndWorld := (return_outs, snd (ndWorld n1))\<rparr>"
  have reach: "demo_reachable later_fails reload_outs n2"
    unfolding n2_def by (rule reachable_node.served [OF reachable_node.ticked [OF n(1) n1(1)]]) (simp add: demo_evolves_def)
  have "panel_serves ?p n2 [] demo_nc"
    by (rule demo_panel_serves [OF _ demo_no_users_decoded]) (simp_all add: n2_def return_outs_def n1(4))
  moreover have "instance_box (ndEngine n2) = None" "node_recorded n2 = (Some demo_nc, [])"
    using n1(2,3) by (simp_all add: n2_def node_recorded_def)
  ultimately show ?thesis
    using dead_engine_reported_ok [OF demo_platform_laws demo_idle demo_evolves_running reach, of "[]" demo_nc] reach
    by auto
qed

end
