(* ===== verification/Panel_Spec.thy ===== *)
theory Panel_Spec
  imports Panel
begin

text \<open>
  What the panel client guarantees: how often and when a request is repeated, that a cached
  answer is the current one, and that the texts it sends say what they should.
\<close>

section \<open>Retries\<close>

text \<open>
  A network that plays a list of outcomes and logs what the client does: as the outcomes are
  arbitrary, so is the behaviour of the network.
\<close>

datatype net_event = Sent request | Slept duration

definition script_net :: "(http_outcome list \<times> net_event list) network" where
  "script_net = \<lparr>
     netDo = (\<lambda>rq (outs, log).
       case outs of
         [] \<Rightarrow> (NoResponse ''connection refused'', ([], log @ [Sent rq]))
       | out # rest \<Rightarrow> (out, (rest, log @ [Sent rq]))),
     netSleep = (\<lambda>d (outs, log). (outs, log @ [Slept d]))\<rparr>"

definition retryable :: "http_outcome \<Rightarrow> bool" where
  "retryable out \<longleftrightarrow> isl (hrBody (outcome_result out)) \<and> shouldRetry (hrStatus (outcome_result out))"

lemma retryable_status:
  "retryable (NoResponse err) = False"
  "retryable (BrokenBody status etag err) = (status = 429 \<or> status \<ge> 500)"
  "retryable (Response status etag body) = (status = 429 \<or> status \<ge> 500)"
  by (auto simp: retryable_def outcome_result_def shouldRetry_def)

lemma do_attempts_script:
  "do_attempts script_net rq k (out # outs, log) =
     (if retryable out \<and> k < requestMaxAttempts
      then do_attempts script_net rq (Suc k) (outs, log @ [Sent rq, Slept (backoffDelay k)])
      else (outcome_result out, (outs, log @ [Sent rq])))"
  by (subst do_attempts.simps)
    (auto simp: doOnce_def script_net_def retryable_def split: sum.splits)

text \<open>
  C27: Retries are bounded. Of three outcomes that a request would meet, the client takes the
  first that is final (a success, a network error, a client error) or the third; before the
  second request it waits 100 ms, before the third 200 ms, and it sends the same request
  every time.
\<close>

theorem requests_are_retried:
  assumes "3 \<le> length outs" and "n = length (takeWhile retryable (take 2 outs))"
  shows "doWithHeaders script_net rq (outs, log) =
    (outcome_result (outs ! n),
     (drop (Suc n) outs, log @ take (2 * n + 1) [Sent rq, Slept 100000000, Sent rq, Slept 200000000, Sent rq]))"
proof -
  obtain a b c r where outs: "outs = a # b # c # r"
    using assms(1) by (metis Suc_le_length_iff numeral_3_eq_3)
  show ?thesis
    by (simp add: assms(2) outs doWithHeaders_def do_attempts_script requestMaxAttempts_def
        backoffDelay_def requestRetryBaseWait_def)
qed

definition sample_request :: request where
  "sample_request = \<lparr>rqMethod = ''GET'', rqEndpoint = ''http://h/x'', rqBody = [], rqIfNoneMatch = []\<rparr>"

theorem requests_are_retried_witness:
  "fst (doWithHeaders script_net sample_request ([Response 502 [] ''x'', Response 200 ''t'' ''{}'', NoResponse ''e''], []))
    = \<lparr>hrStatus = 200, hrETag = ''t'', hrBody = Inr ''{}''\<rparr>"
  using requests_are_retried [of "[Response 502 [] ''x'', Response 200 ''t'' ''{}'', NoResponse ''e'']" 1 sample_request "[]"]
  by (simp add: retryable_status outcome_result_def)

section \<open>Entity tags\<close>

text \<open>
  A server that keeps HTTP's promise about entity tags: a 200 carries the current content of
  the endpoint with its tag, and a 304 says that the current content has the tag that the
  request names. \<open>served\<close> is the content in a state of the environment.
\<close>

definition honest_server :: "'w network \<Rightarrow> (string \<Rightarrow> 'w \<Rightarrow> string) \<Rightarrow> (string \<Rightarrow> string) \<Rightarrow> bool" where
  "honest_server net served tag \<longleftrightarrow>
     (\<forall>rq w out w'. netDo net rq w = (out, w') \<longrightarrow>
        (case out of
           Response status etag body \<Rightarrow>
             (status = 200 \<longrightarrow> body = served (rqEndpoint rq) w' \<and> etag = tag body) \<and>
             (status = 304 \<longrightarrow> rqIfNoneMatch rq \<noteq> [] \<and> tag (served (rqEndpoint rq) w') = rqIfNoneMatch rq)
         | _ \<Rightarrow> True))"

definition strong_tags :: "(string \<Rightarrow> string) \<Rightarrow> bool" where
  "strong_tags tag \<longleftrightarrow> (\<forall>s t. tag s \<noteq> [] \<and> tag s = tag t \<longrightarrow> s = t)"

text \<open>The clients that any sequence of fetches leads to, whatever the environment does.\<close>

inductive reachable_client :: "'w network \<Rightarrow> client \<Rightarrow> bool" for net where
  new: "reachable_client net (NewClient url tok nid)"
| users: "reachable_client net c \<Longrightarrow> reachable_client net (fst (snd (GetUsers net c w)))"
| config: "reachable_client net c \<Longrightarrow> reachable_client net (fst (snd (GetNodeConfig net c w)))"

definition caches_fit :: "(string \<Rightarrow> string) \<Rightarrow> client \<Rightarrow> bool" where
  "caches_fit tag c \<longleftrightarrow>
     (userETag c \<noteq> [] \<longrightarrow> (\<exists>body. tag body = userETag c \<and> decode_users body = Some (usersCache c))) \<and>
     (configETag c \<noteq> [] \<longrightarrow> (\<exists>body. tag body = configETag c \<and> decode_config body = cfgCache c \<and> cfgCache c \<noteq> None))"

lemma do_attempts_last:
  "do_attempts net rq k w = (r, w') \<Longrightarrow> \<exists>w0 out. netDo net rq w0 = (out, w') \<and> r = outcome_result out"
proof (induction net rq k w rule: do_attempts.induct)
  case (1 net rq k w)
  obtain out w1 where d: "netDo net rq w = (out, w1)" by (rule prod.exhaust)
  then have once: "doOnce net rq w = (outcome_result out, w1)" by (simp add: doOnce_def)
  show ?case
    using 1(2) d 1(1) [OF once [symmetric]]
    by (subst (asm) do_attempts.simps) (auto simp: once split: sum.splits if_splits)
qed

lemma honest_answer:
  assumes "honest_server net served tag" and "doWithHeaders net rq w = (r, w')" and "hrBody r = Inr body"
  shows "hrStatus r = 304 \<and> rqIfNoneMatch rq \<noteq> [] \<and> tag (served (rqEndpoint rq) w') = rqIfNoneMatch rq
    \<or> hrStatus r = 200 \<and> body = served (rqEndpoint rq) w' \<and> hrETag r = tag body"
proof -
  obtain w0 out where "netDo net rq w0 = (out, w')" "r = outcome_result out"
    using do_attempts_last [OF assms(2) [unfolded doWithHeaders_def]] by blast
  moreover from this(1) have "case out of
      Response status etag body \<Rightarrow>
        (status = 200 \<longrightarrow> body = served (rqEndpoint rq) w' \<and> etag = tag body) \<and>
        (status = 304 \<longrightarrow> rqIfNoneMatch rq \<noteq> [] \<and> tag (served (rqEndpoint rq) w') = rqIfNoneMatch rq)
    | _ \<Rightarrow> True" using assms(1) unfolding honest_server_def by blast
  ultimately show ?thesis using assms(3)
    by (auto simp: outcome_result_def split: http_outcome.splits if_splits)
qed

lemma GetUsers_current:
  assumes server: "honest_server net served tag" "strong_tags tag" and fit: "caches_fit tag c"
    and run: "GetUsers net c w = (res, c', w')"
  shows "caches_fit tag c'" and "res = Inr us \<Longrightarrow> decode_users (served (endpoint c user_path) w') = Some us"
proof -
  obtain r w1 where D: "doWithHeaders net (get_request c user_path (userETag c)) w = (r, w1)"
    by (rule prod.exhaust)
  have "caches_fit tag c' \<and> (\<forall>x. res = Inr x \<longrightarrow> decode_users (served (endpoint c user_path) w') = Some x)"
  proof (cases "hrBody r")
    case (Inl err)
    then have "res \<noteq> Inr x" "c' = c" for x using run by (auto simp: GetUsers_def D)
    then show ?thesis using fit by blast
  next
    case (Inr body)
    consider "hrStatus r = 304" "userETag c \<noteq> []" "tag (served (endpoint c user_path) w1) = userETag c"
      | "hrStatus r = 200" "body = served (endpoint c user_path) w1" "hrETag r = tag body"
      using honest_answer [OF server(1) D Inr] by (auto simp: get_request_def)
    then show ?thesis
    proof cases
      case 1
      obtain b where b: "tag b = userETag c" "decode_users b = Some (usersCache c)"
        using fit 1(2) unfolding caches_fit_def by blast
      have "served (endpoint c user_path) w1 = b" using server(2) 1(2,3) b(1) unfolding strong_tags_def by metis
      moreover have "res = Inr (usersCache c)" "c' = c" "w' = w1"
        using run 1(1) Inr by (auto simp: GetUsers_def D)
      ultimately show ?thesis using fit b by simp
    next
      case 2
      show ?thesis
      proof (cases "decode_users body")
        case None
        then have "res = Inl (DecodeUsers body)" "c' = c" using run 2(1) Inr by (simp_all add: GetUsers_def D)
        then show ?thesis using fit by simp
      next
        case (Some v)
        have eq: "res = Inr v" "c' = c\<lparr>userETag := hrETag r, usersCache := v\<rparr>" "w' = w1"
          using run Some 2(1) Inr by (simp_all add: GetUsers_def D)
        have "caches_fit tag c'"
          using fit 2(3) Some unfolding eq caches_fit_def by auto
        then show ?thesis using Some 2(2) by (simp add: eq)
      qed
    qed
  qed
  then show "caches_fit tag c'" "res = Inr us \<Longrightarrow> decode_users (served (endpoint c user_path) w') = Some us"
    by blast+
qed

lemma GetNodeConfig_current:
  assumes server: "honest_server net served tag" "strong_tags tag" and fit: "caches_fit tag c"
    and run: "GetNodeConfig net c w = (res, c', w')"
  shows "caches_fit tag c'"
    and "res = Inr cfg \<Longrightarrow> cfg \<noteq> None \<and> decode_config (served (endpoint c config_path) w') = cfg"
proof -
  obtain r w1 where D: "doWithHeaders net (get_request c config_path (configETag c)) w = (r, w1)"
    by (rule prod.exhaust)
  have "caches_fit tag c' \<and> (\<forall>x. res = Inr x \<longrightarrow> x \<noteq> None \<and> decode_config (served (endpoint c config_path) w') = x)"
  proof (cases "hrBody r")
    case (Inl err)
    then have "res \<noteq> Inr x" "c' = c" for x using run by (auto simp: GetNodeConfig_def D)
    then show ?thesis using fit by blast
  next
    case (Inr body)
    consider "hrStatus r = 304" "configETag c \<noteq> []" "tag (served (endpoint c config_path) w1) = configETag c"
      | "hrStatus r = 200" "body = served (endpoint c config_path) w1" "hrETag r = tag body"
      using honest_answer [OF server(1) D Inr] by (auto simp: get_request_def)
    then show ?thesis
    proof cases
      case 1
      obtain b where b: "tag b = configETag c" "decode_config b = cfgCache c" "cfgCache c \<noteq> None"
        using fit 1(2) unfolding caches_fit_def by blast
      have "served (endpoint c config_path) w1 = b" using server(2) 1(2,3) b(1) unfolding strong_tags_def by metis
      moreover have "res = Inr (cfgCache c)" "c' = c" "w' = w1"
        using run 1(1) Inr by (auto simp: GetNodeConfig_def D)
      ultimately show ?thesis using fit b by simp
    next
      case 2
      show ?thesis
      proof (cases "decode_config body")
        case None
        then have "res = Inl (DecodeConfig body)" "c' = c" using run 2(1) Inr by (simp_all add: GetNodeConfig_def D)
        then show ?thesis using fit by simp
      next
        case (Some v)
        have eq: "res = Inr (Some v)" "c' = c\<lparr>configETag := hrETag r, cfgCache := Some v\<rparr>" "w' = w1"
          using run Some 2(1) Inr by (simp_all add: GetNodeConfig_def D)
        have "caches_fit tag c'"
          using fit 2(3) Some unfolding eq caches_fit_def by auto
        then show ?thesis using Some 2(2) by (simp add: eq)
      qed
    qed
  qed
  then show "caches_fit tag c'"
    "res = Inr cfg \<Longrightarrow> cfg \<noteq> None \<and> decode_config (served (endpoint c config_path) w') = cfg"
    by blast+
qed

lemma reachable_fit:
  assumes "reachable_client net c" and "honest_server net served tag" and "strong_tags tag"
  shows "caches_fit tag c"
  using assms(1)
proof (induction rule: reachable_client.induct)
  case (new url tok nid)
  show ?case by (simp add: caches_fit_def NewClient_def)
next
  case (users c w)
  show ?case using GetUsers_current(1) [OF assms(2,3) users.IH] by (metis prod.collapse)
next
  case (config c w)
  show ?case using GetNodeConfig_current(1) [OF assms(2,3) config.IH] by (metis prod.collapse)
qed

text \<open>
  C15: A cached answer is the current one. Against a server that keeps the promise of entity
  tags, after any history of fetches, of failures and of changes on the server, what
  \<open>GetUsers\<close> and \<open>GetNodeConfig\<close> return is what the server serves at that moment, and the
  configuration is never nil.
\<close>

theorem fetched_is_current:
  assumes "reachable_client net c" and "honest_server net served tag" and "strong_tags tag"
  shows "(GetUsers net c w = (Inr us, c1, w1) \<longrightarrow> decode_users (served (endpoint c user_path) w1) = Some us)
    \<and> (GetNodeConfig net c w = (Inr cfg, c2, w2) \<longrightarrow>
         cfg \<noteq> None \<and> decode_config (served (endpoint c config_path) w2) = cfg)"
  using GetUsers_current(2) [OF assms(2,3) reachable_fit [OF assms]]
    GetNodeConfig_current(2) [OF assms(2,3) reachable_fit [OF assms]] by blast

definition demo_served :: "string \<Rightarrow> nat \<Rightarrow> string" where
  "demo_served ep n = (if n < 2 then ''[]'' else ''[{}]'')"

definition demo_net :: "nat network" where
  "demo_net = \<lparr>
     netDo = (\<lambda>rq n.
       (if rqIfNoneMatch rq = demo_served (rqEndpoint rq) (Suc n) then Response 304 [] []
        else Response 200 (demo_served (rqEndpoint rq) (Suc n)) (demo_served (rqEndpoint rq) (Suc n)), Suc n)),
     netSleep = (\<lambda>d n. n)\<rparr>"

theorem fetched_is_current_witness:
  "GetUsers demo_net (fst (snd (GetUsers demo_net (NewClient ''h'' ''t'' 1) 0))) 0
     = (Inr [], fst (snd (GetUsers demo_net (NewClient ''h'' ''t'' 1) 0)), 1)"
proof -
  let ?c = "fst (snd (GetUsers demo_net (NewClient ''h'' ''t'' 1) 0))"
  obtain res c1 w1 where run: "GetUsers demo_net ?c 0 = (res, c1, w1)" by (metis prod.exhaust)
  have "honest_server demo_net demo_served (\<lambda>s. s)" by (auto simp: honest_server_def demo_net_def demo_served_def)
  moreover have "strong_tags (\<lambda>s. s)" by (simp add: strong_tags_def)
  moreover have "reachable_client demo_net ?c" by (intro reachable_client.intros)
  ultimately have current: "res = Inr us \<Longrightarrow> decode_users (demo_served (endpoint ?c user_path) w1) = Some us" for us
    using fetched_is_current [of demo_net ?c demo_served "\<lambda>s. s" 0 us c1 w1] run by blast
  have shape: "isl res = False \<and> c1 = ?c \<and> w1 = 1"
  proof -
    have "case GetUsers demo_net ?c 0 of (res, c1, w1) \<Rightarrow> isl res = False \<and> c1 = ?c \<and> w1 = 1" by code_simp
    then show ?thesis unfolding run by simp
  qed
  then obtain us where us: "res = Inr us" by (cases res) auto
  have "decode_users ''[]'' = Some []" by code_simp
  then have "us = []" using current [OF us] shape by (simp add: demo_served_def)
  then show ?thesis using run us shape by simp
qed

end
