(* ===== verification/Node_Ledger.thy ===== *)
theory Node_Ledger
  imports Node_Billing Node_Example Panel_Spec
begin

text \<open>
  The life of a node from its start on, with the traffic that its users cause: at every moment
  the panel's books, the pending records and the counters account for all of it, and a report
  that ends well leaves everything on the panel's books. Then a concrete life, with a push
  that fails before one that succeeds.
\<close>

section \<open>The life of a node\<close>

lemma keyed_loaded: "keyed (pending (fst (NewTrafficReporterWithLimit e file limit f)))"
proof -
  have "keyed (foldl (\<lambda>m item. AList.update (UID item) item m) m ts)" if "keyed m" for m and ts :: "traffic_data list"
    using that by (induction ts arbitrary: m) (simp_all add: keyed_update)
  then have "keyed (pending (bufferPending ts t))" for ts t
    by (simp add: bufferPending_def trimPending_keyed)
  then show ?thesis
    by (simp add: NewTrafficReporterWithLimit_def loadPending_def split: read_outcome.split option.split)
qed

lemma node_Start_balanced:
  assumes laws: "keeps_ledger p (endpoint (NewClient (PanelHost cfg) (PanelToken cfg) (NodeID cfg)) push_path) ledger"
    and start: "node_Start p (NewNode cfg f w) = Returns (None, n)"
  shows "node_balanced (endpoint (NewClient (PanelHost cfg) (PanelToken cfg) (NodeID cfg)) push_path) ledger
    (\<lambda>d uid. ledger w d uid + pending_amount (the (ndReporter n)) d uid) n"
proof -
  let ?c = "NewClient (PanelHost cfg) (PanelToken cfg) (NodeID cfg)" and ?n0 = "NewNode cfg f w :: ('a, 'b) node"
  have c0: "endpoint (ndClient ?n0) push_path = endpoint ?c push_path" by (simp add: NewNode_def)
  show ?thesis using start
  proof (cases rule: node_Start_cases)
    case (ready nc n1 us n2 n3)
    let ?n1 = "n1\<lparr>ndCfg := choose_intervals nc (ndCfg n1)\<rparr>"
    have to: "same_books ledger m m' \<Longrightarrow> same_books ledger ?n0 m \<Longrightarrow> same_books ledger ?n0 m'" for m m'
      using same_books_trans by blast
    have url: "keeps_ledger p (endpoint (ndClient m) push_path) ledger" if "same_books ledger ?n0 m" for m
      using that laws c0 by (simp add: same_books_def)
    note calls = node_calls_same_books [OF url]
    have s0: "same_books ledger ?n0 ?n0" by (simp add: same_books_def)
    have "same_books ledger ?n0 n1" using calls(3) [OF s0] ready(1) by simp
    then have s1: "same_books ledger ?n0 ?n1" by (simp add: same_books_def)
    have s2: "same_books ledger ?n0 n2" using to [OF calls(2) [OF s1] s1] ready(2) by simp
    let ?n2 = "node_UpdateUsers p us n2"
    have s2': "same_books ledger ?n0 ?n2" using to [OF calls(6) [OF s2] s2] .
    let ?n3 = "snd (node_GetUserAlive p ?n2)"
    have s3': "same_books ledger ?n0 ?n3" using to [OF calls(4) [OF s2'] s2'] .
    have "n3 = ?n3 \<or> (\<exists>alive. n3 = ?n3\<lparr>ndLimiter := UpdateAliveList alive (ndLimiter ?n3)\<rparr>)"
      using ready(3) by (cases "node_GetUserAlive p ?n2") (auto simp: refreshAliveCounts_def node_env_def split: sum.splits)
    then have s3: "same_books ledger ?n0 n3" using s3' by (auto simp: same_books_def)
    obtain r e w' where E: "engine_Start (plBox p) (Some nc) us (LogLevel (ndCfg n3)) (ndEngine n3, ndWorld n3) = (r, e, w')"
      by (rule prod_cases3)
    let ?n4 = "n3\<lparr>ndEngine := e, ndWorld := w'\<rparr>"
    have s4: "same_books ledger ?n0 ?n4" using s3 engine_Start_ledger [OF laws E] by (simp add: same_books_def)
    have n: "n = node_attach p nc us ?n4" using ready(4) E by (auto split: option.splits)
    let ?n5 = "snd (build_alive ?n4)"
    have s5: "same_books ledger ?n0 ?n5" by (rule to [OF calls(7) [OF s4] s4])
    let ?n6 = "snd (node_SendAlive p (fst (build_alive ?n4)) ?n5)"
    have s6: "same_books ledger ?n0 ?n6" by (rule to [OF calls(5) [OF s5] s5])
    obtain io w6 where I: "plIO p (ndWorld ?n6) = (io, w6)" by (rule prod.exhaust)
    obtain t f' where T: "NewTrafficReporterWithLimit io (TrafficStateFile (ndCfg ?n6))
        (TrafficPendingMaxUsers (ndCfg ?n6)) (ndFiles ?n6) = (t, f')" by (rule prod.exhaust)
    have "ndReporter n = Some t \<and> ndClient n = ndClient ?n6 \<and> ndWorld n = w6 \<and> engStats (ndEngine n) = engStats (ndEngine ?n6)"
      using I T by (simp add: n node_attach_def case_prod_beta)
    moreover have "ledger w6 = ledger (ndWorld ?n6)" using keeps_ledgerD(4) [OF laws, of "ndWorld ?n6"] I by simp
    moreover have "keyed (pending t)"
      using T keyed_loaded by (metis fst_conv)
    ultimately show ?thesis
      using s6 c0 by (simp add: node_balanced_def books_def same_books_def NewNode_def NewEngine_def NewStatsTracker_def
          stats_outstanding_def)
  qed simp_all
qed

text \<open>
  The histories of a node with the traffic carried so far; what the state file restored at the
  start counts as carried. Between ticks connections come and go and the environment goes on
  by itself. A report, also the one in a synchronisation, is made when it fits.
\<close>

inductive node_history ::
  "('b, 'w, 'r, 'o) platform \<Rightarrow> ('w \<Rightarrow> 'w \<Rightarrow> bool) \<Rightarrow> config \<Rightarrow> fs \<Rightarrow> 'w \<Rightarrow> ('b, 'w) node
     \<Rightarrow> (dir \<Rightarrow> int \<Rightarrow> int64) \<Rightarrow> bool"
  for p evolves cfg f w where
  started: "node_Start p (NewNode cfg f w) = Returns (None, n) \<Longrightarrow>
    node_history p evolves cfg f w n (\<lambda>d uid. pending_amount (the (ndReporter n)) d uid)"
| ticked: "node_history p evolves cfg f w n c \<Longrightarrow> report_fits n \<Longrightarrow> node_tick p t n = Returns n' \<Longrightarrow>
    node_history p evolves cfg f w n' c"
| carrying: "node_history p evolves cfg f w n c \<Longrightarrow>
    node_history p evolves cfg f w
      (n\<lparr>ndEngine := (ndEngine n)\<lparr>engStats := AddTraffic name up down (engStats (ndEngine n))\<rparr>\<rparr>)
      (\<lambda>d uid. c d uid + carried d uid name up down)"
| serving: "node_history p evolves cfg f w n c \<Longrightarrow> evolves (ndWorld n) w' \<Longrightarrow>
    node_history p evolves cfg f w
      (n\<lparr>ndLimiter := l, ndEngine := (ndEngine n)\<lparr>engStats := (engStats (ndEngine n))\<lparr>activeUsers := a\<rparr>\<rparr>,
        ndWorld := w'\<rparr>) c"

abbreviation push_url :: "config \<Rightarrow> string" where
  "push_url cfg \<equiv> endpoint (NewClient (PanelHost cfg) (PanelToken cfg) (NodeID cfg)) push_path"

lemma node_history_balanced:
  assumes laws: "keeps_ledger p (push_url cfg) ledger" and still: "\<And>v v'. evolves v v' \<Longrightarrow> ledger v' = ledger v"
    and hist: "node_history p evolves cfg f w n c"
  shows "node_balanced (push_url cfg) ledger (\<lambda>d uid. ledger w d uid + c d uid) n"
  using hist
proof (induction rule: node_history.induct)
  case (started n)
  then show ?case by (rule node_Start_balanced [OF laws])
next
  case (ticked n c t n')
  show ?case by (rule node_tick_balanced [OF laws ticked.IH ticked.hyps(2,3)])
next
  case (carrying n c name up down)
  then obtain t where t: "ndReporter n = Some t" by (auto simp: node_balanced_def split: option.splits)
  let ?n = "n\<lparr>ndEngine := (ndEngine n)\<lparr>engStats := AddTraffic name up down (engStats (ndEngine n))\<rparr>\<rparr>"
  have "books ledger ?n d uid = books ledger n d uid + carried d uid name up down" for d uid
    by (simp add: books_def AddTraffic_outstanding carried_def Let_def)
  moreover have "books ledger n d uid = ledger w d uid + c d uid" for d uid
    using carrying.IH by (simp add: node_balanced_def)
  ultimately have "books ledger ?n d uid = ledger w d uid + (c d uid + carried d uid name up down)" for d uid
    by (simp only: add.assoc)
  then show ?case using carrying.IH t by (simp add: node_balanced_def AddTraffic_ok)
next
  case (serving n c w' l a)
  then obtain t where t: "ndReporter n = Some t" by (auto simp: node_balanced_def split: option.splits)
  have "ledger w' = ledger (ndWorld n)" by (rule still [OF serving.hyps(2)])
  then show ?case using serving.IH t by (simp add: node_balanced_def books_def stats_outstanding_def)
qed



section \<open>A concrete life\<close>

text \<open>
  A panel that refuses the first push and keeps the bodies of those it accepts; a sing-box
  that always starts. The environment is the number of pushes and the bodies.
\<close>

type_synonym booked_world = "nat \<times> string list"

definition booked_platform :: "(unit, booked_world, string, string) platform" where
  "booked_platform = \<lparr>
     plNet = \<lparr>
       netDo = (\<lambda>rq (k, log).
         if rqMethod rq = ''GET'' then
           (if rqEndpoint rq = endpoint (NewClient ''h'' ''t'' 1) config_path then Response 200 [] demo_body
            else if rqEndpoint rq = endpoint (NewClient ''h'' ''t'' 1) user_path then Response 200 [] ''[]''
            else NoResponse ''refused'', (k, log))
         else if rqMethod rq = ''POST'' \<and> rqEndpoint rq = push_url demo_env_config
         then (if k = 0 then (NoResponse ''timeout'', (1, log)) else (Response 200 [] [], (k, rqBody rq # log)))
         else (NoResponse ''refused'', (k, log))),
       netSleep = (\<lambda>d w. w)\<rparr>,
     plBox = \<lparr>boxNew = (\<lambda>opts w. (Inr (), w)), boxAppendTracker = (\<lambda>b w. w), boxStart = (\<lambda>b w. (None, w)),
       boxClose = (\<lambda>b w. (None, w)), boxDecoders = \<lparr>decRoute = (\<lambda>s. None), decRules = (\<lambda>s. None)\<rparr>\<rparr>,
     plNow = Pair 0, plIO = Pair io_ok, plDecodeText = (\<lambda>s. s), plConfigText = (\<lambda>err. [])\<rparr>"

definition booked :: "booked_world \<Rightarrow> dir \<Rightarrow> int \<Rightarrow> int64" where
  "booked w d uid = sum_list (map (stated d uid) (snd w))"

lemma booked_laws: "keeps_ledger booked_platform (push_url demo_env_config) booked"
  by (auto simp: keeps_ledger_def booked_platform_def booked_def push_effect_def accepted_def fun_eq_iff)

definition knows_panel :: "client \<Rightarrow> bool" where
  "knows_panel c \<longleftrightarrow> endpoint c = endpoint (NewClient ''h'' ''t'' 1)"

lemma knows_panel_simps [simp]:
  "knows_panel (NewClient ''h'' ''t'' 1)"
  "knows_panel (c\<lparr>configETag := x, cfgCache := y\<rparr>) = knows_panel c"
  "knows_panel (c\<lparr>userETag := x, usersCache := z\<rparr>) = knows_panel c"
  by (simp_all add: knows_panel_def endpoint_def fun_eq_iff)

lemma endpoints_differ:
  "endpoint c user_path \<noteq> endpoint c config_path" "endpoint c alivelist_path \<noteq> endpoint c config_path"
  "endpoint c alivelist_path \<noteq> endpoint c user_path"
  by (simp_all add: endpoint_def user_path_def config_path_def alivelist_path_def)

lemma booked_request:
  assumes "netDo (plNet booked_platform) rq w = (out, w')" and "\<not> retryable out"
  shows "doWithHeaders (plNet booked_platform) rq w = (outcome_result out, w')"
  using assms by (subst doWithHeaders_def, subst do_attempts.simps)
    (auto simp: doOnce_def retryable_def split: sum.split)

lemma booked_get:
  "knows_panel c \<Longrightarrow> netDo (plNet booked_platform) (get_request c path tag) w =
     (if endpoint c path = endpoint c config_path then Response 200 [] demo_body
      else if endpoint c path = endpoint c user_path then Response 200 [] ''[]''
      else NoResponse ''refused'', w)"
  by (cases w) (simp add: booked_platform_def get_request_def knows_panel_def)

lemma booked_alive:
  "knows_panel c \<Longrightarrow> netDo (plNet booked_platform) (post_request c alive_path body) w = (NoResponse ''refused'', w)"
  using other_endpoint [of "NewClient ''h'' ''t'' 1"]
  by (cases w) (simp add: booked_platform_def post_request_def knows_panel_def demo_env_config_def)

lemma booked_requests:
  assumes "knows_panel c"
  shows "doWithHeaders (plNet booked_platform) (get_request c config_path tag) w =
      (\<lparr>hrStatus = 200, hrETag = [], hrBody = Inr demo_body\<rparr>, w)"
    and "doWithHeaders (plNet booked_platform) (get_request c user_path tag) w =
      (\<lparr>hrStatus = 200, hrETag = [], hrBody = Inr ''[]''\<rparr>, w)"
    and "doWithHeaders (plNet booked_platform) (get_request c alivelist_path tag) w =
      (\<lparr>hrStatus = 0, hrETag = [], hrBody = Inl ''refused''\<rparr>, w)"
    and "doWithHeaders (plNet booked_platform) (post_request c alive_path body) w =
      (\<lparr>hrStatus = 0, hrETag = [], hrBody = Inl ''refused''\<rparr>, w)"
  using booked_request [OF booked_get [OF assms], of _ tag w] booked_request [OF booked_alive [OF assms], of body w]
    endpoints_differ [of c]
  by (simp_all add: retryable_status outcome_result_def)

lemma booked_starts:
  "\<exists>n t. node_Start booked_platform (NewNode demo_env_config (\<lambda>_. None) (0, [])) = Returns (None, n)
    \<and> ndReporter n = Some t \<and> t = fst (NewTrafficReporterWithLimit io_ok [] 10 (\<lambda>_. None))
    \<and> engStats (ndEngine n) = NewStatsTracker \<and> knows_panel (ndClient n)
    \<and> ndWorld n = (0, []) \<and> ndFiles n = (\<lambda>_. None)"
proof -
  let ?p = booked_platform and ?n = "NewNode demo_env_config (\<lambda>_. None) (0, []) :: (unit, booked_world) node"
  have cfg: "PanelHost demo_env_config = ''h''" "PanelToken demo_env_config = ''t''" "NodeID demo_env_config = 1"
    "TrafficStateFile demo_env_config = []" "TrafficPendingMaxUsers demo_env_config = 10"
    by (simp_all add: demo_env_config_def)
  have same: "choose_intervals demo_nc demo_env_config = demo_env_config"
    by (simp add: choose_intervals_def demo_node_config_def zero_config_def)
  obtain n1 where c: "node_GetNodeConfig ?p ?n = (Inr (Some demo_nc), n1)" "ndCfg n1 = demo_env_config"
      "ndEngine n1 = ndEngine ?n" "ndWorld n1 = (0, [])" "knows_panel (ndClient n1)" "ndFiles n1 = (\<lambda>_. None)"
    by (simp add: node_GetNodeConfig_def GetNodeConfig_def NewNode_def cfg booked_requests demo_body_decoded)
  obtain n2 where u: "node_GetUsers ?p (n1\<lparr>ndCfg := demo_env_config\<rparr>) = (Inr [], n2)" "ndCfg n2 = demo_env_config"
      "ndEngine n2 = ndEngine ?n" "ndWorld n2 = (0, [])" "knows_panel (ndClient n2)" "ndFiles n2 = (\<lambda>_. None)"
    using c by (simp add: node_GetUsers_def GetUsers_def booked_requests demo_no_users_decoded)
  obtain n3 where a: "refreshAliveCounts (node_env ?p) LimiterPointer (node_UpdateUsers ?p [] n2) = Returns n3"
      "ndCfg n3 = demo_env_config" "ndEngine n3 = ndEngine ?n" "ndWorld n3 = (0, [])" "knows_panel (ndClient n3)"
      "ndFiles n3 = (\<lambda>_. None)"
  proof -
    let ?n2 = "n2\<lparr>ndLimiter := UpdateUsers 0 [] (ndLimiter n2)\<rparr>"
    have "node_UpdateUsers ?p [] n2 = ?n2"
      by (simp add: node_UpdateUsers_def node_now_def) (simp add: booked_platform_def)
    moreover have "node_GetUserAlive ?p ?n2 = (Inl (FetchAlive ''refused''), ?n2)"
      using u by (simp add: node_GetUserAlive_def GetUserAlive_def booked_requests)
    ultimately have "refreshAliveCounts (node_env ?p) LimiterPointer (node_UpdateUsers ?p [] n2) = Returns ?n2"
      by (simp add: refreshAliveCounts_def node_env_def)
    then show ?thesis using that [of ?n2] u by simp
  qed
  obtain e where e: "engine_Start (plBox ?p) (Some demo_nc) [] ''info'' (ndEngine n3, (0, [])) = (None, e, (0, []))"
      "engStats e = NewStatsTracker"
    using demo_accepted [of "boxDecoders (plBox ?p)" "[]" "''info''" "clashAPIListenAddr (ndEngine n3)" "googleIPv6 (ndEngine n3)"] a(3)
    by (auto simp: engine_Start_def createBox_def booked_platform_def install_def NewNode_def NewEngine_def)
  let ?n4 = "n3\<lparr>ndEngine := e, ndWorld := (0, [])\<rparr>"
  have start: "node_Start ?p ?n = Returns (None, node_attach ?p demo_nc [] ?n4)"
    using c u a e same by (simp add: node_Start_def Let_def demo_env_config_def)
  have io: "plIO ?p w = (io_ok, w)" for w by (simp add: booked_platform_def)
  have sent: "node_SendAlive ?p alive n = (Some (SendFailed ''refused''), n)"
    if "knows_panel (ndClient n)" "ndWorld n = (0, [])" for alive n
    using that by (simp add: node_SendAlive_def SendAlive_def booked_requests)
  have sent': "node_SendAlive ?p alive (n3\<lparr>ndEngine := e, ndWorld := (0, []), ndLimiter := l\<rparr>) =
      (Some (SendFailed ''refused''), n3\<lparr>ndEngine := e, ndWorld := (0, []), ndLimiter := l\<rparr>)" for alive l
    by (rule sent) (simp_all add: a(5))
  show ?thesis
    unfolding start
    using a e by (simp add: node_attach_def build_alive_def case_prod_beta sent' io cfg
        NewTrafficReporterWithLimit_def loadPending_def)
qed

text \<open>A report with something to push, over a node without state file.\<close>

abbreviation booked_Report :: "nat \<Rightarrow> reporter \<Rightarrow> stats_tracker \<Rightarrow> traffic_data list \<times> reporter \<times> fs \<times> stats_tracker" where
  "booked_Report k t s \<equiv>
     Report CollectTraffic (\<lambda>_. if k = 0 then Some ''failed to push traffic to Xboard: timeout'' else None) io_ok 0
       (t, (\<lambda>_. None), s)"

definition booked_node :: "reporter \<Rightarrow> stats_tracker \<Rightarrow> nat \<Rightarrow> (unit, booked_world) node \<Rightarrow> bool" where
  "booked_node t s k n \<longleftrightarrow> ndReporter n = Some t \<and> engStats (ndEngine n) = s \<and> fst (ndWorld n) = k
     \<and> knows_panel (ndClient n) \<and> ndFiles n = (\<lambda>_. None)"

lemma booked_push:
  assumes "knows_panel c"
  shows "PushTraffic (plNet booked_platform) c data (k, log) =
    (if k = 0 then (Some (PushFailed ''timeout''), (1, log)) else (None, (k, push_payload data # log)))"
proof -
  have "netDo (plNet booked_platform) (post_request c push_path (push_payload data)) (k, log) =
      (if k = 0 then NoResponse ''timeout'' else Response 200 [] [],
       if k = 0 then (1, log) else (k, push_payload data # log))"
    using assms by (simp add: booked_platform_def post_request_def knows_panel_def demo_env_config_def)
  from booked_request [OF this] show ?thesis
    by (simp add: PushTraffic_def retryable_status outcome_result_def)
qed

lemma booked_report:
  assumes "booked_node t s k n" and "fst (buildPushPayload (fst (fst (CollectTraffic s))) t) \<noteq> []"
    and "booked_Report k t s = (acked, t', (\<lambda>_. None), s')"
  shows "\<exists>n'. node_Report booked_platform n = (acked, n') \<and> booked_node t' s' (if k = 0 then 1 else k) n'"
proof -
  obtain log where w: "ndWorld n = (k, log)" using assms(1) by (cases "ndWorld n") (simp add: booked_node_def)
  have data: "fst (buildPushPayload (fst (fst (engine_CollectTraffic (ndEngine n)))) t) =
      fst (buildPushPayload (fst (fst (CollectTraffic s))) t)"
    using assms(1) by (simp add: booked_node_def engine_CollectTraffic_def case_prod_beta)
  let ?push = "\<lambda>_ :: traffic_data list. if k = 0 then Some ''failed to push traffic to Xboard: timeout'' else None"
  obtain a t1 f1 e1 where R: "Report engine_CollectTraffic ?push io_ok 0 (t, ndFiles n, ndEngine n) = (a, t1, f1, e1)"
    by (metis prod.exhaust)
  have "a = acked \<and> t1 = t' \<and> f1 = (\<lambda>_. None) \<and> engStats e1 = s'"
    using Report_engine [OF R] assms(1,3) by (simp add: booked_node_def)
  then show ?thesis using assms(1,2) R
    by (cases "k = 0")
      (simp_all add: booked_node_def node_Report_def data booked_push w booked_platform_def [THEN arg_cong, of plIO]
        booked_platform_def [THEN arg_cong, of plNow] booked_platform_def [THEN arg_cong, of plDecodeText])
qed

text \<open>
  A user carries 5 bytes, and the push of the first report fails; the user carries 2 more,
  and the second report succeeds.
\<close>

definition before_first :: stats_tracker where
  "before_first = AddTraffic ''user-7'' 5 0 NewStatsTracker"

definition first_reporter :: reporter where
  "first_reporter = fst (NewTrafficReporterWithLimit io_ok [] 10 (\<lambda>_. None))"

definition after_first :: "reporter \<times> stats_tracker" where
  "after_first = (case booked_Report 0 first_reporter before_first of (_, t, _, s) \<Rightarrow> (t, s))"

definition before_second :: stats_tracker where
  "before_second = AddTraffic ''user-7'' 2 0 (snd after_first)"

definition after_second :: "reporter \<times> stats_tracker" where
  "after_second = (case booked_Report 1 (fst after_first) before_second of (_, t, _, s) \<Rightarrow> (t, s))"

lemma life_facts:
  "fits first_reporter before_first" "fits (fst after_first) before_second"
  "fst (buildPushPayload (fst (fst (CollectTraffic before_first))) first_reporter) \<noteq> []"
  "fst (buildPushPayload (fst (fst (CollectTraffic before_second))) (fst after_first)) \<noteq> []"
  "lastReportOK (fst after_second)" "pending_amount first_reporter Up 7 = 0"
  "carried Up 7 ''user-7'' 5 0 = 5" "carried Up 7 ''user-7'' 2 0 = 2"
  "pending_amount (fst after_first) Up 7 = 5" "stats_outstanding before_second Up 7 = 2"
  by code_simp+

lemma booked_files:
  "stateFile t = [] \<Longrightarrow> Report collect push e now (t, f, c) = (acked, t', f', c') \<Longrightarrow> f' = f"
  by (auto simp: Report_def markReport_def bufferPending_def persistPending_def clearPersistedPending_def Let_def
      split: prod.splits option.splits if_splits)

lemma booked_reports:
  "\<exists>acked. booked_Report 0 first_reporter before_first = (acked, fst after_first, (\<lambda>_. None), snd after_first)"
  "\<exists>acked. booked_Report 1 (fst after_first) before_second = (acked, fst after_second, (\<lambda>_. None), snd after_second)"
proof -
  have no_file: "stateFile first_reporter = []" "stateFile (fst after_first) = []" by code_simp+
  show "\<exists>acked. booked_Report 0 first_reporter before_first = (acked, fst after_first, (\<lambda>_. None), snd after_first)"
    using booked_files [OF no_file(1)]
    by (cases "booked_Report 0 first_reporter before_first") (auto simp: after_first_def)
  show "\<exists>acked. booked_Report 1 (fst after_first) before_second = (acked, fst after_second, (\<lambda>_. None), snd after_second)"
    using booked_files [OF no_file(2)]
    by (cases "booked_Report 1 (fst after_first) before_second") (auto simp: after_second_def)
qed

abbreviation booked_history :: "(unit, booked_world) node \<Rightarrow> (dir \<Rightarrow> int \<Rightarrow> int64) \<Rightarrow> bool" where
  "booked_history \<equiv> node_history booked_platform (=) demo_env_config (\<lambda>_. None) (0, [])"

lemma booked_life:
  obtains n c where "booked_history n c" "c Up 7 = 7" "booked_node (fst after_first) before_second 1 n"
proof -
  obtain n where start: "node_Start booked_platform (NewNode demo_env_config (\<lambda>_. None) (0, [])) = Returns (None, n)"
    and n: "booked_node first_reporter NewStatsTracker 0 n"
    using booked_starts by (auto simp: booked_node_def first_reporter_def)
  let ?c0 = "\<lambda>d uid. pending_amount (the (ndReporter n)) d uid"
  have h0: "booked_history n ?c0" by (rule node_history.started [OF start])
  define n1 where "n1 = n\<lparr>ndEngine := (ndEngine n)\<lparr>engStats := AddTraffic ''user-7'' 5 0 (engStats (ndEngine n))\<rparr>\<rparr>"
  have n1: "booked_node first_reporter before_first 0 n1" using n by (simp add: n1_def booked_node_def before_first_def)
  have h1: "booked_history n1 (\<lambda>d uid. ?c0 d uid + carried d uid ''user-7'' 5 0)"
    unfolding n1_def by (rule node_history.carrying [OF h0])
  obtain acked where r: "booked_Report 0 first_reporter before_first = (acked, fst after_first, (\<lambda>_. None), snd after_first)"
    using booked_reports(1) by blast
  obtain n2 where n2: "node_Report booked_platform n1 = (acked, n2)" "booked_node (fst after_first) (snd after_first) 1 n2"
    using booked_report [OF n1 life_facts(3) r] by auto
  have "node_tick booked_platform ReportTick n1 = Returns n2" by (simp add: n2)
  moreover have "report_fits n1" using n1 life_facts(1) by (simp add: report_fits_def booked_node_def)
  ultimately have h2: "booked_history n2 (\<lambda>d uid. ?c0 d uid + carried d uid ''user-7'' 5 0)"
    by (intro node_history.ticked [OF h1])
  define n3 where "n3 = n2\<lparr>ndEngine := (ndEngine n2)\<lparr>engStats := AddTraffic ''user-7'' 2 0 (engStats (ndEngine n2))\<rparr>\<rparr>"
  have n3: "booked_node (fst after_first) before_second 1 n3"
    using n2(2) by (simp add: n3_def booked_node_def before_second_def)
  have h3: "booked_history n3 (\<lambda>d uid. ?c0 d uid + carried d uid ''user-7'' 5 0 + carried d uid ''user-7'' 2 0)"
    unfolding n3_def by (rule node_history.carrying [OF h2])
  have "?c0 Up 7 = 0" using n life_facts(6) by (simp add: booked_node_def)
  then show ?thesis using that [OF h3 _ n3] life_facts(7,8) by simp
qed



end
