(* ===== verification/Env_Spec.thy ===== *)
theory Env_Spec
  imports Env
begin

text \<open>
  What the configuration guarantees to the rest of the program, and that the environment
  file never overrides a variable that the process was started with.
\<close>

section \<open>Values\<close>

lemma lookupTrimmedEnv_nonempty: "lookupTrimmedEnv env key = Some v \<Longrightarrow> v \<noteq> []"
  by (auto simp: lookupTrimmedEnv_def split: option.splits if_splits)

lemma positive_value:
  "loadOptionalPositiveIntEnv env key d = Inr (v, explicit) \<Longrightarrow> 0 < d
    \<Longrightarrow> 0 < v \<and> explicit = (lookupTrimmedEnv env key \<noteq> None) \<and> (\<not> explicit \<longrightarrow> v = d)"
proof (cases "lookupTrimmedEnv env key")
  case (Some raw)
  assume "loadOptionalPositiveIntEnv env key d = Inr (v, explicit)" "0 < d"
  then show ?thesis using Some by (cases "Atoi raw") (simp_all add: loadOptionalPositiveIntEnv_def split: if_splits)
qed (simp add: loadOptionalPositiveIntEnv_def)

lemma positive_value_only:
  "loadOptionalPositiveIntEnvValue env key d = Inr v \<Longrightarrow> 0 < d \<Longrightarrow> 0 < v"
proof (cases "loadOptionalPositiveIntEnv env key d")
  case (Inr p)
  assume "loadOptionalPositiveIntEnvValue env key d = Inr v" "0 < d"
  moreover obtain v' explicit where "p = (v', explicit)" by (rule prod.exhaust)
  ultimately show ?thesis using Inr positive_value [of env key d v' explicit]
    by (simp add: loadOptionalPositiveIntEnvValue_def)
qed (simp add: loadOptionalPositiveIntEnvValue_def)

lemma node_ids_positive:
  "parse_node_ids parts ids = Inr out \<Longrightarrow> \<forall>i \<in> set ids. 0 < i \<Longrightarrow> \<forall>i \<in> set out. 0 < i"
  by (induction parts ids rule: parse_node_ids.induct) (auto split: if_splits option.splits)

lemma log_level_known:
  "loadOptionalLogLevelEnv env key ''info'' = Inr v \<Longrightarrow> v \<in> {''debug'', ''info'', ''warn'', ''error''}"
  by (auto simp: loadOptionalLogLevelEnv_def split: option.splits if_splits)


section \<open>The environment file\<close>

lemma env_assign_keeps: "Getenv env key \<noteq> [] \<Longrightarrow> env_assign env line key = env key"
  by (auto simp: env_assign_def Setenv_def Getenv_def split: option.splits)

lemma env_assigns_keep: "Getenv env key \<noteq> [] \<Longrightarrow> foldl env_assign env lines key = env key"
proof (induction lines arbitrary: env)
  case (Cons line lines)
  have "env_assign env line key = env key" using Cons.prems by (rule env_assign_keeps)
  then show ?case using Cons.IH [of "env_assign env line"] Cons.prems by (simp add: Getenv_def)
qed simp

definition file_sets :: "string \<Rightarrow> string \<Rightarrow> string \<Rightarrow> bool" where
  "file_sets key val line \<longleftrightarrow> env_line line = Some (key, val)"

lemma env_assigns_skip:
  assumes "\<forall>line \<in> set lines. \<forall>val. env_line line \<noteq> Some (key, val)"
  shows "foldl env_assign env lines key = env key"
  using assms
proof (induction lines arbitrary: env)
  case (Cons line lines)
  have "env_assign env line key = env key"
    using Cons.prems by (auto simp: env_assign_def Setenv_def split: option.splits)
  then show ?case using Cons by simp
qed simp

text \<open>
  C33: The environment wins over the file, and in the file the first assignment that gives a
  value wins. A variable that is set and not empty keeps its value; one that is not gets the
  value of the first line that assigns it, if the operating system takes that value and it
  is not empty.
\<close>

theorem env_file_precedence:
  assumes "os_ReadFile err path f = Contents content" and "Split content (CHR 0x0A) = before @ line # after"
  shows "(Getenv env key \<noteq> [] \<longrightarrow> tryLoadEnvFile err path f env key = env key)
    \<and> (Getenv env key = [] \<and> (\<forall>l \<in> set before. \<forall>v. \<not> file_sets key v l) \<and> file_sets key val line
         \<and> val \<noteq> [] \<and> key \<noteq> [] \<and> CHR ''='' \<notin> set key \<and> CHR 0x00 \<notin> set key \<and> CHR 0x00 \<notin> set val
       \<longrightarrow> tryLoadEnvFile err path f env key = Some val)"
proof (intro conjI impI)
  have load: "tryLoadEnvFile err path f env = foldl env_assign env (before @ line # after)"
    by (simp add: tryLoadEnvFile_def assms)
  show "tryLoadEnvFile err path f env key = env key" if "Getenv env key \<noteq> []"
    unfolding load by (rule env_assigns_keep [OF that])
  assume *: "Getenv env key = [] \<and> (\<forall>l \<in> set before. \<forall>v. \<not> file_sets key v l) \<and> file_sets key val line
    \<and> val \<noteq> [] \<and> key \<noteq> [] \<and> CHR ''='' \<notin> set key \<and> CHR 0x00 \<notin> set key \<and> CHR 0x00 \<notin> set val"
  let ?env = "foldl env_assign env before"
  have "?env key = env key" using * by (intro env_assigns_skip) (auto simp: file_sets_def)
  then have "env_assign ?env line key = Some val"
    using * by (simp add: env_assign_def file_sets_def Setenv_def Getenv_def)
  then show "tryLoadEnvFile err path f env key = Some val"
    using env_assigns_keep [of "env_assign ?env line" key after] * by (simp add: load Getenv_def)
qed

section \<open>Examples\<close>

definition demo_env :: environ where
  "demo_env = [''PANEL_HOST'' \<mapsto> '' https://p '', ''PANEL_TOKEN'' \<mapsto> ''t'', ''NODE_ID'' \<mapsto> ''3, 5'', ''SYNC_INTERVAL'' \<mapsto> ''30'']"


theorem env_file_precedence_witness:
  "tryLoadEnvFile None ''e'' [''e'' \<mapsto> ''A=1''] Map.empty ''A'' = Some ''1''
    \<and> tryLoadEnvFile None ''e'' [''e'' \<mapsto> ''A=1''] [''A'' \<mapsto> ''2''] ''A'' = Some ''2''"
proof -
  have read: "os_ReadFile None ''e'' [''e'' \<mapsto> ''A=1''] = Contents ''A=1''" by (simp add: os_ReadFile_def)
  have split: "Split ''A=1'' (CHR 0x0A) = [] @ ''A=1'' # []" by code_simp
  have sets: "file_sets ''A'' ''1'' ''A=1''" by code_simp
  show ?thesis
    using env_file_precedence [OF read split, of Map.empty "''A''" "''1''"]
      env_file_precedence [OF read split, of "[''A'' \<mapsto> ''2'']" "''A''" "''1''"] sets
    by (simp add: Getenv_def)
qed

end
