(* ===== verification/Tickers.thy ===== *)
theory Tickers
  imports Node Env_Spec
begin

text \<open>
  The tickers of \<open>core/node.go\<close>. \<open>runTickers\<close> runs in a goroutine of its own and first makes
  its three tickers, from the intervals chosen at the start. \<open>time.NewTicker\<close> panics on a
  period that is not positive, and a panic in a goroutine ends the process.
\<close>

text \<open>\<open>time.Duration(n) * time.Second\<close>, in 64 bits.\<close>

definition seconds :: "int \<Rightarrow> duration" where
  "seconds n = sint (word_of_int (n * second_ns) :: int64)"

definition aliveReportInterval :: duration where
  "aliveReportInterval = 60 * second_ns"

definition NewTicker :: "duration \<Rightarrow> duration option" where
  "NewTicker d = (if d \<le> 0 then None else Some d)"

definition start_tickers :: "config \<Rightarrow> (duration \<times> duration \<times> duration) option" where
  "start_tickers cfg =
     (case NewTicker (seconds (SyncInterval cfg)) of
        None \<Rightarrow> None
      | Some syncTicker \<Rightarrow>
          (case NewTicker (seconds (ReportInterval cfg)) of
             None \<Rightarrow> None
           | Some reportTicker \<Rightarrow>
               (case NewTicker aliveReportInterval of
                  None \<Rightarrow> None
                | Some aliveTicker \<Rightarrow> Some (syncTicker, reportTicker, aliveTicker))))"

section \<open>Which intervals are usable\<close>

lemma seconds_mod: "seconds n = (n * second_ns + 2 ^ 63) mod 2 ^ 64 - 2 ^ 63"
  unfolding seconds_def by (subst sint_sbintrunc') (simp add: signed_take_bit_eq_take_bit_shift take_bit_eq_mod)

lemma seconds_exact: "0 < n \<Longrightarrow> n \<le> 9223372036 \<Longrightarrow> seconds n = n * second_ns"
  by (simp add: seconds_mod second_ns_def)

lemma seconds_overflow:
  assumes "9223372036 < n" and "n \<le> 18446744073"
  shows "seconds n < 0"
proof -
  have "(n * second_ns + 2 ^ 63) mod 2 ^ 64 = n * second_ns + 2 ^ 63 - 2 ^ 64"
    using assms mod_pos_pos_trivial [of "n * second_ns + 2 ^ 63 - 2 ^ 64" "2 ^ 64"] minus_mod_self2 [of "n * second_ns + 2 ^ 63" "2 ^ 64"]
    by (simp add: second_ns_def)
  then show ?thesis using assms by (simp add: seconds_mod second_ns_def)
qed

lemma loaded_intervals_positive:
  assumes "load_env goos win env = Inr c"
  shows "0 < SyncInterval c" and "0 < ReportInterval c"
proof -
  obtain si se ri re where v: "loadOptionalPositiveIntEnv env ''SYNC_INTERVAL'' 60 = Inr (si, se)"
      "loadOptionalPositiveIntEnv env ''REPORT_INTERVAL'' 60 = Inr (ri, re)"
    and c: "SyncInterval c = si" "ReportInterval c = ri"
    using assms unfolding load_env_def by (auto split: if_splits)
  show "0 < SyncInterval c" "0 < ReportInterval c"
    using positive_value [OF v(1)] positive_value [OF v(2)] by (simp_all add: c)
qed

lemma choose_intervals_positive:
  assumes "0 < SyncInterval c" and "0 < ReportInterval c"
  shows "0 < SyncInterval (choose_intervals nc c)" and "0 < ReportInterval (choose_intervals nc c)"
  using assms by (simp_all add: choose_intervals_def Let_def)



end
