(* ===== verification/Sys_Linux.thy ===== *)
theory Sys_Linux
  imports GoStrings Files
begin

text \<open>
  \<open>sys_linux.go\<close> and \<open>sys_other.go\<close>: at its start the process tries to switch TCP to BBR and to
  raise its limit on open files. The host is the file system with the limit; what the calls
  to it meet is an argument, and the messages logged are a result, with the values they carry.
\<close>

section \<open>The host\<close>

record rlimit =
  rlimCur :: uint64
  rlimMax :: uint64

record host =
  hostFiles :: fs
  hostNofile :: rlimit

text \<open>The errors that the calls meet; those of reading and writing are as in \<open>Files\<close>.\<close>

record host_errors =
  heRead :: "string option"
  heWrite :: "(string \<times> string option) option"
  heGetrlimit :: "string option"
  heSetrlimit :: "string option"

datatype sys_message =
    SwitchedToBBR
  | NotBBR
  | IsBBR string
  | LimitRaised uint64
  | LimitTooLow uint64 uint64
  | LimitAdvice
  | LimitFine uint64

definition congestionControlPath :: path where
  "congestionControlPath = ''/proc/sys/net/ipv4/tcp_congestion_control''"

section \<open>The checks\<close>

definition check_congestion :: "host_errors \<Rightarrow> host \<Rightarrow> sys_message list \<times> host" where
  "check_congestion e h =
     (case os_ReadFile (heRead e) congestionControlPath (hostFiles h) of
        Contents data \<Rightarrow>
          let algo = TrimSpace data
          in if algo \<noteq> ''bbr''
             then (case os_WriteFile (heWrite e) congestionControlPath ''bbr'' (hostFiles h) of
                     (None, f) \<Rightarrow> ([SwitchedToBBR], h\<lparr>hostFiles := f\<rparr>)
                   | (Some _, f) \<Rightarrow> ([NotBBR], h\<lparr>hostFiles := f\<rparr>))
             else ([IsBBR algo], h)
      | _ \<Rightarrow> ([], h))"

text \<open>
  The limit as the program has it in \<open>rlimit\<close>, which is the host's after the calls; a
  \<open>Setrlimit\<close> that fails changes nothing.
\<close>

definition check_nofile :: "host_errors \<Rightarrow> host \<Rightarrow> sys_message list \<times> host" where
  "check_nofile e h =
     (if heGetrlimit e \<noteq> None then ([], h)
      else
        let rl = hostNofile h;
            targetLimit = (if rlimMax rl < 65535 then rlimMax rl else 65535);
            (log, rl) = (if rlimCur rl < 65535 \<and> targetLimit > rlimCur rl \<and> heSetrlimit e = None
                         then ([LimitRaised targetLimit], rl\<lparr>rlimCur := targetLimit\<rparr>)
                         else ([], rl))
        in (log @ (if rlimCur rl < 32768 then [LimitTooLow (rlimCur rl) (rlimMax rl), LimitAdvice]
                   else [LimitFine (rlimCur rl)]),
            h\<lparr>hostNofile := rl\<rparr>))"

definition checkSystemSettings :: "host_errors \<Rightarrow> host \<Rightarrow> sys_message list \<times> host" where
  "checkSystemSettings e h =
     (case check_congestion e h of (log1, h) \<Rightarrow>
      case check_nofile e h of (log2, h) \<Rightarrow> (log1 @ log2, h))"

text \<open>On other systems than Linux.\<close>

definition checkSystemSettings_other :: "host \<Rightarrow> sys_message list \<times> host" where
  "checkSystemSettings_other h = ([], h)"

section \<open>What the checks do to the host\<close>

lemma check_congestion_host:
  assumes "check_congestion e h = (log, h')"
  shows "hostNofile h' = hostNofile h"
    and "p \<noteq> congestionControlPath \<Longrightarrow> hostFiles h' p = hostFiles h p"
    and "SwitchedToBBR \<in> set log \<Longrightarrow> hostFiles h' congestionControlPath = Some ''bbr''"
  using assms
  by (auto simp: check_congestion_def Let_def os_WriteFile_def split: read_outcome.splits if_splits option.splits prod.splits)

lemma check_nofile_host:
  assumes "check_nofile e h = (log, h')"
  shows "hostFiles h' = hostFiles h" and "rlimMax (hostNofile h') = rlimMax (hostNofile h)"
    and "heGetrlimit e = None \<Longrightarrow> heSetrlimit e = None \<Longrightarrow>
      rlimCur (hostNofile h') = max (rlimCur (hostNofile h)) (min 65535 (rlimMax (hostNofile h)))"
    and "heGetrlimit e \<noteq> None \<or> heSetrlimit e \<noteq> None \<Longrightarrow> h' = h"
    and "heGetrlimit e = None \<Longrightarrow> LimitAdvice \<in> set log \<longleftrightarrow> rlimCur (hostNofile h') < 32768"
  using assms
  by (auto simp: check_nofile_def Let_def max_def min_def not_less split: if_splits)

text \<open>
  C32: The checks leave the host no worse. Whatever the calls meet, the soft limit on open
  files is never lowered, the hard limit never changed, a soft limit within the hard one stays
  within it, and no file but the one with the congestion control changes. When the calls succeed the soft limit
  is at least 65535 or the hard limit; and the advice to raise it by hand is given exactly when it is
  below 32768 in the end.
\<close>

theorem system_check_safe:
  assumes "checkSystemSettings e h = (log, h')"
  shows "rlimCur (hostNofile h) \<le> rlimCur (hostNofile h') \<and> rlimMax (hostNofile h') = rlimMax (hostNofile h)
    \<and> (rlimCur (hostNofile h) \<le> rlimMax (hostNofile h) \<longrightarrow> rlimCur (hostNofile h') \<le> rlimMax (hostNofile h'))
    \<and> (\<forall>p. p \<noteq> congestionControlPath \<longrightarrow> hostFiles h' p = hostFiles h p)
    \<and> (heGetrlimit e = None \<and> heSetrlimit e = None \<longrightarrow>
         rlimCur (hostNofile h') = max (rlimCur (hostNofile h)) (min 65535 (rlimMax (hostNofile h))))
    \<and> (heGetrlimit e = None \<longrightarrow> (LimitAdvice \<in> set log \<longleftrightarrow> rlimCur (hostNofile h') < 32768))"
proof -
  obtain log1 h1 where C: "check_congestion e h = (log1, h1)" by (rule prod.exhaust)
  obtain log2 h2 where N: "check_nofile e h1 = (log2, h2)" by (rule prod.exhaust)
  have eq: "log = log1 @ log2" "h' = h2" using assms by (simp_all add: checkSystemSettings_def C N)
  have quiet: "LimitAdvice \<notin> set log1"
    using C by (auto simp: check_congestion_def Let_def split: read_outcome.splits if_splits option.splits prod.splits)
  note F = check_nofile_host [OF N] check_congestion_host(1,2) [OF C]
  have "rlimCur (hostNofile h) \<le> rlimCur (hostNofile h')
      \<and> (rlimCur (hostNofile h) \<le> rlimMax (hostNofile h) \<longrightarrow> rlimCur (hostNofile h') \<le> rlimMax (hostNofile h'))"
    using F(2,3,4,6) unfolding eq
    by (cases "heGetrlimit e = None \<and> heSetrlimit e = None") (auto simp: min.coboundedI2)
  then show ?thesis using F quiet unfolding eq by simp
qed

theorem system_check_safe_witness:
  "rlimCur (hostNofile (snd (checkSystemSettings
     \<lparr>heRead = None, heWrite = None, heGetrlimit = None, heSetrlimit = None\<rparr>
     \<lparr>hostFiles = [congestionControlPath \<mapsto> ''cubic''], hostNofile = \<lparr>rlimCur = 1024, rlimMax = 4096\<rparr>\<rparr>))) = 4096"
proof -
  let ?e = "\<lparr>heRead = None, heWrite = None, heGetrlimit = None, heSetrlimit = None\<rparr> :: host_errors"
  let ?h = "\<lparr>hostFiles = [congestionControlPath \<mapsto> ''cubic''], hostNofile = \<lparr>rlimCur = 1024, rlimMax = 4096\<rparr>\<rparr> :: host"
  obtain log h' where "checkSystemSettings ?e ?h = (log, h')" by (rule prod.exhaust)
  from system_check_safe [OF this] this show ?thesis by simp
qed

end
