(* ===== verification/Json_Indent.thy ===== *)
theory Json_Indent
  imports Json
begin

text \<open>
  \<open>json.Encoder\<close> with an indentation of two blanks, as the doctor prints its result, and the
  proof that the indented text reads back to the value it was made from.
\<close>

section \<open>Printing\<close>

definition new_line :: "nat \<Rightarrow> string" where
  "new_line depth = CHR 0x0A # replicate (2 * depth) (CHR '' '')"

fun separated :: "string \<Rightarrow> string list \<Rightarrow> string" where
  "separated sep [] = []"
| "separated sep [s] = s"
| "separated sep (s # t # ss) = s @ sep @ separated sep (t # ss)"

fun render_indent :: "nat \<Rightarrow> json \<Rightarrow> string" where
  "render_indent d (JArr (j # js)) =
     ''['' @ new_line (Suc d) @ separated ('','' @ new_line (Suc d)) (map (render_indent (Suc d)) (j # js))
       @ new_line d @ '']''"
| "render_indent d (JObj (m # ms)) =
     ''{'' @ new_line (Suc d)
       @ separated ('','' @ new_line (Suc d)) (map (\<lambda>(k, v). quote k @ '': '' @ render_indent (Suc d) v) (m # ms))
       @ new_line d @ ''}''"
| "render_indent d j = render j"

section \<open>White space before a value\<close>

definition blank :: "string \<Rightarrow> bool" where
  "blank ws \<longleftrightarrow> list_all json_space ws"

lemma blank_new_line [simp]: "blank (new_line d)"
  by (simp add: blank_def new_line_def json_space_def list_all_iff)

lemma skip_space_blank: "blank ws \<Longrightarrow> skip_space (ws @ s) = skip_space s"
  by (induction ws) (auto simp: blank_def skip_space_def)

lemma parse_after_blank:
  assumes "blank ws"
  shows "parse_value n d (ws @ s) = parse_value n d s" and "parse_elems n d (ws @ s) = parse_elems n d s"
    and "parse_members n d (ws @ s) = parse_members n d s"
proof -
  show val: "parse_value n d (ws @ s) = parse_value n d s" for n
    by (cases n) (simp_all add: parse_value.simps(2) skip_space_blank [OF assms])
  show "parse_elems n d (ws @ s) = parse_elems n d s"
    by (cases n) (simp_all add: parse_elems.simps(2) val)
  show "parse_members n d (ws @ s) = parse_members n d s"
    by (cases n) (simp_all add: parse_members.simps(2) skip_space_blank [OF assms])
qed

text \<open>What may follow a value: nothing, a comma, a closing bracket, or a new line before one.\<close>

definition closes :: "char \<Rightarrow> bool" where
  "closes c \<longleftrightarrow> c \<in> {CHR '','', CHR '']'', CHR ''}''}"

lemma skip_to_close: "blank ws \<Longrightarrow> closes c \<Longrightarrow> skip_space (ws @ c # s) = c # s"
  by (auto simp: skip_space_blank) (auto simp: skip_space_def closes_def json_space_def)

lemma ends_number_line:
  "closes c \<Longrightarrow> ends_number (c # s)" "ends_number (new_line d @ s)"
  by (auto simp: ends_number_def delimited_def closes_def new_line_def)

section \<open>Elements and members\<close>

lemma parse_elems_indent:
  assumes "js \<noteq> []" and "blank ws" and last: "blank ws'" "\<And>s. ends_number (ws' @ s)"
    and "\<And>j rest. j \<in> set js \<Longrightarrow> ends_number rest \<Longrightarrow> parses d (f j @ rest) j rest"
  shows "\<exists>m. \<forall>n \<ge> m. parse_elems n d (separated ('','' @ ws) (map f js) @ ws' @ CHR '']'' # rest) = Some (js, rest)"
  using assms(1,5)
proof (induction js rule: induct_list012)
  case (2 j)
  let ?rest = "ws' @ CHR '']'' # rest"
  have "parses d (f j @ ?rest) j ?rest" by (rule 2(2)) (use last in simp_all)
  then obtain m where m: "\<And>n. n \<ge> m \<Longrightarrow> parse_value n d (f j @ ?rest) = Some (j, ?rest)" by (rule parsesE) blast
  have "skip_space ?rest = CHR '']'' # rest" by (rule skip_to_close [OF last(1)]) (simp add: closes_def)
  then have "parse_elems (Suc n) d (f j @ ?rest) = Some ([j], rest)" if "n \<ge> m" for n
    using m [OF that] by (simp add: parse_elems.simps(2))
  then have "\<exists>m. \<forall>n \<ge> m. parse_elems n d (f j @ ?rest) = Some ([j], rest)" by (rule enough_fuel)
  then show ?case by simp
next
  case (3 j j' js)
  let ?tail = "separated ('','' @ ws) (map f (j' # js)) @ ws' @ CHR '']'' # rest"
  let ?rest = "CHR '','' # ws @ ?tail"
  have "parses d (f j @ ?rest) j ?rest" by (rule 3(4)) (simp_all add: ends_number_line closes_def)
  then obtain m where m: "\<And>n. n \<ge> m \<Longrightarrow> parse_value n d (f j @ ?rest) = Some (j, ?rest)" by (rule parsesE) blast
  have "\<exists>m. \<forall>n \<ge> m. parse_elems n d ?tail = Some (j' # js, rest)" by (rule 3(2)) (use 3(4) in simp_all)
  then obtain m' where m': "\<And>n. n \<ge> m' \<Longrightarrow> parse_elems n d ?tail = Some (j' # js, rest)" by blast
  have "skip_space ?rest = ?rest" by (simp add: skip_space_def json_space_def)
  then have step: "parse_elems (Suc n) d (f j @ ?rest) = Some (j # j' # js, rest)" if "n \<ge> max m m'" for n
    using that m [of n] m' [of n] parse_after_blank(2) [OF assms(2)] by (simp add: parse_elems.simps(2))
  have shape: "separated ('','' @ ws) (map f (j # j' # js)) @ ws' @ CHR '']'' # rest = f j @ ?rest" by simp
  show ?case unfolding shape by (rule enough_fuel, rule step)
qed simp

lemma parse_member_indent:
  assumes k: "valid_utf8 k" and v: "parse_value n d (g @ rest) = Some (v, rest)"
  shows "parse_members (Suc n) d (quote k @ '': '' @ g @ rest) =
    (case skip_space rest of
       [] \<Rightarrow> None
     | c # r' \<Rightarrow>
         if c = CHR '','' then map_option (\<lambda>(ms, rest). ((k, v) # ms, rest)) (parse_members n d r')
         else if c = CHR ''}'' then Some ([(k, v)], r') else None)"
proof -
  have shape: "quote k @ '': '' @ g @ rest = CHR 0x22 # escape_string k @ CHR 0x22 # CHR '':'' # CHR '' '' # g @ rest"
    by (simp add: quote_def)
  have "skip_space (CHR 0x22 # x) = CHR 0x22 # x" "skip_space (CHR '':'' # x) = CHR '':'' # x" for x
    by (simp_all add: skip_space_def json_space_def)
  moreover have "parse_value n d (CHR '' '' # g @ rest) = Some (v, rest)"
    using parse_after_blank(1) [of "'' ''" n d "g @ rest"] v by (simp add: blank_def json_space_def)
  ultimately show ?thesis
    unfolding shape parse_members.simps(2) using k by (simp add: parse_string_escape)
qed

lemma parse_members_indent:
  assumes "ms \<noteq> []" and "blank ws" and last: "blank ws'" "\<And>s. ends_number (ws' @ s)"
    and "\<And>e. e \<in> set ms \<Longrightarrow> valid_utf8 (fst e)"
    and "\<And>e rest. e \<in> set ms \<Longrightarrow> ends_number rest \<Longrightarrow> parses d (f (snd e) @ rest) (snd e) rest"
  shows "\<exists>m. \<forall>n \<ge> m. parse_members n d
    (separated ('','' @ ws) (map (\<lambda>(k, v). quote k @ '': '' @ f v) ms) @ ws' @ CHR ''}'' # rest) = Some (ms, rest)"
  using assms(1,5,6)
proof (induction ms rule: induct_list012)
  case (2 e)
  obtain k v where e: "e = (k, v)" by (cases e)
  let ?rest = "ws' @ CHR ''}'' # rest"
  have "parses d (f (snd e) @ ?rest) (snd e) ?rest" by (rule 2(3)) (use last in simp_all)
  then obtain m where m: "\<And>n. n \<ge> m \<Longrightarrow> parse_value n d (f v @ ?rest) = Some (v, ?rest)"
    unfolding e snd_conv by (rule parsesE) blast
  have k: "valid_utf8 k" using 2(2) [of e] e by simp
  have "skip_space ?rest = CHR ''}'' # rest" by (rule skip_to_close [OF last(1)]) (simp add: closes_def)
  then have "parse_members (Suc n) d (quote k @ '': '' @ f v @ ?rest) = Some ([e], rest)" if "n \<ge> m" for n
    unfolding parse_member_indent [OF k m [OF that]] by (simp add: e)
  then have "\<exists>m. \<forall>n \<ge> m. parse_members n d (quote k @ '': '' @ f v @ ?rest) = Some ([e], rest)" by (rule enough_fuel)
  then show ?case by (simp add: e)
next
  case (3 e e' ms)
  obtain k v where e: "e = (k, v)" by (cases e)
  let ?f = "\<lambda>(k, v). quote k @ '': '' @ f v"
  let ?tail = "separated ('','' @ ws) (map ?f (e' # ms)) @ ws' @ CHR ''}'' # rest"
  let ?rest = "CHR '','' # ws @ ?tail"
  have "parses d (f (snd e) @ ?rest) (snd e) ?rest" by (rule 3(5)) (simp_all add: ends_number_line closes_def)
  then obtain m where m: "\<And>n. n \<ge> m \<Longrightarrow> parse_value n d (f v @ ?rest) = Some (v, ?rest)"
    unfolding e snd_conv by (rule parsesE) blast
  have "\<exists>m. \<forall>n \<ge> m. parse_members n d ?tail = Some (e' # ms, rest)" by (rule 3(2)) (use 3(4,5) in simp_all)
  then obtain m' where m': "\<And>n. n \<ge> m' \<Longrightarrow> parse_members n d ?tail = Some (e' # ms, rest)" by blast
  have k: "valid_utf8 k" using 3(4) [of e] e by simp
  have skip: "skip_space ?rest = ?rest" by (simp add: skip_space_def json_space_def)
  have step: "parse_members (Suc n) d (quote k @ '': '' @ f v @ ?rest) = Some (e # e' # ms, rest)"
    if "n \<ge> max m m'" for n
  proof -
    have v: "parse_value n d (f v @ ?rest) = Some (v, ?rest)" by (rule m) (use that in simp)
    have "parse_members n d (ws @ ?tail) = Some (e' # ms, rest)"
      unfolding parse_after_blank(3) [OF assms(2)] by (rule m') (use that in simp)
    then show ?thesis unfolding parse_member_indent [OF k v] skip by (simp only: list.case refl if_True option.map prod.case e)
  qed
  have shape: "separated ('','' @ ws) (map ?f (e # e' # ms)) @ ws' @ CHR ''}'' # rest = quote k @ '': '' @ f v @ ?rest"
    by (simp add: e)
  show ?case unfolding shape by (rule enough_fuel, rule step)
qed simp

section \<open>Reading back\<close>

lemma separated_head: "separated sep (x # xs) = x @ (if xs = [] then [] else sep @ separated sep xs)"
  by (cases xs) simp_all

text \<open>A bracket, a new line, the content, a new line and the closing bracket.\<close>

lemma parses_bracketed:
  assumes "\<exists>m. \<forall>n \<ge> m. parse_elems n d (t @ rest') = Some (js, rest)" and "starts_value c" "t = c # r"
  shows "parses (Suc d) (CHR ''['' # new_line k @ t @ rest') (JArr js) rest"
proof -
  obtain m where m: "\<And>n. n \<ge> m \<Longrightarrow> parse_elems n d (t @ rest') = Some (js, rest)" using assms(1) by blast
  have "parse_value (Suc n) (Suc d) (CHR ''['' # new_line k @ t @ rest') = Some (JArr js, rest)" if "n \<ge> m" for n
  proof -
    have "skip_space (new_line k @ t @ rest') = c # r @ rest'"
      by (simp add: skip_space_blank assms(3) skip_space_value [OF assms(2)])
    moreover have "c \<noteq> CHR '']''" using assms(2) by (auto simp: starts_value_def)
    moreover have "parse_elems n d (new_line k @ t @ rest') = Some (js, rest)"
      using m [OF that] by (simp add: parse_after_blank)
    ultimately show ?thesis by (simp add: parse_value.simps(2))
  qed
  then show ?thesis unfolding parses_def by (rule enough_fuel)
qed

lemma parses_braced:
  assumes "\<exists>m. \<forall>n \<ge> m. parse_members n d (t @ rest') = Some (ms, rest)" and "t = CHR 0x22 # r"
  shows "parses (Suc d) (CHR ''{'' # new_line k @ t @ rest') (JObj ms) rest"
proof -
  obtain m where m: "\<And>n. n \<ge> m \<Longrightarrow> parse_members n d (t @ rest') = Some (ms, rest)" using assms(1) by blast
  have "parse_value (Suc n) (Suc d) (CHR ''{'' # new_line k @ t @ rest') = Some (JObj ms, rest)" if "n \<ge> m" for n
  proof -
    have "skip_space (new_line k @ t @ rest') = CHR 0x22 # r @ rest'" by (simp add: skip_space_blank assms(2))
    moreover have "parse_members n d (new_line k @ t @ rest') = Some (ms, rest)"
      using m [OF that] by (simp add: parse_after_blank)
    ultimately show ?thesis by (simp add: parse_value.simps(2))
  qed
  then show ?thesis unfolding parses_def by (rule enough_fuel)
qed

lemma render_indent_starts:
  assumes "plain_json d j"
  shows "\<exists>c r. render_indent k j = c # r \<and> starts_value c"
proof (cases "render_indent k j = render j")
  case True
  then show ?thesis using render_starts [OF assms] by simp
next
  case False
  then show ?thesis
    by (cases "(k, j)" rule: render_indent.cases) (auto simp: starts_value_def json_space_def)
qed

lemma parse_render_indent:
  "plain_json d j \<Longrightarrow> ends_number rest \<Longrightarrow> parses d (render_indent k j @ rest) j rest"
proof (induction j arbitrary: d k rest)
  case (JArr js)
  obtain d' where d: "d = Suc d'" using JArr.prems(1) by (cases d) auto
  show ?case
  proof (cases js)
    case Nil
    then show ?thesis unfolding d by (intro parses_scalar) (simp add: parse_value.simps(2))
  next
    case (Cons j js')
    let ?t = "separated ('','' @ new_line (Suc k)) (map (render_indent (Suc k)) js)"
    have "\<exists>m. \<forall>n \<ge> m. parse_elems n d' (?t @ new_line k @ CHR '']'' # rest) = Some (js, rest)"
    proof (rule parse_elems_indent)
      show "parses d' (render_indent (Suc k) j @ rest) j rest" if "j \<in> set js" "ends_number rest" for j rest
        using JArr.IH [of j d' rest "Suc k"] JArr.prems d that by simp
    qed (simp_all add: Cons ends_number_line)
    moreover obtain c r where "render_indent (Suc k) j = c # r" "starts_value c"
      using render_indent_starts [of d' j "Suc k"] JArr.prems(1) d Cons by auto
    then have "\<exists>r. ?t = c # r" "starts_value c" by (simp_all add: Cons separated_head)
    ultimately show ?thesis
      using parses_bracketed [of d' ?t "new_line k @ CHR '']'' # rest" js rest] unfolding d by (auto simp: Cons)
  qed
next
  case (JObj ms)
  obtain d' where d: "d = Suc d'" using JObj.prems(1) by (cases d) auto
  show ?case
  proof (cases ms)
    case Nil
    then show ?thesis unfolding d by (intro parses_scalar) (simp add: parse_value.simps(2))
  next
    case (Cons e ms')
    let ?f = "\<lambda>(i, v). quote i @ '': '' @ render_indent (Suc k) v"
    let ?t = "separated ('','' @ new_line (Suc k)) (map ?f ms)"
    have "\<exists>m. \<forall>n \<ge> m. parse_members n d' (?t @ new_line k @ CHR ''}'' # rest) = Some (ms, rest)"
    proof (rule parse_members_indent)
      show "valid_utf8 (fst e)" if "e \<in> set ms" for e using JObj.prems d that by auto
      show "parses d' (render_indent (Suc k) (snd e) @ rest) (snd e) rest" if "e \<in> set ms" "ends_number rest" for e rest
        using JObj.IH [of e "snd e" d' rest "Suc k"] JObj.prems d that by (cases e) auto
    qed (simp_all add: Cons ends_number_line)
    moreover have "\<exists>r. ?t = CHR 0x22 # r" by (cases e) (simp add: Cons separated_head quote_def)
    ultimately show ?thesis
      using parses_braced [of d' ?t "new_line k @ CHR ''}'' # rest" ms rest] unfolding d by (auto simp: Cons)
  qed
qed (auto intro!: parse_scalar_render simp del: render.simps plain_json.simps)

lemma parse_json_indent:
  assumes "plain_json max_nesting j"
  shows "parse_json (render_indent 0 j @ [CHR 0x0A]) = Some j"
proof -
  have "ends_number [CHR 0x0A]" by (simp add: ends_number_def)
  with assms have "parses max_nesting (render_indent 0 j @ [CHR 0x0A]) j [CHR 0x0A]" by (rule parse_render_indent)
  then obtain m where m: "\<And>n. n \<ge> m \<Longrightarrow>
      parse_value n max_nesting (render_indent 0 j @ [CHR 0x0A]) = Some (j, [CHR 0x0A])" by (rule parsesE) auto
  let ?s = "render_indent 0 j @ [CHR 0x0A]"
  let ?n = "max m (2 * length ?s + 1)"
  have "parse_value (2 * length ?s + 1) max_nesting ?s = parse_value ?n max_nesting ?s"
    by (rule parse_value_enough [symmetric]) simp_all
  also have "\<dots> = Some (j, [CHR 0x0A])" by (rule m) simp
  finally show ?thesis by (simp add: parse_json_def skip_space_def json_space_def)
qed

end
