(* ===== verification/Process.thy ===== *)
theory Process
  imports Node Tickers Sys_Linux Json_Indent
begin

text \<open>
  \<open>main.go\<close>: the process. It loads the configuration, checks the host, and then either runs the
  doctor for every node id and exits, or starts the nodes, serves until a signal comes, and
  shuts them down at once. The second is a step relation, in which the ticks of all the nodes
  and the steps of their shutdowns interleave.
\<close>

section \<open>Before the nodes\<close>

definition chosen_memory_limit :: "environ \<Rightarrow> int option" where
  "chosen_memory_limit env = (if Getenv env ''GOMEMLIMIT'' = [] then Some (750 * 1024 * 1024) else None)"

datatype zap_level = DebugLevel | InfoLevel | WarnLevel | ErrorLevel

definition logger_level :: "string \<Rightarrow> zap_level" where
  "logger_level level =
     (if level = ''debug'' then DebugLevel
      else if level = ''info'' then InfoLevel
      else if level = ''warn'' then WarnLevel
      else if level = ''error'' then ErrorLevel
      else InfoLevel)"

datatype command = Doctor | Run

text \<open>\<open>os.Args\<close>, whose first element is the name of the program.\<close>

definition chosen_command :: "string list \<Rightarrow> command" where
  "chosen_command args = (if length args > 1 \<and> args ! 1 = ''doctor'' then Doctor else Run)"

section \<open>The doctor\<close>

text \<open>The results for the node ids in their order. A doctor that dies takes the process with it.\<close>

fun run_doctors ::
  "('b, 'w, 'r, 'o) platform \<Rightarrow> (string \<Rightarrow> 'w \<Rightarrow> string option \<times> 'w) \<Rightarrow> ('w \<Rightarrow> bool) \<Rightarrow> config \<Rightarrow> int list \<Rightarrow> 'w
     \<Rightarrow> (doctor_result list \<times> 'w) outcome" where
  "run_doctors p listen late cfg [] w = Returns ([], w)"
| "run_doctors p listen late cfg (i # is) w =
     (case RunDoctor p listen late (node_config_for cfg i) w of
        Panics (_, w) \<Rightarrow> Panics ([], w)
      | Returns (res, w) \<Rightarrow>
          (case run_doctors p listen late cfg is w of
             Panics (results, w) \<Rightarrow> Panics (res # results, w)
           | Returns (results, w) \<Rightarrow> Returns (res # results, w)))"

definition doctor_check_json :: "doctor_check \<Rightarrow> json" where
  "doctor_check_json c = JObj
     ([(''name'', JStr (chName c)), (''ok'', JBool (chOK c))]
        @ (if chMessage c = [] then [] else [(''message'', JStr (chMessage c))]))"

definition doctor_result_json :: "doctor_result \<Rightarrow> json" where
  "doctor_result_json r = JObj
     [(''ok'', JBool (drOK r)),
      (''checks'', if drChecks r = [] then JNull else JArr (map doctor_check_json (drChecks r)))]"

text \<open>One result is printed as an object, several as an array (and none as \<open>null\<close>).\<close>

definition doctor_output :: "doctor_result list \<Rightarrow> json" where
  "doctor_output results =
     (if length results = 1 then doctor_result_json (hd results)
      else if results = [] then JNull
      else JArr (map doctor_result_json results))"

text \<open>
  What the encoder writes to the standard output and the exit code; \<open>broken\<close> says that the
  output cannot be written. Exit code 2 is Go's for a process that panics. The log lines,
  which the logger writes to the same output, are left out.
\<close>

definition doctor_command ::
  "('b, 'w, 'r, 'o) platform \<Rightarrow> (string \<Rightarrow> 'w \<Rightarrow> string option \<times> 'w) \<Rightarrow> ('w \<Rightarrow> bool) \<Rightarrow> bool \<Rightarrow> config \<Rightarrow> 'w
     \<Rightarrow> string \<times> nat" where
  "doctor_command p listen late broken cfg w =
     (case run_doctors p listen late cfg (NodeIDs cfg) w of
        Panics _ \<Rightarrow> ([], 2)
      | Returns (results, w) \<Rightarrow>
          if broken then ([], 1)
          else (render_indent 0 (doctor_output results) @ [CHR 0x0A],
                if list_all drOK results then 0 else 1))"

section \<open>The nodes\<close>

text \<open>
  A node is live from its start on; its \<open>Shutdown\<close> makes a last report and then closes
  sing-box. The shutdowns are goroutines of their own when a signal has come; when a node has
  not started, those before it are shut down one after the other.
\<close>

datatype stage = Live | Flushed | Closed

datatype process_phase =
    Starting "int list"
  | Serving
  | Stopping bool nat
  | Exited nat

record ('b, 'w) process =
  prNodes :: "(('b, 'w) node \<times> stage) list"
  prFiles :: fs
  prWorld :: 'w
  prPhase :: process_phase

definition new_process :: "config \<Rightarrow> fs \<Rightarrow> 'w \<Rightarrow> ('b, 'w) process" where
  "new_process cfg f w = \<lparr>prNodes = [], prFiles = f, prWorld = w, prPhase = Starting (NodeIDs cfg)\<rparr>"

text \<open>A node as it runs in the process, and its return.\<close>

definition get_node :: "('b, 'w) process \<Rightarrow> nat \<Rightarrow> ('b, 'w) node" where
  "get_node s j = enter (prFiles s, prWorld s) (fst (prNodes s ! j))"

definition put_node :: "nat \<Rightarrow> stage \<Rightarrow> ('b, 'w) node \<Rightarrow> ('b, 'w) process \<Rightarrow> ('b, 'w) process" where
  "put_node j st n s = s\<lparr>prNodes := (prNodes s)[j := (n, st)], prFiles := ndFiles n, prWorld := ndWorld n\<rparr>"

definition at_stage :: "('b, 'w) process \<Rightarrow> nat \<Rightarrow> stage \<Rightarrow> bool" where
  "at_stage s j st \<longleftrightarrow> j < length (prNodes s) \<and> snd (prNodes s ! j) = st"

definition all_closed :: "nat \<Rightarrow> ('b, 'w) process \<Rightarrow> bool" where
  "all_closed k s \<longleftrightarrow> list_all (\<lambda>m. snd m = Closed) (take k (prNodes s))"

text \<open>
  \<open>ticks_run\<close>: the tickers run until the context is cancelled, if they could be made. (One that is in a tick at that
  moment ends it, which may be after the node is closed; this is left out here, and
  \<open>Engine_Spec\<close> shows what it does.)
\<close>

definition ticks_run :: "process_phase \<Rightarrow> bool" where
  "ticks_run ph \<longleftrightarrow> (case ph of Starting _ \<Rightarrow> True | Serving \<Rightarrow> True | _ \<Rightarrow> False)"

inductive process_step ::
  "('b, 'w, 'r, 'o) platform \<Rightarrow> ('w \<Rightarrow> 'w \<Rightarrow> bool) \<Rightarrow> config \<Rightarrow> ('b, 'w) process \<Rightarrow> ('b, 'w) process \<Rightarrow> bool"
  for p evolves cfg where
  start: "prPhase s = Starting (i # is) \<Longrightarrow>
    node_Start p (NewNode (node_config_for cfg i) (prFiles s) (prWorld s)) = Returns (None, n) \<Longrightarrow>
    process_step p evolves cfg s
      (s\<lparr>prNodes := prNodes s @ [(n, Live)], prFiles := ndFiles n, prWorld := ndWorld n, prPhase := Starting is\<rparr>)"
| start_fails: "prPhase s = Starting (i # is) \<Longrightarrow>
    node_Start p (NewNode (node_config_for cfg i) (prFiles s) (prWorld s)) = Returns (Some err, n) \<Longrightarrow>
    process_step p evolves cfg s (s\<lparr>prFiles := ndFiles n, prWorld := ndWorld n, prPhase := Stopping True 1\<rparr>)"
| start_dies: "prPhase s = Starting (i # is) \<Longrightarrow>
    node_Start p (NewNode (node_config_for cfg i) (prFiles s) (prWorld s)) = Panics (err, n) \<Longrightarrow>
    process_step p evolves cfg s (s\<lparr>prFiles := ndFiles n, prWorld := ndWorld n, prPhase := Exited 2\<rparr>)"
| started: "prPhase s = Starting [] \<Longrightarrow> process_step p evolves cfg s (s\<lparr>prPhase := Serving\<rparr>)"
| tickers_die: "ticks_run (prPhase s) \<Longrightarrow> at_stage s j Live \<Longrightarrow> start_tickers (ndCfg (get_node s j)) = None \<Longrightarrow>
    process_step p evolves cfg s (s\<lparr>prPhase := Exited 2\<rparr>)"
| ticked: "ticks_run (prPhase s) \<Longrightarrow> at_stage s j Live \<Longrightarrow> node_tick p t (get_node s j) = Returns n \<Longrightarrow>
    start_tickers (ndCfg (get_node s j)) \<noteq> None \<Longrightarrow> process_step p evolves cfg s (put_node j Live n s)"
| tick_dies: "ticks_run (prPhase s) \<Longrightarrow> at_stage s j Live \<Longrightarrow> node_tick p t (get_node s j) = Panics n \<Longrightarrow>
    start_tickers (ndCfg (get_node s j)) \<noteq> None \<Longrightarrow> process_step p evolves cfg s ((put_node j Live n s)\<lparr>prPhase := Exited 2\<rparr>)"
| served: "(\<forall>code. prPhase s \<noteq> Exited code) \<Longrightarrow> at_stage s j st \<Longrightarrow> evolves (prWorld s) w' \<Longrightarrow>
    process_step p evolves cfg s
      (put_node j st (let n = get_node s j
         in n\<lparr>ndLimiter := l, ndEngine := (ndEngine n)\<lparr>engStats := x\<rparr>, ndWorld := w'\<rparr>) s)"
| signal: "prPhase s = Serving \<Longrightarrow> process_step p evolves cfg s (s\<lparr>prPhase := Stopping False 0\<rparr>)"
| flush: "prPhase s = Stopping in_turn code \<Longrightarrow> at_stage s j Live \<Longrightarrow> (in_turn \<longrightarrow> all_closed j s) \<Longrightarrow>
    node_Report p (get_node s j) = (acked, n) \<Longrightarrow> process_step p evolves cfg s (put_node j Flushed n s)"
| close: "prPhase s = Stopping in_turn code \<Longrightarrow> at_stage s j Flushed \<Longrightarrow>
    engine_Close (plBox p) (ndEngine (get_node s j), prWorld s) = (err, e, w') \<Longrightarrow>
    process_step p evolves cfg s (put_node j Closed ((get_node s j)\<lparr>ndEngine := e, ndWorld := w'\<rparr>) s)"
| finish: "prPhase s = Stopping in_turn code \<Longrightarrow> all_closed (length (prNodes s)) s \<Longrightarrow>
    process_step p evolves cfg s (s\<lparr>prPhase := Exited code\<rparr>)"

inductive reachable_process ::
  "('b, 'w, 'r, 'o) platform \<Rightarrow> ('w \<Rightarrow> 'w \<Rightarrow> bool) \<Rightarrow> config \<Rightarrow> fs \<Rightarrow> 'w \<Rightarrow> ('b, 'w) process \<Rightarrow> bool"
  for p evolves cfg f w where
  new: "reachable_process p evolves cfg f w (new_process cfg f w)"
| step: "reachable_process p evolves cfg f w s \<Longrightarrow> process_step p evolves cfg s s' \<Longrightarrow>
    reachable_process p evolves cfg f w s'"

end
