(* ===== verification/Node_Fleet.thy ===== *)
theory Node_Fleet
  imports Node_Example
begin

text \<open>
  The start loop of \<open>main.go\<close>: several nodes in one process, which share sing-box, the files
  and the environment. What runs is followed through the starts and shutdowns.
\<close>

section \<open>What runs\<close>

definition instances :: "('b, 'w) node list \<Rightarrow> 'b set" where
  "instances ns = (\<Union>n \<in> set ns. set_option (instance_box (ndEngine n)))"

lemma instances_simps [simp]:
  "instances [] = {}"
  "instances (n # ns) = set_option (instance_box (ndEngine n)) \<union> instances ns"
  "instances (ns @ ms) = instances ns \<union> instances ms"
  by (auto simp: instances_def)

lemma engine_Start_running:
  assumes laws: "box_laws api running made" and idle: "instance_box e = None"
    and run: "engine_Start api cfg us level (e, w) = (res, e', w')"
  shows "running w' = running w \<union> set_option (instance_box e')"
    and "res \<noteq> None \<Longrightarrow> instance_box e' = None"
    and "running w \<inter> set_option (instance_box e') = {}"
proof -
  note L = box_lawsD [OF laws]
  obtain r w1 where C: "createBox api e cfg us level w = (r, w1)" by (rule prod.exhaust)
  have w1: "running w1 = running w" by (rule createBox_result(1) [OF laws C])
  have "running w' = running w \<union> set_option (instance_box e') \<and> (res \<noteq> None \<longrightarrow> instance_box e' = None)
    \<and> running w \<inter> set_option (instance_box e') = {}"
  proof (cases r)
    case (Inl err)
    then have "res = Some (CreateFailed err)" "e' = e" "w' = w1" using run C by (simp_all add: engine_Start_def)
    then show ?thesis using idle w1 by simp
  next
    case (Inr b)
    note b = createBox_result(2) [OF laws C Inr]
    obtain sr w2 where S: "boxStart api b w1 = (sr, w2)" by (rule prod.exhaust)
    show ?thesis
    proof (cases sr)
      case None
      then have "res = None" "e' = install b cfg us level e" "w' = w2" using run C Inr S by (simp_all add: engine_Start_def)
      then show ?thesis using L(4) S None w1 b by (simp add: install_def)
    next
      case (Some err)
      then have "res = Some (StartFailed err)" "e' = e" "w' = snd (boxClose api b w2)"
        using run C Inr S by (simp_all add: engine_Start_def)
      then show ?thesis using L(5) S Some w1 idle b by auto
    qed
  qed
  then show "running w' = running w \<union> set_option (instance_box e')" "res \<noteq> None \<Longrightarrow> instance_box e' = None"
    "running w \<inter> set_option (instance_box e') = {}" by auto
qed

lemma GetUsers_same_engine: "node_GetUsers p n = (r, n') \<Longrightarrow> same_engine n n'"
  using node_calls_same_engine(2) [of n p] by simp

lemma node_Start_running:
  assumes laws: "platform_laws p running made" and idle: "instance_box (ndEngine n) = None"
    and start: "node_Start p n = Returns (res, n')"
  shows "running (ndWorld n') = running (ndWorld n) \<union> set_option (instance_box (ndEngine n'))"
    and "res \<noteq> None \<Longrightarrow> instance_box (ndEngine n') = None"
    and "running (ndWorld n) \<inter> set_option (instance_box (ndEngine n')) = {}"
proof -
  have "running (ndWorld n') = running (ndWorld n) \<union> set_option (instance_box (ndEngine n'))
    \<and> (res \<noteq> None \<longrightarrow> instance_box (ndEngine n') = None)
    \<and> running (ndWorld n) \<inter> set_option (instance_box (ndEngine n')) = {}"
    using start
  proof (cases rule: node_Start_cases)
    case (no_config err n1)
    then show ?thesis
      using node_calls_same_engine(3) [of n p] node_calls_running(3) [OF laws, of n] same_engine_instance [of n n1] idle by simp
  next
    case (dies n1)
    then show ?thesis by simp
  next
    case (no_users nc n1 err n2)
    let ?n1 = "n1\<lparr>ndCfg := choose_intervals nc (ndCfg n1)\<rparr>"
    have "instance_box (ndEngine n1) = None" "running (ndWorld n1) = running (ndWorld n)"
      using no_users(1) node_calls_same_engine(3) [of n p] node_calls_running(3) [OF laws, of n]
        same_engine_instance [of n n1] idle by simp_all
    moreover have "instance_box (ndEngine n2) = instance_box (ndEngine ?n1)" "running (ndWorld n2) = running (ndWorld ?n1)"
      using same_engine_instance [OF GetUsers_same_engine [OF no_users(2)]] node_calls_running(2) [OF laws, of ?n1] no_users(2)
      by simp_all
    ultimately show ?thesis using no_users(3) by simp
  next
    case (ready nc n1 us n2 n3)
    note prep = prepared_same_engine [OF ready(1-3)]
    have n3: "instance_box (ndEngine n3) = None" "running (ndWorld n3) = running (ndWorld n)"
      using same_engine_instance [OF prep(1)] prep(2) [OF laws] idle by simp_all
    obtain r e w where E: "engine_Start (plBox p) (Some nc) us (LogLevel (ndCfg n3)) (ndEngine n3, ndWorld n3) = (r, e, w)"
      by (rule prod_cases3)
    note res = engine_Start_running [OF platform_lawsD(1) [OF laws] n3(1) E]
    show ?thesis
    proof (cases r)
      case None
      then have "res = None" "n' = node_attach p nc us (n3\<lparr>ndEngine := e, ndWorld := w\<rparr>)" using ready(4) E by simp_all
      then show ?thesis using res(1,3) n3(2) node_attach_result(2) [OF laws] by (simp add: node_attach_result(1))
    next
      case (Some err)
      then have "res = Some (EngineFailed err)" "n' = n3\<lparr>ndEngine := e, ndWorld := w\<rparr>" using ready(4) E by simp_all
      then show ?thesis using res(1) res(2) Some n3(2) by simp
    qed
  qed
  then show "running (ndWorld n') = running (ndWorld n) \<union> set_option (instance_box (ndEngine n'))"
    "res \<noteq> None \<Longrightarrow> instance_box (ndEngine n') = None"
    "running (ndWorld n) \<inter> set_option (instance_box (ndEngine n')) = {}" by auto
qed

lemma node_Shutdown_running:
  assumes laws: "platform_laws p running made" and run: "node_Shutdown p n = (acked, n')"
  shows "running (ndWorld n') = running (ndWorld n) - set_option (instance_box (ndEngine n))"
    and "instance_box (ndEngine n') = None"
proof -
  obtain acked' n1 where R: "node_Report p n = (acked', n1)" by (rule prod.exhaust)
  have n1: "instance_box (ndEngine n1) = instance_box (ndEngine n)" "running (ndWorld n1) = running (ndWorld n)"
    using same_engine_instance [OF node_Report_same_engine, of p n] node_Report_running [OF laws, of n] R by simp_all
  show "running (ndWorld n') = running (ndWorld n) - set_option (instance_box (ndEngine n))"
    "instance_box (ndEngine n') = None"
    using run n1 box_lawsD(6) [OF platform_lawsD(1) [OF laws]]
    by (auto simp: node_Shutdown_def R engine_Close_def close_take_def case_prod_beta split: option.splits)
qed

lemma shutdown_nodes_running:
  assumes laws: "platform_laws p running made"
  shows "shutdown_nodes p ns fw = (ns', fw') \<Longrightarrow>
    running (snd fw') = running (snd fw) - instances ns \<and> instances ns' = {} \<and> length ns' = length ns"
proof (induction ns arbitrary: fw ns' fw')
  case (Cons n ns)
  obtain acked n1 where S: "node_Shutdown p (enter fw n) = (acked, n1)" by (rule prod.exhaust)
  obtain ms fw1 where R: "shutdown_nodes p ns (leave n1) = (ms, fw1)" by (rule prod.exhaust)
  have "ns' = n1 # ms" "fw' = fw1" using Cons.prems by (simp_all add: S R)
  then show ?case using Cons.IH [OF R] node_Shutdown_running [OF laws S] by (auto simp: enter_def leave_def)
qed simp

section \<open>The start of all nodes\<close>

definition fleet_outcome ::
  "('w \<Rightarrow> 'b set) \<Rightarrow> nat \<Rightarrow> ('b, 'w) started \<Rightarrow> 'w \<Rightarrow> bool" where
  "fleet_outcome running k res w \<longleftrightarrow>
     (case res of
        Running ns \<Rightarrow> running w = instances ns \<and> length ns = k
      | StartFailedAt i err ns \<Rightarrow> running w = {} \<and> instances ns = {} \<and> length ns < k
      | DiedAt i \<Rightarrow> True)"

lemma start_nodes_outcome:
  fixes p :: "('b, 'w, 'r, 'o) platform"
  assumes laws: "platform_laws p running made"
  shows "start_nodes p cfg ids nodes fw = (res, fw') \<Longrightarrow> running (snd fw) = instances nodes \<Longrightarrow>
    fleet_outcome running (length nodes + length ids) res (snd fw')"
proof (induction ids arbitrary: nodes fw)
  case (Cons i ids)
  let ?new = "NewNode (node_config_for cfg i) (fst fw) (snd fw) :: ('b, 'w) node"
  have new: "instance_box (ndEngine ?new) = None" "ndWorld ?new = snd fw" by (simp_all add: NewNode_def NewEngine_def)
  show ?case
  proof (cases "node_Start p ?new")
    case (Panics st)
    then show ?thesis using Cons.prems(1) by (cases st) (auto simp: fleet_outcome_def)
  next
    case (Returns st)
    obtain r n where st: "st = (r, n)" by (rule prod.exhaust)
    note started = node_Start_running [OF laws new(1) Returns [unfolded st]]
    show ?thesis
    proof (cases r)
      case None
      have "start_nodes p cfg ids (nodes @ [n]) (leave n) = (res, fw')" using Cons.prems(1) Returns st None by simp
      moreover have "running (snd (leave n)) = instances (nodes @ [n])"
        using started(1) new(2) Cons.prems(2) by (auto simp: leave_def)
      ultimately show ?thesis using Cons.IH by fastforce
    next
      case (Some err)
      obtain ms fw1 where D: "shutdown_nodes p nodes (leave n) = (ms, fw1)" by (rule prod.exhaust)
      have "res = StartFailedAt i err ms" "fw' = fw1" using Cons.prems(1) Returns st Some D by simp_all
      moreover have "running (snd (leave n)) = instances nodes"
        using started Some new(2) Cons.prems(2) by (simp add: leave_def)
      ultimately show ?thesis using shutdown_nodes_running [OF laws D] by (simp add: fleet_outcome_def)
    qed
  qed
qed (auto simp: fleet_outcome_def)


text \<open>Two nodes; the panel is gone when the second one starts.\<close>

lemma demo_panel_gone:
  "\<exists>n'. node_Start (demo_platform fails) (NewNode cfg f ([], v)) = Returns (Some (PanelFailed (FetchConfig ''refused'')), n')"
proof -
  have "doWithHeaders (plNet (demo_platform fails)) rq ([], v) = (\<lparr>hrStatus = 0, hrETag = [], hrBody = Inl ''refused''\<rparr>, ([], v))" for rq
    by (subst doWithHeaders_def, subst do_attempts.simps)
      (simp add: doOnce_def demo_platform_def outcome_result_def shouldRetry_def)
  then show ?thesis by (simp add: node_Start_def node_GetNodeConfig_def GetNodeConfig_def NewNode_def)
qed


end
