(* ===== verification/Process_Spec.thy ===== *)
theory Process_Spec
  imports Process Node_Fleet
begin

text \<open>
  What holds of the whole process: which sing-box instances run while nodes start, tick,
  reload and shut down in any interleaving; that it comes to an end when it is told to; and
  what the doctor's verdict means.
\<close>

section \<open>One node among others\<close>

text \<open>\<open>R\<close> are the instances of the other nodes: a node neither stops them nor takes one for its own.\<close>

definition apart :: "('w \<Rightarrow> 'b set) \<Rightarrow> 'b set \<Rightarrow> 'b engine \<times> 'w \<Rightarrow> bool" where
  "apart running R ew \<longleftrightarrow> (case ew of (e, w) \<Rightarrow>
     running w = R \<union> set_option (instance_box e) \<and> R \<inter> set_option (instance_box e) = {})"

lemma restore_apart:
  assumes laws: "box_laws api running made" and start: "apart running R (e, w)" and none: "instance_box e = None"
    and run: "restorePreviousInstance api cfg us level (e, w) = (res, e', w')"
  shows "apart running R (e', w')"
proof (cases "cfg = None")
  case True
  then show ?thesis using run start by (simp add: restorePreviousInstance_def)
next
  case False
  note L = box_lawsD [OF laws]
  have w: "running w = R" using start none by (simp add: apart_def)
  obtain c w1 where C: "createBox api e cfg us level w = (c, w1)" by (rule prod.exhaust)
  have w1: "running w1 = R" using createBox_result(1) [OF laws C] w by simp
  show ?thesis
  proof (cases c)
    case (Inl err)
    then have "e' = e" "w' = w1" using run False C by (simp_all add: restorePreviousInstance_def)
    then show ?thesis using w1 none by (simp add: apart_def)
  next
    case (Inr b)
    have b: "b \<notin> R" using createBox_result(2) [OF laws C Inr] w by simp
    obtain sr w2 where S: "boxStart api b w1 = (sr, w2)" by (rule prod.exhaust)
    show ?thesis
    proof (cases sr)
      case None
      then have "e' = install b cfg us level e" "w' = w2"
        using run False C Inr S by (simp_all add: restorePreviousInstance_def)
      then show ?thesis using L(4) S None w1 b by (simp add: apart_def install_def)
    next
      case (Some err)
      then have "e' = e" "w' = snd (boxClose api b w2)"
        using run False C Inr S by (simp_all add: restorePreviousInstance_def)
      then show ?thesis using L(5) S Some w1 b none by (auto simp: apart_def)
    qed
  qed
qed

lemma ReloadUsers_apart:
  assumes laws: "box_laws api running made" and start: "apart running R (e, w)"
    and run: "ReloadUsers api cfg us level (e, w) = (res, e', w')"
  shows "apart running R (e', w')"
proof -
  note L = box_lawsD [OF laws]
  obtain c w1 where C: "createBox api e cfg us level w = (c, w1)" by (rule prod.exhaust)
  have w1: "running w1 = running w" by (rule createBox_result(1) [OF laws C])
  show ?thesis
  proof (cases c)
    case (Inl err)
    then have "e' = e" "w' = w1" using run C by (simp_all add: ReloadUsers_def)
    then show ?thesis using start w1 by (simp add: apart_def)
  next
    case (Inr b)
    let ?e = "e\<lparr>instance_box := None\<rparr>"
    have b: "b \<notin> R" using createBox_result(2) [OF laws C Inr] start by (auto simp: apart_def)
    define w2 where "w2 = (case instance_box e of None \<Rightarrow> w1 | Some b \<Rightarrow> snd (boxClose api b w1))"
    have w2: "running w2 = R" using start w1 L(6) by (auto simp: apart_def w2_def split: option.split)
    obtain sr w3 where S: "boxStart api b w2 = (sr, w3)" by (rule prod.exhaust)
    have run': "reload_finish api cfg us level b (fst (reload_swap e)) (?e, w1) = (res, e', w')"
      using run by (simp add: ReloadUsers_def C Inr reload_swap_def)
    show ?thesis
    proof (cases sr)
      case None
      then have "e' = install b cfg us level ?e" "w' = w3"
        using run' S by (simp_all add: reload_finish_def reload_swap_def w2_def [symmetric] Let_def)
      then show ?thesis using L(4) S None w2 b by (simp add: apart_def install_def)
    next
      case (Some err)
      have stopped: "apart running R (?e, snd (boxClose api b w3))" using L(5) S Some w2 b by (auto simp: apart_def)
      obtain rr e4 w4 where T: "restorePreviousInstance api (currentConfig e) (engUsers e) (engLogLevel e)
          (?e, snd (boxClose api b w3)) = (rr, e4, w4)" by (rule prod_cases3)
      have "e' = e4 \<and> w' = w4"
        using run' S Some T by (cases rr) (simp_all add: reload_finish_def reload_swap_def w2_def [symmetric] Let_def)
      then show ?thesis using restore_apart [OF laws stopped _ T] by simp
    qed
  qed
qed

definition node_apart ::
  "('b, 'w, 'r, 'o) platform \<Rightarrow> ('w \<Rightarrow> 'b set) \<Rightarrow> ('b \<Rightarrow> ('r, 'o) options) \<Rightarrow> 'b set \<Rightarrow> ('b, 'w) node \<Rightarrow> bool" where
  "node_apart p running made R n \<longleftrightarrow>
     (platform_laws p running made \<longrightarrow> apart running R (ndEngine n, ndWorld n))"

lemma node_apart_same_engine:
  assumes "same_engine n n'" and "platform_laws p running made \<Longrightarrow> running (ndWorld n') = running (ndWorld n)"
    and "node_apart p running made R n"
  shows "node_apart p running made R n'"
  using assms(2,3) same_engine_instance [OF assms(1)] by (simp add: node_apart_def apart_def)

interpretation aside: env_invariant "node_env p" "node_apart p running made R"
  for p :: "('b, 'w, 'r, 'o) platform" and running made R
proof
  fix n :: "('b, 'w) node" and cfg us level alive
  assume ok: "node_apart p running made R n"
  note step = node_apart_same_engine [OF _ _ ok]
  show "node_apart p running made R (snd (envNow (node_env p) n))"
    by (simp add: node_env_def) (rule step [OF node_calls_same_engine(1)], rule node_calls_running(1))
  show "node_apart p running made R (snd (envGetUsers (node_env p) n))"
    by (simp add: node_env_def) (rule step [OF node_calls_same_engine(2)], rule node_calls_running(2))
  show "node_apart p running made R (snd (envGetNodeConfig (node_env p) n))"
    by (simp add: node_env_def) (rule step [OF node_calls_same_engine(3)], rule node_calls_running(3))
  show "node_apart p running made R (snd (envGetUserAlive (node_env p) n))"
    by (simp add: node_env_def) (rule step [OF node_calls_same_engine(4)], rule node_calls_running(4))
  show "node_apart p running made R (envUpdateUsers (node_env p) us n)"
    by (simp add: node_env_def) (rule step [OF node_calls_same_engine(6)], rule node_calls_running(6))
  show "node_apart p running made R (envUpdateAliveList (node_env p) alive n)"
    using ok by (simp add: node_env_def node_apart_def)
  show "node_apart p running made R (envReport (node_env p) n)"
    by (simp add: node_env_def) (rule step [OF node_Report_same_engine], rule node_Report_running)
  show "node_apart p running made R (snd (envReloadUsers (node_env p) cfg us level n))"
  proof -
    obtain r e w where R: "ReloadUsers (plBox p) cfg us level (ndEngine n, ndWorld n) = (r, e, w)" by (rule prod_cases3)
    then show ?thesis using ok ReloadUsers_apart [OF platform_lawsD(1) _ R]
      by (simp add: node_env_def node_ReloadUsers_def node_apart_def)
  qed
qed

text \<open>A tick of a node with a limiter returns, and leaves the other nodes' instances alone.\<close>

definition synced :: "('b, 'w) node \<Rightarrow> bool" where
  "synced n \<longleftrightarrow> (\<exists>s. ndSyncer n = Some s \<and> hasLimiter s)"

lemma node_tick_apart:
  assumes laws: "platform_laws p running made" and ok: "apart running R (ndEngine n, ndWorld n)" and sync: "synced n"
  shows "node_tick p t n \<noteq> Panics n'"
    and "node_tick p t n = Returns n' \<Longrightarrow> apart running R (ndEngine n', ndWorld n') \<and> synced n'"
proof -
  obtain s where s: "ndSyncer n = Some s" "hasLimiter s" using sync by (auto simp: synced_def)
  have live: "Sync (node_env p) (s, n) \<noteq> Panics sn" for sn
    using Sync_panics [of "node_env p" s n sn] s(2) by blast
  then show "node_tick p t n \<noteq> Panics n'"
    by (cases t) (auto simp: node_sync_def s(1) split: outcome.split prod.split)
  have keep: "apart running R (ndEngine m, ndWorld m) \<and> synced m"
    if "same_engine n m" "running (ndWorld m) = running (ndWorld n)" for m
    using that ok sync same_engine_instance [OF that(1)] by (simp add: apart_def synced_def same_engine_def)
  show "apart running R (ndEngine n', ndWorld n') \<and> synced n'" if tick: "node_tick p t n = Returns n'"
  proof (cases t)
    case SyncTick
    obtain s' n1 where R: "Sync (node_env p) (s, n) = Returns (s', n1)"
      using live by (cases "Sync (node_env p) (s, n)") auto
    have "node_apart p running made R n" using ok by (simp add: node_apart_def)
    then have "node_apart p running made R n1" using aside.Sync_inv [OF _ R] by simp
    then show ?thesis using tick SyncTick laws Sync_flags [OF R] s
      by (auto simp: node_sync_def R node_apart_def synced_def)
  next
    case ReportTick
    then show ?thesis using tick keep [OF node_Report_same_engine node_Report_running [OF laws]] by auto
  next
    case AliveTick
    let ?n1 = "snd (build_alive n)"
    have "same_engine n ?n1" "running (ndWorld ?n1) = running (ndWorld n)"
      using node_calls_same_engine(7) node_calls_running(7) [OF laws] by simp_all
    then have "same_engine n (node_alive p n) \<and> running (ndWorld (node_alive p n)) = running (ndWorld n)"
      using same_engine_trans node_calls_same_engine(5) node_calls_running(5) [OF laws]
      by (simp add: node_alive_def case_prod_beta) blast
    then show ?thesis using tick AliveTick keep by auto
  qed
qed

lemma node_Start_synced: "node_Start p n = Returns (None, n') \<Longrightarrow> synced n'"
proof (erule node_Start_cases)
  fix nc n1 us n2 n3
  assume out: "Returns (None, n') = (case engine_Start (plBox p) (Some nc) us (LogLevel (ndCfg n3)) (ndEngine n3, ndWorld n3) of
      (Some err, e, w) \<Rightarrow> Returns (Some (EngineFailed err), n3\<lparr>ndEngine := e, ndWorld := w\<rparr>)
    | (None, e, w) \<Rightarrow> Returns (None, node_attach p nc us (n3\<lparr>ndEngine := e, ndWorld := w\<rparr>)))"
  obtain r e w where "engine_Start (plBox p) (Some nc) us (LogLevel (ndCfg n3)) (ndEngine n3, ndWorld n3) = (r, e, w)"
    by (rule prod_cases3)
  then have "n' = node_attach p nc us (n3\<lparr>ndEngine := e, ndWorld := w\<rparr>)" using out by (auto split: option.splits)
  then show ?thesis by (simp add: synced_def node_attach_result(3) SetLimiter_def)
qed simp_all

section \<open>The nodes of a process\<close>

definition inst :: "('b, 'w) process \<Rightarrow> nat \<Rightarrow> 'b set" where
  "inst s j = set_option (instance_box (ndEngine (fst (prNodes s ! j))))"

definition others :: "('b, 'w) process \<Rightarrow> nat \<Rightarrow> 'b set" where
  "others s j = (\<Union>i \<in> {..<length (prNodes s)} - {j}. inst s i)"

text \<open>What runs are the instances of the nodes, each of one node only, and a closed node has none.\<close>

definition nodes_ok :: "('w \<Rightarrow> 'b set) \<Rightarrow> ('b, 'w) process \<Rightarrow> bool" where
  "nodes_ok running s \<longleftrightarrow> running (prWorld s) = (\<Union>j < length (prNodes s). inst s j)
     \<and> (\<forall>j < length (prNodes s). inst s j \<inter> others s j = {} \<and> synced (fst (prNodes s ! j))
          \<and> (snd (prNodes s ! j) = Closed \<longrightarrow> inst s j = {}))"

lemma node_in_process:
  assumes "nodes_ok running s" and "j < length (prNodes s)"
  shows "apart running (others s j) (ndEngine (get_node s j), ndWorld (get_node s j))" and "synced (get_node s j)"
proof -
  have "(\<Union>i < length (prNodes s). inst s i) = others s j \<union> inst s j" using assms(2) by (auto simp: others_def)
  then show "apart running (others s j) (ndEngine (get_node s j), ndWorld (get_node s j))"
    using assms by (auto simp: nodes_ok_def apart_def get_node_def enter_def inst_def)
  show "synced (get_node s j)" using assms by (auto simp: nodes_ok_def get_node_def enter_def synced_def)
qed

lemma put_node_ok:
  assumes ok: "nodes_ok running s" and j: "j < length (prNodes s)"
    and own: "apart running (others s j) (ndEngine n, ndWorld n)" and sync: "synced n"
    and closed: "st = Closed \<Longrightarrow> instance_box (ndEngine n) = None"
  shows "nodes_ok running (put_node j st n s)"
proof -
  let ?s = "put_node j st n s"
  have len: "length (prNodes ?s) = length (prNodes s)" by (simp add: put_node_def)
  have at: "prNodes ?s ! i = (if i = j then (n, st) else prNodes s ! i)" if "i < length (prNodes s)" for i
    using that by (simp add: put_node_def nth_list_update)
  have inst: "inst ?s i = (if i = j then set_option (instance_box (ndEngine n)) else inst s i)" if "i < length (prNodes s)" for i
    using at [OF that] by (simp add: inst_def)
  have same: "others ?s j = others s j" unfolding others_def len by (auto simp: inst)
  have "(\<Union>i < length (prNodes s). inst ?s i) = others ?s j \<union> inst ?s j" using j unfolding others_def len by auto
  then have split: "(\<Union>i < length (prNodes s). inst ?s i) = others s j \<union> inst ?s j" unfolding same .
  have "inst ?s i \<inter> others ?s i = {}" if i: "i < length (prNodes s)" for i
  proof (cases "i = j")
    case True
    then show ?thesis using own inst [OF j] same by (auto simp: apart_def)
  next
    case False
    have "others ?s i \<subseteq> others s i \<union> inst ?s j" unfolding others_def len using inst by (auto split: if_splits)
    moreover have "inst s i \<inter> others s i = {}" using ok i by (simp add: nodes_ok_def)
    moreover have "inst s i \<subseteq> others s j" using i False by (auto simp: others_def)
    then have "inst s i \<inter> inst ?s j = {}" using own inst [OF j] by (auto simp: apart_def)
    ultimately show ?thesis using inst [OF i] False by auto
  qed
  moreover have "running (prWorld ?s) = (\<Union>i < length (prNodes ?s). inst ?s i)"
    using own inst [OF j] unfolding len split by (simp add: apart_def put_node_def)
  moreover have "synced (fst (prNodes ?s ! i)) \<and> (snd (prNodes ?s ! i) = Closed \<longrightarrow> inst ?s i = {})"
    if "i < length (prNodes s)" for i
    using ok that sync closed at [OF that] inst [OF that] by (auto simp: nodes_ok_def)
  ultimately show ?thesis unfolding nodes_ok_def len by blast
qed

lemma add_node_ok:
  assumes ok: "nodes_ok running s" and sync: "synced n"
    and new: "running (ndWorld n) = running (prWorld s) \<union> set_option (instance_box (ndEngine n))"
      "running (prWorld s) \<inter> set_option (instance_box (ndEngine n)) = {}"
    and s': "prNodes s' = prNodes s @ [(n, Live)]" "prWorld s' = ndWorld n"
  shows "nodes_ok running s'"
proof -
  let ?k = "length (prNodes s)" and ?x = "set_option (instance_box (ndEngine n))"
  have at: "prNodes s' ! i = (if i = ?k then (n, Live) else prNodes s ! i)" if "i \<le> ?k" for i
    using that by (simp add: s'(1) nth_append)
  have inst: "inst s' i = (if i = ?k then ?x else inst s i)" if "i \<le> ?k" for i
    using at [OF that] by (simp add: inst_def)
  have ran: "running (prWorld s) = (\<Union>i < ?k. inst s i)" using ok by (simp add: nodes_ok_def)
  have len: "length (prNodes s') = Suc ?k" by (simp add: s'(1))
  have all: "(\<Union>i < Suc ?k. inst s' i) = (\<Union>i < ?k. inst s i) \<union> ?x"
    using inst by (auto simp: less_Suc_eq)
  have "inst s' i \<inter> others s' i = {}" if i: "i < Suc ?k" for i
  proof (cases "i = ?k")
    case True
    have "others s' i = (\<Union>i < ?k. inst s i)" unfolding others_def len True using inst by (auto simp: less_Suc_eq)
    then show ?thesis using new(2) inst [of i] True unfolding ran by auto
  next
    case False
    then have i': "i < ?k" using i by simp
    have "others s' i \<subseteq> others s i \<union> ?x" unfolding others_def len using inst by (auto simp: less_Suc_eq)
    moreover have "inst s i \<inter> others s i = {}" using ok i' by (simp add: nodes_ok_def)
    moreover have "inst s i \<inter> ?x = {}" using new(2) i' unfolding ran by auto
    ultimately show ?thesis using inst [of i] i' by auto
  qed
  moreover have "synced (fst (prNodes s' ! i)) \<and> (snd (prNodes s' ! i) = Closed \<longrightarrow> inst s' i = {})" if "i < Suc ?k" for i
    using ok sync that at [of i] inst [of i] by (auto simp: nodes_ok_def less_Suc_eq)
  ultimately show ?thesis unfolding nodes_ok_def len using new(1) all by (simp add: s'(2) ran)
qed

section \<open>The life of a process\<close>

text \<open>Exit code 0 means that all the nodes had started, exit code 1 that one had not.\<close>

definition count_ok :: "config \<Rightarrow> ('b, 'w) process \<Rightarrow> bool" where
  "count_ok cfg s \<longleftrightarrow>
     (case prPhase s of
        Starting is \<Rightarrow> length (prNodes s) + length is = length (NodeIDs cfg)
      | Serving \<Rightarrow> length (prNodes s) = length (NodeIDs cfg)
      | Stopping in_turn code \<Rightarrow>
          (if in_turn then code = 1 \<and> length (prNodes s) < length (NodeIDs cfg)
           else code = 0 \<and> length (prNodes s) = length (NodeIDs cfg))
      | Exited code \<Rightarrow>
          code = 0 \<and> length (prNodes s) = length (NodeIDs cfg)
          \<or> code = 1 \<and> length (prNodes s) < length (NodeIDs cfg)
          \<or> code = 2)"

definition process_ok :: "('w \<Rightarrow> 'b set) \<Rightarrow> config \<Rightarrow> ('b, 'w) process \<Rightarrow> bool" where
  "process_ok running cfg s \<longleftrightarrow> count_ok cfg s \<and>
     (case prPhase s of Exited code \<Rightarrow> code = 2 \<or> running (prWorld s) = {} | _ \<Rightarrow> nodes_ok running s)"

lemma process_ok_nodes: "process_ok running cfg s \<Longrightarrow> (\<And>code. prPhase s \<noteq> Exited code) \<Longrightarrow> nodes_ok running s"
  by (auto simp: process_ok_def split: process_phase.splits)

lemma all_closed_idle:
  assumes "nodes_ok running s" and "all_closed (length (prNodes s)) s"
  shows "running (prWorld s) = {}"
proof -
  have "snd (prNodes s ! j) = Closed" if "j < length (prNodes s)" for j
    using assms(2) that by (auto simp: all_closed_def list_all_length)
  then show ?thesis using assms(1) by (auto simp: nodes_ok_def)
qed

lemma put_node_frame [simp]:
  "prPhase (put_node j st n s) = prPhase s" "length (prNodes (put_node j st n s)) = length (prNodes s)"
  by (simp_all add: put_node_def)

lemma count_ok_frame [simp]: "count_ok cfg (put_node j st n s) = count_ok cfg s"
  by (simp add: count_ok_def split: process_phase.split)

lemma ticks_run_alive: "ticks_run (prPhase s) \<Longrightarrow> prPhase s \<noteq> Exited code"
  by (auto simp: ticks_run_def)

lemma nodes_ok_frame [simp]:
  "nodes_ok running (s\<lparr>prPhase := ph\<rparr>) = nodes_ok running s"
  by (simp add: nodes_ok_def inst_def others_def)

text \<open>The steps of a node in the process: what they leave is put back, and the rest stands.\<close>

lemma node_steps_ok:
  assumes laws: "platform_laws p running made" and still: "\<And>v v'. evolves v v' \<Longrightarrow> running v' = running v"
    and ok: "nodes_ok running s" and j: "j < length (prNodes s)"
  shows "node_tick p t (get_node s j) = Returns n \<Longrightarrow> nodes_ok running (put_node j Live n s)"
    and "node_tick p t (get_node s j) \<noteq> Panics n"
    and "snd (prNodes s ! j) = st \<Longrightarrow> evolves (prWorld s) w' \<Longrightarrow>
      nodes_ok running (put_node j st (let n = get_node s j
        in n\<lparr>ndLimiter := l, ndEngine := (ndEngine n)\<lparr>engStats := x\<rparr>, ndWorld := w'\<rparr>) s)"
    and "node_Report p (get_node s j) = (acked, n) \<Longrightarrow> nodes_ok running (put_node j Flushed n s)"
    and "engine_Close (plBox p) (ndEngine (get_node s j), prWorld s) = (err, e, w') \<Longrightarrow>
      nodes_ok running (put_node j Closed ((get_node s j)\<lparr>ndEngine := e, ndWorld := w'\<rparr>) s)"
proof -
  let ?n = "get_node s j"
  note own = node_in_process [OF ok j]
  show "node_tick p t ?n \<noteq> Panics n" by (rule node_tick_apart(1) [OF laws own])
  show "nodes_ok running (put_node j Live n s)" if "node_tick p t ?n = Returns n"
    using node_tick_apart(2) [OF laws own that] by (intro put_node_ok [OF ok j]) simp_all
  show "nodes_ok running (put_node j Flushed n s)" if "node_Report p ?n = (acked, n)"
  proof -
    have same: "same_engine ?n n" "running (ndWorld n) = running (ndWorld ?n)"
      using node_Report_same_engine [of ?n p] node_Report_running [OF laws, of ?n] that by simp_all
    have "apart running (others s j) (ndEngine n, ndWorld n)"
      using own(1) same(2) same_engine_instance [OF same(1)] by (simp add: apart_def)
    moreover have "synced n" using own(2) same(1) by (simp add: synced_def same_engine_def)
    ultimately show ?thesis by (intro put_node_ok [OF ok j]) simp_all
  qed
  show "nodes_ok running (put_node j st (let n = ?n
      in n\<lparr>ndLimiter := l, ndEngine := (ndEngine n)\<lparr>engStats := x\<rparr>, ndWorld := w'\<rparr>) s)"
    if st: "snd (prNodes s ! j) = st" and ev: "evolves (prWorld s) w'"
  proof -
    have "running w' = running (ndWorld ?n)" using still [OF ev] by (simp add: get_node_def enter_def)
    moreover have "instance_box (ndEngine ?n) = None" if "st = Closed"
      using ok j st that by (simp add: nodes_ok_def inst_def get_node_def enter_def)
    ultimately show ?thesis using own
      by (intro put_node_ok [OF ok j]) (auto simp: apart_def synced_def Let_def)
  qed
  show "nodes_ok running (put_node j Closed (?n\<lparr>ndEngine := e, ndWorld := w'\<rparr>) s)"
    if close: "engine_Close (plBox p) (ndEngine ?n, prWorld s) = (err, e, w')"
  proof -
    have "ndWorld ?n = prWorld s" by (simp add: get_node_def enter_def)
    then have "running w' = running (ndWorld ?n) - set_option (instance_box (ndEngine ?n)) \<and> instance_box e = None"
      using close box_lawsD(6) [OF platform_lawsD(1) [OF laws]]
      by (auto simp: engine_Close_def close_take_def case_prod_beta split: option.splits)
    then show ?thesis using own by (intro put_node_ok [OF ok j]) (auto simp: apart_def synced_def)
  qed
qed

lemma process_step_ok:
  fixes p :: "('b, 'w, 'r, 'o) platform"
  assumes laws: "platform_laws p running made" and still: "\<And>v v'. evolves v v' \<Longrightarrow> running v' = running v"
    and step: "process_step p evolves cfg s s'" and ok: "process_ok running cfg s"
  shows "process_ok running cfg s'"
  using step
proof cases
  case (start i ids n)
  let ?new = "NewNode (node_config_for cfg i) (prFiles s) (prWorld s) :: ('b, 'w) node"
  have idle: "instance_box (ndEngine ?new) = None" "ndWorld ?new = prWorld s" by (simp_all add: NewNode_def NewEngine_def)
  note run = node_Start_running [OF laws idle(1) start(3)]
  have "nodes_ok running s'"
    using add_node_ok [OF process_ok_nodes [OF ok] node_Start_synced [OF start(3)]] run(1,3) idle(2) start(1,2) by simp
  then show ?thesis using ok start(1,2) by (simp add: process_ok_def count_ok_def)
next
  case (start_fails i ids err n)
  let ?new = "NewNode (node_config_for cfg i) (prFiles s) (prWorld s) :: ('b, 'w) node"
  have idle: "instance_box (ndEngine ?new) = None" "ndWorld ?new = prWorld s" by (simp_all add: NewNode_def NewEngine_def)
  have "running (ndWorld n) = running (prWorld s)"
    using node_Start_running [OF laws idle(1) start_fails(3)] idle(2) by simp
  moreover have "nodes_ok running s" using process_ok_nodes [OF ok] start_fails(2) by simp
  ultimately have "nodes_ok running s'" using start_fails(1) by (simp add: nodes_ok_def inst_def others_def)
  then show ?thesis using ok start_fails(1,2) by (simp add: process_ok_def count_ok_def)
next
  case (start_dies i ids err n)
  then show ?thesis by (simp add: process_ok_def count_ok_def)
next
  case started
  then show ?thesis using ok by (simp add: process_ok_def count_ok_def)
next
  case (tickers_die j)
  then show ?thesis by (simp add: process_ok_def count_ok_def)
next
  case (ticked j t n)
  have "nodes_ok running s" using process_ok_nodes [OF ok ticks_run_alive] ticked(2) by blast
  then have "nodes_ok running s'" using node_steps_ok(1) [OF laws still] ticked by (simp add: at_stage_def)
  then show ?thesis using ok ticked(1,2) by (auto simp: process_ok_def ticks_run_def split: process_phase.splits)
next
  case (tick_dies j t n)
  have "nodes_ok running s" using process_ok_nodes [OF ok ticks_run_alive] tick_dies(2) by blast
  then show ?thesis using node_steps_ok(2) [OF laws still] tick_dies by (auto simp: at_stage_def)
next
  case (served j st w' l x)
  have "nodes_ok running s" using process_ok_nodes [OF ok] served(2) by blast
  then have "nodes_ok running s'" using node_steps_ok(3) [OF laws still] served by (simp add: at_stage_def)
  then show ?thesis using ok served(1,2) by (auto simp: process_ok_def split: process_phase.splits)
next
  case signal
  then show ?thesis using ok by (simp add: process_ok_def count_ok_def)
next
  case (flush in_turn code j acked n)
  have "nodes_ok running s" using process_ok_nodes [OF ok] flush(2) by simp
  then have "nodes_ok running s'" using node_steps_ok(4) [OF laws still] flush by (simp add: at_stage_def)
  then show ?thesis using ok flush(1,2) by (auto simp: process_ok_def split: process_phase.splits)
next
  case (close in_turn code j err e w')
  have "nodes_ok running s" using process_ok_nodes [OF ok] close(2) by simp
  then have "nodes_ok running s'" using node_steps_ok(5) [OF laws still] close by (simp add: at_stage_def)
  then show ?thesis using ok close(1,2) by (auto simp: process_ok_def split: process_phase.splits)
next
  case (finish in_turn code)
  have "running (prWorld s) = {}" using all_closed_idle process_ok_nodes [OF ok] finish(2,3) by simp
  then show ?thesis using ok finish(1,2) by (auto simp: process_ok_def count_ok_def split: if_splits)
qed

lemma reachable_process_ok:
  fixes p :: "('b, 'w, 'r, 'o) platform"
  assumes laws: "platform_laws p running made" and idle: "running w = {}"
    and still: "\<And>v v'. evolves v v' \<Longrightarrow> running v' = running v"
    and reach: "reachable_process p evolves cfg f w s"
  shows "process_ok running cfg s"
  using reach
proof (induction rule: reachable_process.induct)
  case new
  show ?case using idle by (simp add: process_ok_def count_ok_def new_process_def nodes_ok_def)
next
  case (step s s')
  show ?case by (rule process_step_ok [OF laws still step.hyps(2) step.IH])
qed


section \<open>The end of a process\<close>

text \<open>The steps that the shutdowns have left.\<close>

primrec stage_steps :: "stage \<Rightarrow> nat" where
  "stage_steps Live = 2"
| "stage_steps Flushed = 1"
| "stage_steps Closed = 0"

definition steps_left :: "('b, 'w) process \<Rightarrow> nat" where
  "steps_left s = sum_list (map (\<lambda>m. stage_steps (snd m)) (prNodes s))"

lemma sum_list_update_less:
  fixes f :: "'a \<Rightarrow> nat"
  shows "j < length xs \<Longrightarrow> f y < f (xs ! j) \<Longrightarrow> sum_list (map f (xs[j := y])) < sum_list (map f xs)"
  by (induction xs arbitrary: j) (auto split: nat.split simp: less_Suc_eq_0_disj)

lemma put_node_steps:
  "at_stage s j st \<Longrightarrow> stage_steps st' < stage_steps st \<Longrightarrow> steps_left (put_node j st' n s) < steps_left s"
  unfolding steps_left_def put_node_def at_stage_def
  by (simp add: sum_list_update_less)

text \<open>A process that is stopping is done, or can take a step of a shutdown.\<close>

lemma shutdown_progress:
  assumes phase: "prPhase s = Stopping in_turn code"
  obtains "all_closed (length (prNodes s)) s"
  | s' where "process_step p evolves cfg s s'" "prPhase s' = prPhase s" "steps_left s' < steps_left s"
proof (cases "all_closed (length (prNodes s)) s")
  case False
  define todo where "todo = (\<lambda>j. j < length (prNodes s) \<and> snd (prNodes s ! j) \<noteq> Closed)"
  have "\<exists>j. todo j" using False by (auto simp: all_closed_def list_all_length todo_def)
  then obtain j where j: "todo j" "\<And>i. i < j \<Longrightarrow> \<not> todo i" by (metis exists_least_iff)
  have before: "all_closed j s" using j by (auto simp: all_closed_def list_all_length todo_def)
  show ?thesis
  proof (cases "snd (prNodes s ! j)")
    case Live
    then have at: "at_stage s j Live" using j(1) by (simp add: at_stage_def todo_def)
    obtain acked n where "node_Report p (get_node s j) = (acked, n)" by (rule prod.exhaust)
    then have "process_step p evolves cfg s (put_node j Flushed n s)"
      using before by (intro process_step.flush [OF phase at]) simp_all
    then show ?thesis by (rule that(2)) (use put_node_steps [OF at] in simp_all)
  next
    case Flushed
    then have at: "at_stage s j Flushed" using j(1) by (simp add: at_stage_def todo_def)
    obtain err e w' where "engine_Close (plBox p) (ndEngine (get_node s j), prWorld s) = (err, e, w')" by (rule prod_cases3)
    then have "process_step p evolves cfg s (put_node j Closed ((get_node s j)\<lparr>ndEngine := e, ndWorld := w'\<rparr>) s)"
      by (rule process_step.close [OF phase at])
    then show ?thesis by (rule that(2)) (use put_node_steps [OF at] in simp_all)
  next
    case Closed
    then show ?thesis using j(1) by (simp add: todo_def)
  qed
qed (rule that(1))


text \<open>A process with one node, which has started.\<close>

abbreviation demo_process :: "(demo_box, demo_host) process \<Rightarrow> bool" where
  "demo_process \<equiv> reachable_process (demo_platform (\<lambda>_. False)) demo_evolves demo_env_config (\<lambda>_. None) (start_outs, (0, []))"

lemma demo_serving:
  obtains s n where "demo_process s" "prPhase s = Serving" "prNodes s = [(n, Live)]" "instance_box (ndEngine n) \<noteq> None"
proof -
  let ?p = "demo_platform (\<lambda>_. False)" and ?f = "\<lambda>_ :: nat. False"
  have cfg: "node_config_for demo_env_config 1 = demo_env_config" "NodeIDs demo_env_config = [1]"
    by (simp_all add: node_config_for_def demo_env_config_def specializeTrafficStateFile_def)
  obtain n where n: "node_Start ?p (demo_new (start_outs @ [])) = Returns (None, n)" "ndEngine n = fst (snd (demo_engine ?f))"
    using demo_starts [of ?f "[]"] by auto
  define s0 where "s0 = (new_process demo_env_config (\<lambda>_. None) (start_outs, (0, [])) :: (demo_box, demo_host) process)"
  have s0: "prPhase s0 = Starting [1]" "prFiles s0 = (\<lambda>_. None)" "prWorld s0 = (start_outs, (0, []))" "prNodes s0 = []"
    by (simp_all add: s0_def new_process_def cfg)
  define s1 where "s1 = s0\<lparr>prNodes := [(n, Live)], prFiles := ndFiles n, prWorld := ndWorld n, prPhase := Starting []\<rparr>"
  have "node_Start ?p (NewNode (node_config_for demo_env_config 1) (prFiles s0) (prWorld s0)) = Returns (None, n)"
    using n(1) by (simp add: s0 cfg)
  from process_step.start [OF s0(1) this] have step: "process_step ?p demo_evolves demo_env_config s0 s1"
    by (simp add: s1_def s0)
  have r0: "demo_process s0" unfolding s0_def by (rule reachable_process.new)
  have r1: "demo_process s1" by (rule reachable_process.step [OF r0 step])
  have "prPhase s1 = Starting []" by (simp add: s1_def)
  then have r2: "demo_process (s1\<lparr>prPhase := Serving\<rparr>)"
    by (rule reachable_process.step [OF r1 process_step.started])
  have "instance_box (fst (snd (demo_engine ?f))) \<noteq> None" by code_simp
  then show ?thesis using that [OF r2] n(2) by (simp add: s1_def)
qed



end
