(* ===== verification/Process_Files.thy ===== *)
theory Process_Files
  imports Process_Spec
begin

text \<open>
  The state files of the nodes of one process. Each node has its own, named after its id, and
  whatever a node does it leaves those of the others alone.
\<close>

section \<open>Names\<close>

definition state_paths :: "path \<Rightarrow> path set" where
  "state_paths file = (if file = [] then {} else {file, file @ ''.tmp'', file @ ''.corrupt''})"

lemma path_Ext_dot: "path_Ext q = [] \<or> hd (path_Ext q) = CHR ''.''"
  by (simp add: path_Ext_def Let_def)

lemma Itoa_no_dot: "CHR ''.'' \<notin> set (Itoa i)"
proof -
  have "CHR ''.'' \<notin> set (nat_digits 10 n)" for n
    using nat_digits_10_digits [of n] by (auto simp: list_all_iff is_digit_def)
  then show ?thesis by (simp add: Itoa_def)
qed

lemma id_before_dot:
  assumes "Itoa i @ u = Itoa j @ v" and "u = [] \<or> hd u = CHR ''.''" and "v = [] \<or> hd v = CHR ''.''"
  shows "i = j"
proof -
  have cut: "takeWhile (\<lambda>c. c \<noteq> CHR ''.'') (Itoa k @ u) = Itoa k" if "u = [] \<or> hd u = CHR ''.''" for k u
  proof -
    have "\<forall>c \<in> set (Itoa k). c \<noteq> CHR ''.''" using Itoa_no_dot [of k] by auto
    then show ?thesis using that by (cases u) (auto simp: takeWhile_append2)
  qed
  have "Itoa i = Itoa j" using cut [OF assms(2), of i] cut [OF assms(3), of j] assms(1) by simp
  then show ?thesis by (simp add: Itoa_inject)
qed

lemma state_paths_apart:
  assumes "i \<noteq> j"
  shows "state_paths (specializeTrafficStateFile q i) \<inter> state_paths (specializeTrafficStateFile q j) = {}"
proof (cases "q = []")
  case False
  define base where "base = take (length q - length (path_Ext q)) q @ ''-node''"
  have name: "specializeTrafficStateFile q k = base @ Itoa k @ path_Ext q" for k
    using False by (simp add: specializeTrafficStateFile_def base_def Let_def)
  define tails where "tails = {path_Ext q, path_Ext q @ ''.tmp'', path_Ext q @ ''.corrupt''}"
  have paths: "state_paths (specializeTrafficStateFile q k) = (\<lambda>u. base @ Itoa k @ u) ` tails" for k
    by (simp add: state_paths_def name tails_def)
  have "u = [] \<or> hd u = CHR ''.''" if "u \<in> tails" for u
    using that path_Ext_dot [of q] by (cases "path_Ext q") (auto simp: tails_def)
  then show ?thesis unfolding paths using id_before_dot assms by blast
qed (simp add: specializeTrafficStateFile_def state_paths_def)

section \<open>What a node writes\<close>

definition same_elsewhere :: "path set \<Rightarrow> fs \<Rightarrow> fs \<Rightarrow> bool" where
  "same_elsewhere A f f' \<longleftrightarrow> (\<forall>q. q \<notin> A \<longrightarrow> f' q = f q)"

lemma same_elsewhere_refl [simp]: "same_elsewhere A f f"
  by (simp add: same_elsewhere_def)

lemma Report_files:
  assumes "Report collect push e now (t, f, c) = (acked, t', f', c')"
  shows "same_elsewhere (state_paths (stateFile t)) f f'" and "stateFile t' = stateFile t"
proof -
  have persist: "same_elsewhere (state_paths (stateFile u)) f (snd (persistPending e u f))" for u
    by (auto simp: same_elsewhere_def state_paths_def persistPending_def os_WriteFile_def os_Rename_def Let_def
        split: option.split prod.split)
  have clear: "same_elsewhere (state_paths (stateFile u)) f (snd (clearPersistedPending e u f))" for u
    by (auto simp: same_elsewhere_def state_paths_def clearPersistedPending_def os_Remove_def
        split: option.split prod.split remove_outcome.split)
  obtain us err c1 where col: "collect c = ((us, err), c1)" by (metis prod.exhaust)
  define t1 where "t1 = (case err of None \<Rightarrow> t | Some er \<Rightarrow> markReport now False er 0 (int (length (pending t))) t)"
  have t1: "stateFile t1 = stateFile t" by (simp add: t1_def split: option.split)
  have "same_elsewhere (state_paths (stateFile t)) f f' \<and> stateFile t' = stateFile t"
    using assms persist [of "bufferPending _ t1"] clear [of "t1\<lparr>pending := []\<rparr>"] t1
    unfolding Report_def prod.case col t1_def [symmetric] Let_def
    by (auto simp: bufferPending_def split: prod.splits option.splits if_splits)
  then show "same_elsewhere (state_paths (stateFile t)) f f'" "stateFile t' = stateFile t" by blast+
qed

lemma load_files:
  assumes "NewTrafficReporterWithLimit e file limit f = (t, f')"
  shows "same_elsewhere (state_paths file) f f'" and "stateFile t = file"
  using assms
  by (auto simp: NewTrafficReporterWithLimit_def loadPending_def backupCorruptStateFile_def os_Rename_def
      bufferPending_def same_elsewhere_def state_paths_def split: read_outcome.splits option.splits if_splits)

text \<open>Calls that touch neither files nor reporter.\<close>

definition same_disk :: "('b, 'w) node \<Rightarrow> ('b, 'w) node \<Rightarrow> bool" where
  "same_disk n n' \<longleftrightarrow> ndFiles n' = ndFiles n \<and> ndReporter n' = ndReporter n
     \<and> TrafficStateFile (ndCfg n') = TrafficStateFile (ndCfg n)"

lemma same_disk_trans: "same_disk n n1 \<Longrightarrow> same_disk n1 n2 \<Longrightarrow> same_disk n n2"
  by (simp add: same_disk_def)

lemma node_calls_same_disk:
  "same_disk n (snd (node_now p n))"
  "same_disk n (snd (node_GetUsers p n))"
  "same_disk n (snd (node_GetNodeConfig p n))"
  "same_disk n (snd (node_GetUserAlive p n))"
  "same_disk n (snd (node_SendAlive p alive n))"
  "same_disk n (node_UpdateUsers p us n)"
  "same_disk n (snd (build_alive n))"
  "same_disk n (snd (node_ReloadUsers p cfg us level n))"
  by (simp_all add: same_disk_def node_now_def node_GetUsers_def node_GetNodeConfig_def node_GetUserAlive_def
      node_SendAlive_def node_UpdateUsers_def build_alive_def node_ReloadUsers_def split: prod.split)

text \<open>A node with its reporter, which has written only what is its own since the files were \<open>f\<close>.\<close>

definition writes_own :: "path \<Rightarrow> fs \<Rightarrow> ('b, 'w) node \<Rightarrow> bool" where
  "writes_own file f n \<longleftrightarrow> same_elsewhere (state_paths file) f (ndFiles n)
     \<and> (\<exists>t. ndReporter n = Some t \<and> stateFile t = file)"

lemma writes_own_same_disk: "same_disk n n' \<Longrightarrow> writes_own file f n \<Longrightarrow> writes_own file f n'"
  by (simp add: same_disk_def writes_own_def)

lemma node_Report_files:
  assumes "writes_own file f n" and "node_Report p n = (acked, n')"
  shows "writes_own file f n'"
proof -
  obtain t where t: "ndReporter n = Some t" "stateFile t = file" using assms(1) by (auto simp: writes_own_def)
  obtain push io now t' f' e' w' where R: "Report engine_CollectTraffic push io now (t, ndFiles n, ndEngine n) = (acked, t', f', e')"
    and n': "n' = n\<lparr>ndReporter := Some t', ndFiles := f', ndEngine := e', ndWorld := w'\<rparr>"
    using assms(2) by (auto simp: node_Report_def t(1) Let_def split: prod.splits)
  then show ?thesis using assms(1) Report_files [OF R] t(2)
    by (auto simp: writes_own_def same_elsewhere_def)
qed

interpretation disk: env_invariant "node_env p" "writes_own own f"
  for p :: "('b, 'w, 'r, 'o) platform" and own f
proof
  fix n :: "('b, 'w) node" and cfg us level alive
  assume ok: "writes_own own f n"
  note keep = node_calls_same_disk [THEN writes_own_same_disk, OF ok]
  show "writes_own own f (snd (envNow (node_env p) n))" using keep(1) by (simp add: node_env_def)
  show "writes_own own f (snd (envGetUsers (node_env p) n))" using keep(2) by (simp add: node_env_def)
  show "writes_own own f (snd (envGetNodeConfig (node_env p) n))" using keep(3) by (simp add: node_env_def)
  show "writes_own own f (snd (envGetUserAlive (node_env p) n))" using keep(4) by (simp add: node_env_def)
  show "writes_own own f (envUpdateUsers (node_env p) us n)" using keep(6) by (simp add: node_env_def)
  show "writes_own own f (envUpdateAliveList (node_env p) alive n)" using ok by (simp add: node_env_def writes_own_def)
  show "writes_own own f (envReport (node_env p) n)"
    using node_Report_files [OF ok, of p] by (simp add: node_env_def) (metis prod.collapse)
  show "writes_own own f (snd (envReloadUsers (node_env p) cfg us level n))" using keep(8) by (simp add: node_env_def)
qed

lemma node_tick_files:
  assumes ok: "writes_own file f n" and tick: "node_tick p t n = Returns n'"
  shows "writes_own file f n'"
proof (cases t)
  case SyncTick
  show ?thesis
  proof (cases "ndSyncer n")
    case (Some s)
    obtain s' n1 where R: "Sync (node_env p) (s, n) = Returns (s', n1)" and n': "n' = n1\<lparr>ndSyncer := Some s'\<rparr>"
      using tick SyncTick Some by (auto simp: node_sync_def split: outcome.splits)
    show ?thesis using disk.Sync_inv [OF ok R] by (simp add: n' writes_own_def)
  qed (use tick ok SyncTick in \<open>simp add: node_sync_def\<close>)
next
  case ReportTick
  then show ?thesis using tick node_Report_files [OF ok, of p] by (cases "node_Report p n") auto
next
  case AliveTick
  have "same_disk n (node_alive p n)"
    unfolding node_alive_def case_prod_beta
    by (rule same_disk_trans [OF node_calls_same_disk(7) node_calls_same_disk(5)])
  then show ?thesis using tick AliveTick writes_own_same_disk [OF _ ok] by simp
qed

lemma prepared_same_disk:
  assumes "node_GetNodeConfig p n = (Inr (Some nc), n1)"
    and "node_GetUsers p (n1\<lparr>ndCfg := choose_intervals nc (ndCfg n1)\<rparr>) = (Inr us, n2)"
    and "refreshAliveCounts (node_env p) LimiterPointer (node_UpdateUsers p us n2) = Returns n3"
  shows "same_disk n n3"
proof -
  let ?n1 = "n1\<lparr>ndCfg := choose_intervals nc (ndCfg n1)\<rparr>"
  have "same_disk n n1" using node_calls_same_disk(3) [of n p] assms(1) by simp
  then have "same_disk n ?n1" by (simp add: same_disk_def choose_intervals_def Let_def)
  then have s2: "same_disk n n2" using same_disk_trans node_calls_same_disk(2) [of ?n1 p] assms(2) by force
  let ?n3 = "snd (node_GetUserAlive p (node_UpdateUsers p us n2))"
  have "same_disk n ?n3" using same_disk_trans [OF s2] same_disk_trans node_calls_same_disk(4,6) by blast
  moreover have "n3 = ?n3 \<or> (\<exists>alive. n3 = ?n3\<lparr>ndLimiter := UpdateAliveList alive (ndLimiter ?n3)\<rparr>)"
    using assms(3) by (cases "node_GetUserAlive p (node_UpdateUsers p us n2)")
      (auto simp: refreshAliveCounts_def node_env_def split: sum.splits)
  ultimately show ?thesis by (auto simp: same_disk_def)
qed

lemma node_Start_files:
  assumes "node_Start p (NewNode cfg f w) = Returns (r, n)"
  shows "r = None \<Longrightarrow> writes_own (TrafficStateFile cfg) f n" and "r = Some err \<Longrightarrow> ndFiles n = f"
proof -
  let ?n0 = "NewNode cfg f w :: ('a, 'b) node"
  have f0: "ndFiles ?n0 = f" "TrafficStateFile (ndCfg ?n0) = TrafficStateFile cfg" by (simp_all add: NewNode_def)
  have "(r = None \<longrightarrow> writes_own (TrafficStateFile cfg) f n) \<and> (r \<noteq> None \<longrightarrow> ndFiles n = f)"
    using assms
  proof (cases rule: node_Start_cases)
    case (no_config err n1)
    then show ?thesis using node_calls_same_disk(3) [of ?n0 p] f0 by (simp add: same_disk_def)
  next
    case (no_users nc n1 err n2)
    have "ndFiles n1 = f" using no_users(1) node_calls_same_disk(3) [of ?n0 p] f0 by (simp add: same_disk_def)
    then show ?thesis
      using no_users(2,3) node_calls_same_disk(2) [of "n1\<lparr>ndCfg := choose_intervals nc (ndCfg n1)\<rparr>" p]
      by (simp add: same_disk_def)
  next
    case (ready nc n1 us n2 n3)
    note s3 = prepared_same_disk [OF ready(1-3)]
    obtain sr e w' where E: "engine_Start (plBox p) (Some nc) us (LogLevel (ndCfg n3)) (ndEngine n3, ndWorld n3) = (sr, e, w')"
      by (rule prod_cases3)
    let ?n4 = "n3\<lparr>ndEngine := e, ndWorld := w'\<rparr>"
    let ?n6 = "snd (node_SendAlive p (fst (build_alive ?n4)) (snd (build_alive ?n4)))"
    have "same_disk ?n0 ?n4" using s3 by (simp add: same_disk_def)
    then have s6: "same_disk ?n0 ?n6" using same_disk_trans node_calls_same_disk(5,7) by blast
    obtain io w6 where I: "plIO p (ndWorld ?n6) = (io, w6)" by (rule prod.exhaust)
    obtain t f' where T: "NewTrafficReporterWithLimit io (TrafficStateFile (ndCfg ?n6))
        (TrafficPendingMaxUsers (ndCfg ?n6)) (ndFiles ?n6) = (t, f')" by (rule prod.exhaust)
    show ?thesis
    proof (cases sr)
      case None
      then have n: "r = None" "n = node_attach p nc us ?n4" using ready(4) E by simp_all
      have "ndReporter n = Some t" "ndFiles n = f'" using I T by (simp_all add: n node_attach_def case_prod_beta)
      moreover have "TrafficStateFile (ndCfg ?n6) = TrafficStateFile cfg" "ndFiles ?n6 = f"
        using s6 f0 by (simp_all add: same_disk_def)
      ultimately show ?thesis using load_files [OF T] n(1) by (simp add: writes_own_def)
    next
      case (Some err)
      then have "r = Some (EngineFailed err)" "n = ?n4" using ready(4) E by simp_all
      then show ?thesis using s3 f0 by (simp add: same_disk_def)
    qed
  qed simp
  then show "r = None \<Longrightarrow> writes_own (TrafficStateFile cfg) f n" "r = Some err \<Longrightarrow> ndFiles n = f" by simp_all
qed

section \<open>The files of a process\<close>

definition own_file :: "config \<Rightarrow> nat \<Rightarrow> path" where
  "own_file cfg j = specializeTrafficStateFile (TrafficStateFile cfg) (NodeIDs cfg ! j)"

definition files_ok :: "config \<Rightarrow> ('b, 'w) process \<Rightarrow> bool" where
  "files_ok cfg s \<longleftrightarrow>
     (\<forall>j < length (prNodes s). j < length (NodeIDs cfg) \<and>
        (\<exists>t. ndReporter (fst (prNodes s ! j)) = Some t \<and> stateFile t = own_file cfg j))
     \<and> (\<forall>is. prPhase s = Starting is \<longrightarrow> is = drop (length (prNodes s)) (NodeIDs cfg))"

lemma put_node_files:
  assumes ok: "files_ok cfg s" and j: "j < length (prNodes s)" and own: "writes_own (own_file cfg j) f n"
  shows "files_ok cfg (put_node j st n s)"
proof -
  have "\<exists>t. ndReporter (fst (prNodes (put_node j st n s) ! i)) = Some t \<and> stateFile t = own_file cfg i"
    if "i < length (prNodes s)" for i
    using ok own that by (cases "i = j") (auto simp: put_node_def files_ok_def writes_own_def nth_list_update)
  then show ?thesis using ok by (simp add: files_ok_def)
qed

lemma process_step_files:
  fixes p :: "('b, 'w, 'r, 'o) platform"
  assumes step: "process_step p evolves cfg s s'" and alive: "prPhase s' \<noteq> Exited 2" and ok: "files_ok cfg s"
  shows "files_ok cfg s' \<and> (prFiles s' = prFiles s
    \<or> (\<exists>j < length (NodeIDs cfg). same_elsewhere (state_paths (own_file cfg j)) (prFiles s) (prFiles s')))"
proof -
  have node: "writes_own (own_file cfg j) (prFiles s) (get_node s j) \<and> j < length (NodeIDs cfg)"
    if "j < length (prNodes s)" for j
    using ok that by (simp add: files_ok_def writes_own_def get_node_def enter_def)
  have put: "files_ok cfg (put_node j st n s) \<and> (prFiles (put_node j st n s) = prFiles s
      \<or> (\<exists>k < length (NodeIDs cfg). same_elsewhere (state_paths (own_file cfg k)) (prFiles s) (prFiles (put_node j st n s))))"
    if "j < length (prNodes s)" "writes_own (own_file cfg j) (prFiles s) n" for j st n
  proof -
    have "same_elsewhere (state_paths (own_file cfg j)) (prFiles s) (prFiles (put_node j st n s))"
      using that(2) by (simp add: writes_own_def put_node_def)
    then show ?thesis using put_node_files [OF ok that] node [OF that(1)] by blast
  qed
  show ?thesis
    using step
  proof cases
    case (start i ids n)
    let ?k = "length (prNodes s)"
    have ids: "drop ?k (NodeIDs cfg) = i # ids" using ok start(2) by (simp add: files_ok_def)
    then have k: "?k < length (NodeIDs cfg)" "NodeIDs cfg ! ?k = i" "drop (Suc ?k) (NodeIDs cfg) = ids"
      by (metis drop_eq_Nil linorder_not_less list.distinct(1),
          metis hd_drop_conv_nth drop_eq_Nil linorder_not_less list.distinct(1) list.sel(1),
          metis drop_Suc list.sel(3) tl_drop)
    have own: "writes_own (own_file cfg ?k) (prFiles s) n"
      using node_Start_files(1) [OF start(3)] by (simp add: own_file_def k node_config_for_def)
    then obtain t where t: "ndReporter n = Some t" "stateFile t = own_file cfg ?k" by (auto simp: writes_own_def)
    have "files_ok cfg s'"
      using ok t k start(1) by (auto simp: files_ok_def nth_append less_Suc_eq)
    then show ?thesis using own k(1) start(1) by (auto simp: writes_own_def)
  next
    case (start_fails i ids err n)
    then show ?thesis using ok node_Start_files(2) [OF start_fails(3)] by (simp add: files_ok_def)
  next
    case (ticked j t n)
    then have j: "j < length (prNodes s)" by (simp add: at_stage_def)
    have own: "writes_own (own_file cfg j) (prFiles s) n" by (rule node_tick_files [OF conjunct1 [OF node [OF j]] ticked(4)])
    show ?thesis unfolding ticked(1) by (rule put [OF j own])
  next
    case (served j st w' l x)
    then show ?thesis using node by (simp only:) (rule put, auto simp: at_stage_def writes_own_def Let_def)
  next
    case (flush in_turn code j acked n)
    then have j: "j < length (prNodes s)" by (simp add: at_stage_def)
    have own: "writes_own (own_file cfg j) (prFiles s) n" by (rule node_Report_files [OF conjunct1 [OF node [OF j]] flush(5)])
    show ?thesis unfolding flush(1) by (rule put [OF j own])
  next
    case (close in_turn code j err e w')
    then show ?thesis using node by (simp only:) (rule put, auto simp: at_stage_def writes_own_def)
  qed (use ok alive in \<open>auto simp: files_ok_def\<close>)
qed

lemma reachable_process_files:
  "reachable_process p evolves cfg f w s \<Longrightarrow> prPhase s \<noteq> Exited 2 \<Longrightarrow> files_ok cfg s"
proof (induction rule: reachable_process.induct)
  case new
  then show ?case by (simp add: new_process_def files_ok_def)
next
  case (step s s')
  have "prPhase s \<noteq> Exited 2"
    using step.hyps(2) step.prems by cases (auto simp: ticks_run_def)
  then show ?case using process_step_files [OF step.hyps(2) step.prems step.IH] by blast
qed

text \<open>
  C13: The nodes of a process do not touch each other's state. Every step of the process, be it a
  start, a tick or a part of a shutdown, changes no file at all or only the state file of one
  of the node ids, with its temporary and its backup copy; and the files of two different ids
  are different, whatever the configured path.
\<close>

theorem state_files_apart:
  assumes "reachable_process p evolves cfg f w s" and "process_step p evolves cfg s s'"
    and "prPhase s' \<noteq> Exited 2"
  shows "(prFiles s' = prFiles s
      \<or> (\<exists>j < length (NodeIDs cfg). \<forall>q. q \<notin> state_paths (own_file cfg j) \<longrightarrow> prFiles s' q = prFiles s q))
    \<and> (\<forall>j < length (NodeIDs cfg). \<forall>k < length (NodeIDs cfg). NodeIDs cfg ! j \<noteq> NodeIDs cfg ! k \<longrightarrow>
         state_paths (own_file cfg j) \<inter> state_paths (own_file cfg k) = {})"
proof -
  have "prPhase s \<noteq> Exited 2" using assms(2,3) by cases (auto simp: ticks_run_def)
  then have "files_ok cfg s" using reachable_process_files [OF assms(1)] by blast
  from process_step_files [OF assms(2,3) this] show ?thesis
    using state_paths_apart by (auto simp: same_elsewhere_def own_file_def)
qed

text \<open>Two nodes, and a panel that cannot be reached.\<close>

definition two_nodes :: config where
  "two_nodes = demo_env_config\<lparr>NodeIDs := [5, 6], TrafficStateFile := ''/p.json''\<rparr>"

lemma demo_unreachable:
  "\<exists>err n'. node_Start (demo_platform fails) (NewNode c f (NoResponse e # outs, v)) = Returns (Some err, n')"
  by (simp add: node_Start_def node_GetNodeConfig_def GetNodeConfig_def NewNode_def demo_no_response)

theorem state_files_apart_witness:
  "\<exists>s s'. process_step (demo_platform (\<lambda>_. False)) demo_evolves two_nodes s s' \<and> prPhase s' = Stopping True 1
     \<and> prFiles s' ''/q'' = prFiles s ''/q''
     \<and> own_file two_nodes 0 = ''/p-node5.json'' \<and> own_file two_nodes 1 = ''/p-node6.json''
     \<and> state_paths (own_file two_nodes 0) \<inter> state_paths (own_file two_nodes 1) = {}"
proof -
  define s :: "(demo_box, demo_host) process" where
    "s = new_process two_nodes Map.empty (NoResponse ''refused'' # [], (0, []))"
  have paths: "own_file two_nodes 0 = ''/p-node5.json''" "own_file two_nodes 1 = ''/p-node6.json''" by code_simp+
  obtain err n where start: "node_Start (demo_platform (\<lambda>_. False)) (NewNode (node_config_for two_nodes 5) (prFiles s) (prWorld s))
      = Returns (Some err, n)"
    unfolding s_def new_process_def by (simp, metis demo_unreachable)
  have "prPhase s = Starting [5, 6]" by (simp add: s_def new_process_def two_nodes_def)
  note step = process_step.start_fails [OF this start, where evolves = demo_evolves]
  have "reachable_process (demo_platform (\<lambda>_. False)) demo_evolves two_nodes Map.empty (NoResponse ''refused'' # [], (0, [])) s"
    unfolding s_def by (rule reachable_process.new)
  note apart = state_files_apart [OF this step]
  have ids: "NodeIDs two_nodes = [5, 6]" by (simp add: two_nodes_def)
  have "ndFiles n ''/q'' = prFiles s ''/q''"
    using apart by (auto simp: ids less_Suc_eq paths [unfolded One_nat_def] paths state_paths_def)
  moreover have "state_paths (own_file two_nodes 0) \<inter> state_paths (own_file two_nodes 1) = {}"
    using apart by (auto simp: ids less_Suc_eq)
  ultimately show ?thesis using step paths by (intro exI conjI) (assumption | simp)+
qed

end
