(* ===== verification/Doctor_Spec.thy ===== *)
theory Doctor_Spec
  imports Process Node_Example
begin

text \<open>
  What the doctor's answer means: its verdict is that every check passed, and every check
  passes exactly when the panel answers, its users and its configuration are usable, and the
  port is free. The command's output reads back, and its exit code is the verdict.
\<close>

section \<open>The verdict\<close>

definition consistent :: "doctor_result \<Rightarrow> bool" where
  "consistent r \<longleftrightarrow> (drOK r \<longleftrightarrow> list_all chOK (drChecks r))"

lemma consistent_checked [simp]:
  "consistent r \<Longrightarrow> consistent (add_check name ok msg r)" "consistent r \<Longrightarrow> consistent (checked name good err r)"
  "consistent \<lparr>drOK = True, drChecks = []\<rparr>"
  by (auto simp: consistent_def add_check_def checked_def split: option.split)

lemma checked_OK [simp]: "drOK (checked name good err r) \<longleftrightarrow> drOK r \<and> err = None"
  by (auto simp: checked_def add_check_def split: option.split)

lemma checked_names [simp]:
  "map chName (drChecks (checked name good err r)) = map chName (drChecks r) @ [name]"
  "map chName (drChecks (add_check name ok msg r)) = map chName (drChecks r) @ [name]"
  by (auto simp: checked_def add_check_def split: option.split)

lemma add_check_OK [simp]: "drOK (add_check name ok msg r) \<longleftrightarrow> drOK r \<and> ok"
  by (simp add: add_check_def)

lemma validateUsers_None:
  "validateUsers us = None \<longleftrightarrow> (\<forall>u \<in> set us. 0 < uID u \<and> TrimSpace (uUUID u) \<noteq> [])"
  by (induction us) auto

lemma BuildConfig_checked:
  "(case BuildConfig dec (Some c) us level clash ipv6 of Inl err \<Rightarrow> Some (text err) | Inr opts \<Rightarrow> None) = None
    \<longleftrightarrow> acceptable dec c"
proof (cases "BuildConfig dec (Some c) us level clash ipv6")
  case (Inl err)
  then show ?thesis using BuildConfig_accepts [of dec c us level clash ipv6] by auto
next
  case (Inr opts)
  have "acceptable dec c" by (rule BuildConfig_cases [OF Inr])
  then show ?thesis using Inr by simp
qed

text \<open>What the doctor finds when all is well.\<close>

definition healthy ::
  "('b, 'w, 'r, 'o) platform \<Rightarrow> (string \<Rightarrow> 'w \<Rightarrow> string option \<times> 'w) \<Rightarrow> ('w \<Rightarrow> bool) \<Rightarrow> config \<Rightarrow> 'w \<Rightarrow> bool" where
  "healthy p listen late cfg w \<longleftrightarrow>
     (\<exists>nc c1 w1 us c2 w2 w3 alive.
        GetNodeConfig (plNet p) (NewClient (PanelHost cfg) (PanelToken cfg) (NodeID cfg)) w = (Inr (Some nc), c1, w1)
        \<and> GetUsers (plNet p) c1 w1 = (Inr us, c2, w2)
        \<and> (\<forall>u \<in> set us. 0 < uID u \<and> TrimSpace (uUUID u) \<noteq> [])
        \<and> acceptable (boxDecoders (plBox p)) nc
        \<and> checkListenPort listen late (ServerPort nc) w2 = (None, w3)
        \<and> fst (GetUserAlive (plNet p) c2 w3) = Inr alive)"

definition all_checks :: "string list" where
  "all_checks = [''panel_config'', ''panel_users'', ''users_valid'', ''singbox_config'', ''listen_port'', ''alive_list'']"

lemma RunDoctor_verdict:
  assumes run: "RunDoctor p listen late cfg w = Returns (r, w')"
  shows "consistent r" and "drOK r \<longleftrightarrow> healthy p listen late cfg w"
    and "drOK r \<Longrightarrow> map chName (drChecks r) = all_checks"
proof -
  let ?c = "NewClient (PanelHost cfg) (PanelToken cfg) (NodeID cfg)"
  obtain rc c1 w1 where C: "GetNodeConfig (plNet p) ?c w = (rc, c1, w1)" by (rule prod_cases3)
  have "consistent r \<and> (drOK r \<longleftrightarrow> healthy p listen late cfg w) \<and> (drOK r \<longrightarrow> map chName (drChecks r) = all_checks)"
  proof (cases rc)
    case (Inl err)
    then show ?thesis using run C by (auto simp: RunDoctor_def healthy_def)
  next
    case cfg: (Inr x)
    show ?thesis
    proof (cases x)
      case None
      then show ?thesis using run C cfg by (simp add: RunDoctor_def)
    next
      case nc: (Some nc)
      obtain ru c2 w2 where U: "GetUsers (plNet p) c1 w1 = (ru, c2, w2)" by (rule prod_cases3)
      show ?thesis
      proof (cases ru)
        case (Inl err)
        then show ?thesis using run C cfg nc U by (auto simp: RunDoctor_def healthy_def)
      next
        case us: (Inr us)
        obtain le w3 where L: "checkListenPort listen late (ServerPort nc) w2 = (le, w3)" by (rule prod.exhaust)
        obtain ra w4 where A: "GetUserAlive (plNet p) c2 w3 = (ra, w4)" by (rule prod.exhaust)
        have alive: "(case ra of Inl err \<Rightarrow> Some (f err) | Inr _ \<Rightarrow> None) = None \<longleftrightarrow> (\<exists>alive. ra = Inr alive)"
          for f :: "panel_error \<Rightarrow> string" by (cases ra) simp_all
        have health: "healthy p listen late cfg w \<longleftrightarrow> validateUsers us = None
            \<and> acceptable (boxDecoders (plBox p)) nc \<and> le = None \<and> (\<exists>alive. ra = Inr alive)"
          by (auto simp: healthy_def C cfg nc U us L A validateUsers_None)
        show ?thesis
          using run unfolding RunDoctor_def
          by (auto simp: C cfg nc U us L A Let_def health alive BuildConfig_checked all_checks_def)
      qed
    qed
  qed
  then show "consistent r" "drOK r \<longleftrightarrow> healthy p listen late cfg w" "drOK r \<Longrightarrow> map chName (drChecks r) = all_checks"
    by blast+
qed


section \<open>The command\<close>

lemma run_doctors_results:
  "run_doctors p listen late cfg ids w = Returns (results, w') \<Longrightarrow>
     length results = length ids \<and> (\<forall>r \<in> set results. consistent r)"
proof (induction ids arbitrary: w results)
  case (Cons i ids)
  obtain r w1 rest where "RunDoctor p listen late (node_config_for cfg i) w = Returns (r, w1)"
    "run_doctors p listen late cfg ids w1 = Returns (rest, w')" "results = r # rest"
    using Cons.prems by (auto split: outcome.splits)
  then show ?case using Cons.IH RunDoctor_verdict(1) by fastforce
qed simp

definition readable :: "doctor_result \<Rightarrow> bool" where
  "readable r \<longleftrightarrow> list_all (\<lambda>c. valid_utf8 (chName c) \<and> valid_utf8 (chMessage c)) (drChecks r)"

lemma doctor_json_plain:
  assumes "readable r"
  shows "plain_json (Suc (Suc (Suc d))) (doctor_result_json r)"
  using assms
  by (auto simp: doctor_result_json_def doctor_check_json_def readable_def list_all_iff byte_def intro!: valid_utf8_ascii)

lemma doctor_output_plain:
  assumes "\<forall>r \<in> set results. readable r"
  shows "plain_json (Suc (Suc (Suc (Suc d)))) (doctor_output results)"
  using assms doctor_json_plain by (cases results) (auto simp: doctor_output_def)


section \<open>A node in good health\<close>

definition doctor_outs :: "http_outcome list" where
  "doctor_outs = [Response 200 ''c'' demo_body, Response 200 ''u'' ''[]'', Response 200 [] []]"

abbreviation can_listen :: "string \<Rightarrow> demo_host \<Rightarrow> string option \<times> demo_host" where
  "can_listen \<equiv> \<lambda>addr h. (None, h)"

abbreviation in_time :: "demo_host \<Rightarrow> bool" where
  "in_time \<equiv> \<lambda>h. False"

definition demo_result :: doctor_result where
  "demo_result =
     add_check ''alive_list'' True ''alive list endpoint is reachable''
     (add_check ''listen_port'' True ('':'' @ Itoa 443 @ '' is available'')
     (add_check ''singbox_config'' True ''config can be translated''
     (add_check ''users_valid'' True ''all users have ids and uuids''
     (add_check ''panel_users'' True (''users='' @ Itoa 0)
     (add_check ''panel_config'' True (''protocol='' @ ''vless'' @ '' network='' @ [] @ '' server_name='' @ ''a'')
     \<lparr>drOK = True, drChecks = []\<rparr>)))))"

lemma demo_doctor:
  "\<exists>w'. RunDoctor (demo_platform (\<lambda>_. False)) can_listen in_time demo_env_config (doctor_outs, (0, []))
     = Returns (demo_result, w')"
proof -
  let ?p = "demo_platform (\<lambda>_. False)"
  obtain opts where B: "BuildConfig (boxDecoders (plBox ?p)) (Some demo_nc) [] ''info'' [] False = Inr opts"
    using demo_accepted by blast
  have nc: "Protocol demo_nc = ''vless''" "Network demo_nc = []" "ServerPort demo_nc = 443"
    "tlsServerName (TLSSettings demo_nc) = ''a''"
    by (simp_all add: demo_node_config_def zero_config_def zero_tls_def)
  have "decodeAliveList [] = Some []" by (simp add: decodeAliveList_def)
  then show ?thesis using B
    by (simp add: RunDoctor_def GetNodeConfig_def GetUsers_def GetUserAlive_def doctor_outs_def demo_request
        demo_body_decoded demo_no_users_decoded demo_env_config_def nc checkListenPort_def checked_def demo_result_def Let_def)
qed

lemma demo_result_good: "drOK demo_result \<and> readable demo_result"
  by code_simp

lemma demo_doctors:
  "\<exists>w'. run_doctors (demo_platform (\<lambda>_. False)) can_listen in_time demo_env_config [1] (doctor_outs, (0, []))
     = Returns ([demo_result], w')"
proof -
  have "node_config_for demo_env_config 1 = demo_env_config"
    by (simp add: node_config_for_def demo_env_config_def specializeTrafficStateFile_def)
  then show ?thesis using demo_doctor by auto
qed



end
