(* ===== verification/Spec2Isabelle.thy ===== *)
theory Spec2Isabelle
  imports Tracker_Spec Limiter_Reports Traffic_Restart Panel_Text Node_Ledger Process_Files Doctor_Spec
begin

text \<open>
  singbox-bridge connects a panel (Xboard) with an embedded sing-box proxy. A process runs
  one node per configured node id. A node fetches its configuration and its users from the
  panel, translates them into a sing-box configuration, runs sing-box, and keeps it in step
  with the panel; each connection passes a limiter and is counted; counted bytes and online
  addresses are reported to the panel at intervals. This library models that program, file by
  file, and proves what makes it correct; where it is not, the theorem says what happens.

  \<^bold>\<open>Theories and source files\<close>

  \<^item> \<open>Prelude\<close>: Go's maps and sets as association lists, durations, integers of 64 bits, and
    the locale \<open>stepper\<close>, an invariant over histories of steps.
  \<^item> \<open>GoStrings\<close>, \<open>Netip\<close>, \<open>Netip_Parse\<close>, \<open>Json\<close>, \<open>Json_Indent\<close>, \<open>Decode\<close>, \<open>Files\<close>, \<open>Sha256\<close>: the
    parts of Go's standard library that the program uses: string functions, addresses with
    printing and parsing, \<open>encoding/json\<close> down to bytes with its struct decoders and its
    indented output, files, SHA-256.
  \<^item> \<open>Types\<close>: the data the components exchange, and the interfaces \<open>ConnectionLimiter\<close>
    (locales \<open>connection_limiter\<close>, \<open>shared_limiter\<close>) and \<open>trafficCollector\<close>
    (locale \<open>traffic_collector\<close>) with the laws their clients rely on.
  \<^item> \<open>Limiter\<close> (\<open>core/limiter.go\<close>): the record \<open>limiter\<close> and every method. \<open>Limiter_Live\<close> shows that
    the indexes stand for the list of live connections, \<open>Limiter_Spec\<close> that \<open>Check\<close> refines a
    specification over that list and what admission guarantees, \<open>Limiter_Rates\<close> what the rate
    windows and speed buckets guarantee, \<open>Limiter_Reports\<close> what an alive report says.
  \<^item> \<open>Stats\<close> (\<open>singbox/stats.go\<close>): the counters, as atomic operations in any interleaving.
  \<^item> \<open>Tracker\<close> (\<open>singbox/tracker.go\<close>): the wrapped connections, over any limiter, as a step
    relation of the goroutines; \<open>Tracker_Spec\<close> puts it on the limiter above.
  \<^item> \<open>Traffic\<close> (\<open>core/traffic.go\<close>): the reporter. \<open>Traffic_Spec\<close> follows every byte through
    failing and succeeding reports, \<open>Traffic_Restart\<close> through the state file.
  \<^item> \<open>Panel\<close> (\<open>panel/client.go\<close>): decoding, requests with retries, entity tags. \<open>Panel_Spec\<close> shows
    that retries are bounded and caches current, \<open>Panel_Text\<close> that the texts say what they should.
  \<^item> \<open>Box_Config\<close> (\<open>singbox/config.go\<close>): the translation into sing-box options;
    \<open>Box_Config_Spec\<close> characterises what is accepted and what the options hold.
  \<^item> \<open>Engine\<close> (\<open>singbox/engine.go\<close>): start, reload with rollback, close. \<open>Engine_Spec\<close> states the
    life cycle of sing-box instances (\<open>box_laws\<close>) and how a reload ends.
  \<^item> \<open>Env\<close> (\<open>config/env.go\<close>): the runtime configuration; \<open>Env_Spec\<close>: it is valid when it loads.
  \<^item> \<open>Sync\<close> (\<open>core/sync.go\<close>, \<open>core/alive.go\<close>): digests and synchronisation. \<open>Sync_Text\<close> shows what
    the digests distinguish (locale \<open>prefix_code\<close>), \<open>Sync_Spec\<close> how a call ends and which
    invariants it keeps (locales \<open>env_invariant\<close>, \<open>recording_engine\<close>).
  \<^item> \<open>Node\<close> (\<open>core/node.go\<close>, \<open>core/doctor.go\<close>, the start loop of \<open>main.go\<close>): the composition.
    \<open>Node_Spec\<close> interprets the locales of \<open>Sync_Spec\<close> on the node and proves the invariant of
    every reachable node; \<open>Node_Example\<close> is a concrete run; \<open>Node_Fleet\<close> is the start of all nodes.
    \<open>Tickers\<close> are the periods of its tickers and when they overflow.
  \<^item> \<open>Node_Billing\<close> and \<open>Node_Ledger\<close>: what the panel books, from the bytes of the requests that
    the node sends it, against what the connections carried. \<open>Node_Billing\<close> keeps the balance of
    one operation, with an interpretation of \<open>env_invariant\<close> for a synchronisation;
    \<open>Node_Ledger\<close> follows it through every history of a node.
  \<^item> \<open>Sys_Linux\<close> (\<open>sys_linux.go\<close>, \<open>sys_other.go\<close>): congestion control and the limit on open files.
  \<^item> \<open>Process\<close> (\<open>main.go\<close>): the doctor command with its output and exit code, and the process
    as a step relation in which the starts, ticks and shutdowns of all nodes interleave.
    \<open>Process_Spec\<close> shows which instances run and that a shutdown completes, \<open>Process_Files\<close> that
    the nodes write different files, \<open>Doctor_Spec\<close> what the doctor's verdict and exit code mean.

  \<^bold>\<open>State and steps\<close>

  A Go struct is a record with the fields of the struct, without mutexes and loggers; a
  critical section is one step. Where a method has two critical sections, or calls something
  between them, and an interleaving matters, it is split there (\<open>UserSpeedBucket\<close>,
  \<open>ReloadUsers\<close>, the methods of the tracker, the atomic operations on the counters), and the
  undivided method is shown or defined to be their composition. What is outside the program
  is a parameter: the network, the clock, sing-box and its JSON decoders, the errors that
  file operations meet, the texts of foreign errors. Theorems about it name the laws they
  use (\<open>box_laws\<close>, \<open>platform_laws\<close>, \<open>honest_server\<close>, \<open>keeps_ledger\<close>).

  Integers that are added up or converted keep their width (\<open>64 word\<close>, \<open>32 word\<close>, \<open>16 word\<close>);
  other integers are \<open>int\<close>, with \<open>fits_int\<close> where the bounds of Go's \<open>int\<close> matter. Strings are
  lists of bytes. An error is a value of a sum type or option; a nil dereference is the
  constructor \<open>Panics\<close>.

  \<^bold>\<open>Fuel and termination\<close>

  Loops are structural recursion or have a measure. Only the JSON parser has fuel, for
  nesting: twice the length of the input, which is enough (\<open>Json.parse_value_enough\<close>).

  \<^bold>\<open>Not modelled\<close>

  The log calls everywhere, with the construction of the logger apart from its level (the
  messages of \<open>sys_linux.go\<close> are values); what \<open>SetMemoryLimit\<close> does to Go's runtime; time
  itself, so that any ticker may fire at any moment; sing-box, HTTP, the token bucket and the
  rest of the third-party code, which are parameters; the contexts, which have no effect but
  to end the tickers and, in the doctor, to bound the listening. A tick that is under way when
  the signal comes ends before the shutdown in the model of the process; that it need not is
  the subject of \<open>Engine_Spec.close_during_reload_leaks\<close>. \<open>float64\<close> is modelled as bits, for the
  digests, and as exact numbers in the conversion of speed limits. What is left of the code
  are imports, interface declarations, copies of values (\<open>CloneUsers\<close>), the forwarding
  methods of wrapped connections and sing-box's registries.
\<close>

end
